(* ===== verification/Prelude.thy ===== *)
theory Prelude
  imports Main "HOL-Library.Word" "HOL-Library.Char_ord" "HOL-Library.List_Lexorder"
begin

unbundle bit_operations_syntax

text \<open>
  Shared vocabulary of the development: the machine integers and byte strings of the
  crate, Rust's \<open>Result\<close> (a sum, \<open>Inl\<close> the error) with the \<open>?\<close> operator as a bind,
  panics as values of a third outcome, the big- and little-endian byte forms of
  \<open>to_be_bytes\<close> / \<open>to_le_bytes\<close> / \<open>from_be_bytes\<close>, the list operations behind
  \<open>split\<close> and \<open>join\<close>, and the generic lemmas the components share.
\<close>

section \<open>Machine integers, byte strings\<close>

type_synonym u8 = "8 word"
type_synonym u16 = "16 word"
type_synonym u32 = "32 word"
type_synonym u64 = "64 word"
type_synonym bytes = "u8 list"

named_theorems result_simps \<open>the bind of \<open>Result\<close> on both constructors\<close>
named_theorems byte_simps \<open>byte forms of machine integers of a fixed width\<close>
named_theorems split_simps \<open>splitting and joining at a separator\<close>

section \<open>Results and panics\<close>

text \<open>
  \<open>rbind m f\<close> is \<open>let x = m?; f(x)\<close>. \<open>ok_or\<close> is \<open>Option::ok_or\<close>. An
  \<open>outcome\<close> is what a call does that may also panic.
\<close>

definition rbind :: "'e + 'a \<Rightarrow> ('a \<Rightarrow> 'e + 'b) \<Rightarrow> 'e + 'b" where
  "rbind m f = (case m of Inl e \<Rightarrow> Inl e | Inr a \<Rightarrow> f a)"

definition ok_or :: "'e \<Rightarrow> 'a option \<Rightarrow> 'e + 'a" where
  "ok_or e m = (case m of None \<Rightarrow> Inl e | Some a \<Rightarrow> Inr a)"

datatype 'a outcome = Returns 'a | Panics

definition obind :: "'a outcome \<Rightarrow> ('a \<Rightarrow> 'b outcome) \<Rightarrow> 'b outcome" where
  "obind m f = (case m of Returns a \<Rightarrow> f a | Panics \<Rightarrow> Panics)"

lemma rbind_Inl [simp, result_simps]: "rbind (Inl e) f = Inl e"
  by (simp add: rbind_def)

lemma rbind_Inr [simp, result_simps]: "rbind (Inr a) f = f a"
  by (simp add: rbind_def)

lemma rbind_eq_Inr [result_simps]: "rbind m f = Inr b \<longleftrightarrow> (\<exists>a. m = Inr a \<and> f a = Inr b)"
  by (cases m) auto

lemma rbind_InrE:
  assumes "rbind m f = Inr b"
  obtains a where "m = Inr a" "f a = Inr b"
  using assms by (cases m) auto

lemma rbind_eq_Inl [result_simps]:
  "rbind m f = Inl e \<longleftrightarrow> m = Inl e \<or> (\<exists>a. m = Inr a \<and> f a = Inl e)"
  by (cases m) auto

lemma rbind_assoc: "rbind (rbind m f) g = rbind m (\<lambda>x. rbind (f x) g)"
  by (cases m) auto

lemma rbind_Inr_id [simp]: "rbind m Inr = m"
  by (cases m) auto

lemma ok_or_simps [simp, result_simps]: "ok_or e None = Inl e" "ok_or e (Some a) = Inr a"
  by (simp_all add: ok_or_def)

lemma ok_or_eq_Inr [simp, result_simps]: "ok_or e m = Inr a \<longleftrightarrow> m = Some a"
  by (cases m) auto

lemma obind_simps [simp]: "obind (Returns a) f = f a" "obind Panics f = Panics"
  by (simp_all add: obind_def)

lemma obind_eq_Returns: "obind m f = Returns b \<longleftrightarrow> (\<exists>a. m = Returns a \<and> f a = Returns b)"
  by (cases m) auto

section \<open>Big- and little-endian byte forms\<close>

text \<open>
  \<open>be_bytes n w\<close> is \<open>to_be_bytes\<close> of an \<open>8 * n\<close>-bit integer, \<open>le_bytes n w\<close> its
  \<open>to_le_bytes\<close>; \<open>from_be\<close> is \<open>from_be_bytes\<close>, and equally the loop
  \<open>acc = (acc << 8) | byte\<close> the source writes out.
\<close>

fun le_bytes :: "nat \<Rightarrow> 'a::len word \<Rightarrow> bytes" where
  "le_bytes 0 w = []"
| "le_bytes (Suc n) w = ucast w # le_bytes n (drop_bit 8 w)"

definition be_bytes :: "nat \<Rightarrow> 'a::len word \<Rightarrow> bytes" where
  "be_bytes n w = rev (le_bytes n w)"

definition from_be :: "bytes \<Rightarrow> 'a::len word" where
  "from_be bs = foldl (\<lambda>acc b. push_bit 8 acc OR ucast b) 0 bs"

lemma length_le_bytes [simp]: "length (le_bytes n w) = n"
  by (induction n arbitrary: w) auto

lemma length_be_bytes [simp]: "length (be_bytes n w) = n"
  by (simp add: be_bytes_def)

lemma be_bytes_Suc: "be_bytes (Suc n) w = be_bytes n (drop_bit 8 w) @ [ucast w]"
  by (simp add: be_bytes_def)

lemma from_be_snoc: "from_be (bs @ [b]) = push_bit 8 (from_be bs) OR ucast b"
  by (simp add: from_be_def)

lemma from_be_Nil [simp]: "from_be [] = 0"
  by (simp add: from_be_def)

lemma be_bytes_2 [byte_simps]: "be_bytes 2 w = [ucast (drop_bit 8 w), ucast w]"
  by (simp add: be_bytes_def numeral_2_eq_2)

lemma be_bytes_4 [byte_simps]:
  "be_bytes 4 w = [ucast (drop_bit 24 w), ucast (drop_bit 16 w), ucast (drop_bit 8 w), ucast w]"
  by (simp add: be_bytes_def numeral_eq_Suc)

lemma push_or_ucast:
  fixes w :: "'a::len word"
  shows "push_bit 8 (take_bit m (drop_bit 8 w)) OR ucast (ucast w :: u8) = take_bit (m + 8) w"
proof (rule bit_word_eqI)
  fix k assume k: "k < LENGTH('a)"
  have "k - 8 + 8 = k" if "8 \<le> k" using that by simp
  then show "bit (push_bit 8 (take_bit m (drop_bit 8 w)) OR ucast (ucast w :: u8)) k
      = bit (take_bit (m + 8) w) k"
    using k by (auto simp: bit_simps add.commute)
qed

lemma from_be_be_bytes: "from_be (be_bytes n w) = take_bit (8 * n) w"
proof (induction n arbitrary: w)
  case 0
  then show ?case by (simp add: be_bytes_def)
next
  case (Suc n)
  then show ?case
    using push_or_ucast [of "8 * n" w] by (simp add: be_bytes_Suc from_be_snoc add.commute)
qed

lemma from_be_bytes_u16 [simp]: "from_be (be_bytes 2 (w :: u16)) = w"
  by (simp add: from_be_be_bytes take_bit_word_eq_self)

lemma from_be_bytes_u32 [simp]: "from_be (be_bytes 4 (w :: u32)) = w"
  by (simp add: from_be_be_bytes take_bit_word_eq_self)

lemma ucast_take_bit_eq:
  assumes "ucast v = (ucast w :: u8)" "take_bit n (drop_bit 8 v) = take_bit n (drop_bit 8 w)"
  shows "take_bit (n + 8) v = take_bit (n + 8) (w :: 'a::len word)"
  using assms push_or_ucast [of n v] push_or_ucast [of n w] by simp

lemma le_bytes_inj: "le_bytes n v = le_bytes n w \<Longrightarrow> take_bit (8 * n) v = take_bit (8 * n) w"
proof (induction n arbitrary: v w)
  case 0
  then show ?case by simp
next
  case (Suc n)
  then have "ucast v = (ucast w :: u8)" and "le_bytes n (drop_bit 8 v) = le_bytes n (drop_bit 8 w)"
    by simp_all
  then have "take_bit (8 * n + 8) v = take_bit (8 * n + 8) w"
    using Suc.IH by (intro ucast_take_bit_eq) blast+
  then show ?case by (simp only: mult_Suc_right add.commute)
qed

lemma le_bytes_inj_u64 [simp]: "le_bytes 8 v = le_bytes 8 (w :: u64) \<longleftrightarrow> v = w"
  using le_bytes_inj [of 8 v w] take_bit_word_eq_self [of 64 v] take_bit_word_eq_self [of 64 w]
  by fastforce

lemma le_bytes_inj_u32 [simp]: "le_bytes 4 v = le_bytes 4 (w :: u32) \<longleftrightarrow> v = w"
  using le_bytes_inj [of 4 v w] take_bit_word_eq_self [of 32 v] take_bit_word_eq_self [of 32 w]
  by fastforce

lemma be_bytes_inj_u16 [simp]: "be_bytes 2 v = be_bytes 2 (w :: u16) \<longleftrightarrow> v = w"
  by (metis from_be_bytes_u16)

lemma be_bytes_inj_u32 [simp]: "be_bytes 4 v = be_bytes 4 (w :: u32) \<longleftrightarrow> v = w"
  by (metis from_be_bytes_u32)

lemma u16_split:
  fixes w :: u16
  assumes "w = push_bit 8 (push_bit 8 0 OR ucast x) OR ucast y"
  shows "ucast (drop_bit 8 w) = (x :: u8)" "ucast w = (y :: u8)"
  unfolding assms by (rule bit_word_eqI; auto simp: bit_simps dest: bit_imp_le_length)+

lemma u32_split:
  fixes w :: u32
  assumes "w = push_bit 8 (push_bit 8 (push_bit 8 (push_bit 8 0 OR ucast a) OR ucast b) OR ucast c) OR ucast d"
  shows "ucast (drop_bit 24 w) = (a :: u8)" "ucast (drop_bit 16 w) = (b :: u8)"
    "ucast (drop_bit 8 w) = (c :: u8)" "ucast w = (d :: u8)"
  unfolding assms by (rule bit_word_eqI; auto simp: bit_simps dest: bit_imp_le_length)+

lemma be_bytes_from_be_u16: "length b = 2 \<Longrightarrow> be_bytes 2 (from_be b :: u16) = b"
proof -
  assume "length b = 2"
  then obtain x y where b: "b = [x, y]" by (auto simp: numeral_eq_Suc length_Suc_conv)
  show ?thesis unfolding b from_be_def be_bytes_2 by (simp only: foldl.simps u16_split [OF refl])
qed

lemma be_bytes_from_be_u32: "length b = 4 \<Longrightarrow> be_bytes 4 (from_be b :: u32) = b"
proof -
  assume "length b = 4"
  then obtain x y z w where b: "b = [x, y, z, w]" by (auto simp: numeral_eq_Suc length_Suc_conv)
  show ?thesis unfolding b from_be_def be_bytes_4 by (simp only: foldl.simps u32_split [OF refl])
qed
text \<open>The same loop on \<open>usize\<close>, whose values here stay far below the width.\<close>

lemma or_shift8: "push_bit 8 n OR unat (b :: u8) = 256 * n + unat b" for n :: nat
proof -
  have "push_bit 8 n AND unat b = 0"
    by (rule bit_eqI) (auto simp: bit_simps dest: bit_imp_le_length)
  then have "push_bit 8 n OR unat b = push_bit 8 n + unat b"
    by (simp add: disjunctive_add_eq_or)
  then show ?thesis by (simp add: push_bit_eq_mult)
qed

text \<open>A byte string read as a natural number, most significant byte first.\<close>

definition be_nat :: "bytes \<Rightarrow> nat" where
  "be_nat bs = foldl (\<lambda>len b. push_bit 8 len OR unat b) 0 bs"

lemma be_nat_snoc: "be_nat (bs @ [b]) = 256 * be_nat bs + unat b"
  by (simp add: be_nat_def or_shift8)

lemma be_nat_simps [simp]:
  "be_nat [] = 0" "be_nat [a] = unat a" "be_nat [a, b] = 256 * unat a + unat b"
  using be_nat_snoc [of "[]" a] be_nat_snoc [of "[a]" b] by (simp_all add: be_nat_def)

section \<open>Separators: splitting and joining\<close>

fun split_on :: "'a \<Rightarrow> 'a list \<Rightarrow> 'a list list" where
  "split_on c [] = [[]]"
| "split_on c (x # xs) =
     (if x = c then [] # split_on c xs
      else (case split_on c xs of [] \<Rightarrow> [[x]] | p # ps \<Rightarrow> (x # p) # ps))"

fun join_with :: "'a \<Rightarrow> 'a list list \<Rightarrow> 'a list" where
  "join_with c [] = []"
| "join_with c [x] = x"
| "join_with c (x # y # ys) = x @ c # join_with c (y # ys)"

lemma sep_cancel [split_simps]:
  "c \<notin> set a \<Longrightarrow> c \<notin> set b \<Longrightarrow> a @ c # r = b @ c # s \<longleftrightarrow> a = b \<and> r = s"
proof (induction a arbitrary: b)
  case Nil
  then show ?case by (cases b) auto
next
  case (Cons x a)
  then show ?case by (cases b) auto
qed

lemma split_on_not_Nil [simp]: "split_on c xs \<noteq> []"
  by (induction xs) (auto split: list.splits)

lemma split_on_free [split_simps]: "c \<notin> set xs \<Longrightarrow> split_on c xs = [xs]"
  by (induction xs) auto

lemma split_on_append [split_simps]:
  "c \<notin> set a \<Longrightarrow> split_on c (a @ c # r) = a # split_on c r"
  by (induction a) auto

lemma split_on_pieces_free: "p \<in> set (split_on c xs) \<Longrightarrow> c \<notin> set p"
proof (induction xs arbitrary: p)
  case Nil
  then show ?case by simp
next
  case (Cons x xs)
  then show ?case by (auto split: if_splits list.splits)
qed

lemma join_with_Cons: "ys \<noteq> [] \<Longrightarrow> join_with c (y # ys) = y @ c # join_with c ys"
  by (cases ys) auto

lemma join_split: "join_with c (split_on c xs) = xs"
proof (induction xs)
  case Nil
  then show ?case by simp
next
  case (Cons x xs)
  obtain p ps where sp: "split_on c xs = p # ps"
    by (cases "split_on c xs") auto
  then have jp: "join_with c (p # ps) = xs" using Cons by simp
  show ?case
  proof (cases "x = c")
    case True
    then show ?thesis using Cons sp by (simp add: join_with_Cons)
  next
    case False
    then show ?thesis using sp jp by (cases ps) auto
  qed
qed

lemma split_join:
  "xs \<noteq> [] \<Longrightarrow> \<forall>x \<in> set xs. c \<notin> set x \<Longrightarrow> split_on c (join_with c xs) = xs"
proof (induction c xs rule: join_with.induct)
  case (1 c)
  then show ?case by simp
next
  case (2 c x)
  then show ?case by (simp add: split_on_free)
next
  case (3 c x y ys)
  then show ?case by (simp add: split_on_append)
qed

section \<open>Lists\<close>

lemma find_append:
  "List.find P (xs @ ys) = (case List.find P xs of None \<Rightarrow> List.find P ys | Some x \<Rightarrow> Some x)"
  by (induction xs) auto

lemma take_eq_self_append [simp]: "n = length xs \<Longrightarrow> take n (xs @ ys) = xs"
  by simp

lemma drop_eq_rest_append [simp]: "n = length xs \<Longrightarrow> drop n (xs @ ys) = ys"
  by simp

end
