(* ===== verification/Rust_Str.thy ===== *)
theory Rust_Str
  imports Prelude
begin

text \<open>
  Rust strings as the standard library has them. A \<open>String\<close> is a sequence of UTF-8
  bytes; the model is \<open>string\<close>, one \<open>char\<close> per byte, so that \<open>len\<close> counts bytes,
  comparison is bytewise and every literal of the source is a literal here. The
  operations are those the crate calls: \<open>as_bytes\<close>, \<open>from_utf8\<close>,
  \<open>to_ascii_lowercase\<close>, \<open>strip_prefix\<close>, \<open>split_once\<close>, \<open>splitn\<close>, \<open>contains\<close>
  of an ASCII character (list membership), and \<open>Ord::cmp\<close> with \<open>then_with\<close>.
\<close>

section \<open>Bytes of a string, UTF-8 validation\<close>

definition byte_of_char :: "char \<Rightarrow> u8" where
  "byte_of_char c = word_of_nat (of_char c)"

definition char_of_byte :: "u8 \<Rightarrow> char" where
  "char_of_byte b = char_of (unat b)"

definition as_bytes :: "string \<Rightarrow> bytes" where
  "as_bytes s = map byte_of_char s"

definition of_bytes :: "bytes \<Rightarrow> string" where
  "of_bytes bs = map char_of_byte bs"

definition utf8_cont :: "u8 \<Rightarrow> bool" where
  "utf8_cont b \<longleftrightarrow> 0x80 \<le> b \<and> b \<le> 0xBF"

text \<open>
  The well-formed byte sequences of the Unicode standard (table 3-7), which is what
  \<open>core::str::from_utf8\<close> accepts: no overlong forms, no surrogates, nothing above
  U+10FFFF.
\<close>

fun utf8_valid :: "bytes \<Rightarrow> bool" where
  "utf8_valid [] = True"
| "utf8_valid (b # bs) =
     (if b < 0x80 then utf8_valid bs
      else if 0xC2 \<le> b \<and> b \<le> 0xDF then
        (case bs of c # r \<Rightarrow> utf8_cont c \<and> utf8_valid r | _ \<Rightarrow> False)
      else if 0xE0 \<le> b \<and> b \<le> 0xEF then
        (case bs of
           c # d # r \<Rightarrow>
             utf8_cont c \<and> (b = 0xE0 \<longrightarrow> 0xA0 \<le> c) \<and> (b = 0xED \<longrightarrow> c \<le> 0x9F) \<and>
             utf8_cont d \<and> utf8_valid r
         | _ \<Rightarrow> False)
      else if 0xF0 \<le> b \<and> b \<le> 0xF4 then
        (case bs of
           c # d # e # r \<Rightarrow>
             utf8_cont c \<and> (b = 0xF0 \<longrightarrow> 0x90 \<le> c) \<and> (b = 0xF4 \<longrightarrow> c \<le> 0x8F) \<and>
             utf8_cont d \<and> utf8_cont e \<and> utf8_valid r
         | _ \<Rightarrow> False)
      else False)"

definition from_utf8 :: "bytes \<Rightarrow> string option" where
  "from_utf8 bs = (if utf8_valid bs then Some (of_bytes bs) else None)"

text \<open>The type invariant of every Rust \<open>String\<close> and \<open>&str\<close>.\<close>

definition is_rust_str :: "string \<Rightarrow> bool" where
  "is_rust_str s \<longleftrightarrow> utf8_valid (as_bytes s)"

section \<open>Searching, splitting, case, comparison\<close>

definition ascii_lower :: "char \<Rightarrow> char" where
  "ascii_lower c = (if CHR ''A'' \<le> c \<and> c \<le> CHR ''Z'' then char_of (of_char c + 32 :: nat) else c)"

definition to_ascii_lowercase :: "string \<Rightarrow> string" where
  "to_ascii_lowercase s = map ascii_lower s"

definition strip_prefix :: "'a list \<Rightarrow> 'a list \<Rightarrow> 'a list option" where
  "strip_prefix p s = (if take (length p) s = p then Some (drop (length p) s) else None)"

fun split_once :: "'a list \<Rightarrow> 'a list \<Rightarrow> ('a list \<times> 'a list) option" where
  "split_once pat [] = map_option (\<lambda>r. ([], r)) (strip_prefix pat [])"
| "split_once pat (c # cs) =
     (case strip_prefix pat (c # cs) of
        Some r \<Rightarrow> Some ([], r)
      | None \<Rightarrow> map_option (\<lambda>(a, b). (c # a, b)) (split_once pat cs))"

text \<open>\<open>splitn n c s\<close>: at most \<open>n\<close> pieces, the last one the unsplit rest.\<close>

fun splitn :: "nat \<Rightarrow> 'a \<Rightarrow> 'a list \<Rightarrow> 'a list list" where
  "splitn 0 c s = []"
| "splitn (Suc 0) c s = [s]"
| "splitn (Suc (Suc n)) c s =
     (case split_once [c] s of None \<Rightarrow> [s] | Some (a, b) \<Rightarrow> a # splitn (Suc n) c b)"

datatype ordering = Ord_Less | Ord_Equal | Ord_Greater

definition cmp :: "'a::linorder \<Rightarrow> 'a \<Rightarrow> ordering" where
  "cmp x y = (if x < y then Ord_Less else if x = y then Ord_Equal else Ord_Greater)"

definition then_with :: "ordering \<Rightarrow> ordering \<Rightarrow> ordering" where
  "then_with o1 o2 = (if o1 = Ord_Equal then o2 else o1)"

section \<open>Lemmas\<close>

lemma byte_of_char_of_byte [simp]: "byte_of_char (char_of_byte b) = b"
proof -
  have "unat b < 256" using unsigned_less [of b] by simp
  then show ?thesis by (simp add: byte_of_char_def char_of_byte_def of_char_of)
qed

lemma unat_byte_of_char: "unat (byte_of_char c) = of_char c"
proof -
  have "of_char c = (of_char c :: nat) mod 256"
    by (metis char_of_char of_char_of)
  then show ?thesis by (simp add: byte_of_char_def unat_of_nat)
qed

lemma char_of_byte_of_char [simp]: "char_of_byte (byte_of_char c) = c"
  by (simp add: char_of_byte_def unat_byte_of_char)

lemma of_bytes_as_bytes [simp]: "of_bytes (as_bytes s) = s"
  by (simp add: of_bytes_def as_bytes_def comp_def)

lemma as_bytes_of_bytes [simp]: "as_bytes (of_bytes bs) = bs"
  by (simp add: of_bytes_def as_bytes_def comp_def)

lemma as_bytes_inj [simp]: "as_bytes s = as_bytes t \<longleftrightarrow> s = t"
  by (metis of_bytes_as_bytes)

lemma byte_of_char_inj [simp]: "byte_of_char c = byte_of_char d \<longleftrightarrow> c = d"
  by (metis char_of_byte_of_char)

lemma length_as_bytes [simp]: "length (as_bytes s) = length s"
  by (simp add: as_bytes_def)

lemma as_bytes_append [simp]: "as_bytes (s @ t) = as_bytes s @ as_bytes t"
  by (simp add: as_bytes_def)

lemma as_bytes_Nil [simp]: "as_bytes [] = []"
  by (simp add: as_bytes_def)

lemma as_bytes_Cons: "as_bytes (c # s) = byte_of_char c # as_bytes s"
  by (simp add: as_bytes_def)

lemma as_bytes_eq_Nil [simp]: "as_bytes s = [] \<longleftrightarrow> s = []"
  by (simp add: as_bytes_def)

lemma byte_of_char_in_as_bytes [simp]: "byte_of_char c \<in> set (as_bytes s) \<longleftrightarrow> c \<in> set s"
  by (auto simp: as_bytes_def)

lemma byte_of_char_NUL: "byte_of_char (CHR 0x00) = 0"
  by (simp add: byte_of_char_def)

lemma nul_in_as_bytes [simp]: "0 \<in> set (as_bytes s) \<longleftrightarrow> CHR 0x00 \<in> set s"
  using byte_of_char_in_as_bytes [of "CHR 0x00" s] by (simp add: byte_of_char_NUL)

lemma from_utf8_Some: "from_utf8 bs = Some s \<longleftrightarrow> utf8_valid bs \<and> as_bytes s = bs"
  by (auto simp: from_utf8_def)

lemma from_utf8_as_bytes [simp]: "is_rust_str s \<Longrightarrow> from_utf8 (as_bytes s) = Some s"
  by (simp add: from_utf8_Some is_rust_str_def)

lemma from_utf8_rust_str: "from_utf8 bs = Some s \<Longrightarrow> is_rust_str s"
  by (auto simp: from_utf8_Some is_rust_str_def)

lemma utf8_valid_ascii: "\<forall>b \<in> set bs. b < 0x80 \<Longrightarrow> utf8_valid bs"
  by (induction bs) auto

lemma strip_prefix_Some: "strip_prefix p s = Some r \<longleftrightarrow> s = p @ r"
  by (auto simp: strip_prefix_def) (metis append_take_drop_id)

lemma strip_prefix_append [simp]: "strip_prefix p (p @ r) = Some r"
  by (simp add: strip_prefix_Some)

lemma strip_prefix_Cons_append [simp]: "strip_prefix (c # p) (c # p @ r) = Some r"
  by (simp add: strip_prefix_Some)

lemma strip_prefix_None: "strip_prefix p s = None \<longleftrightarrow> (\<nexists>r. s = p @ r)"
  by (metis not_None_eq strip_prefix_Some)

lemma split_once_Some_append: "split_once pat s = Some (a, b) \<Longrightarrow> s = a @ pat @ b"
proof (induction pat s arbitrary: a b rule: split_once.induct)
  case (1 pat)
  then show ?case by (auto simp: strip_prefix_Some)
next
  case (2 pat c cs)
  then show ?case by (auto simp: strip_prefix_Some split: option.splits)
qed

lemma split_once_first [split_simps]:
  "c \<notin> set a \<Longrightarrow> split_once (c # p) (a @ c # p @ b) = Some (a, b)"
proof (induction a)
  case Nil
  show ?case by simp
next
  case (Cons x a)
  then have "strip_prefix (c # p) (x # a @ c # p @ b) = None"
    by (auto simp: strip_prefix_None)
  then show ?case using Cons by simp
qed

lemma split_once_char [split_simps]: "c \<notin> set a \<Longrightarrow> split_once [c] (a @ c # b) = Some (a, b)"
  using split_once_first [of c a "[]" b] by simp

lemma split_once_char_None [split_simps]: "split_once [c] s = None \<longleftrightarrow> c \<notin> set s"
proof (induction s)
  case Nil
  then show ?case by (simp add: strip_prefix_None)
next
  case (Cons x s)
  then show ?case by (cases "x = c") (auto simp: strip_prefix_def)
qed

lemma split_once_char_Some:
  "split_once [c] s = Some (a, b) \<longleftrightarrow> s = a @ c # b \<and> c \<notin> set a"
proof (induction s arbitrary: a)
  case Nil
  then show ?case by (simp add: strip_prefix_def)
next
  case (Cons x s)
  then show ?case by (cases "x = c"; cases a) (auto simp: strip_prefix_def)
qed

lemma cmp_simps [simp]:
  "cmp x y = Ord_Equal \<longleftrightarrow> x = y"
  "cmp x y = Ord_Less \<longleftrightarrow> x < y"
  "cmp x y = Ord_Greater \<longleftrightarrow> y < x"
  by (auto simp: cmp_def)

lemma then_with_simps [simp]:
  "then_with a b = Ord_Equal \<longleftrightarrow> a = Ord_Equal \<and> b = Ord_Equal"
  "then_with a b = Ord_Less \<longleftrightarrow> a = Ord_Less \<or> a = Ord_Equal \<and> b = Ord_Less"
  "then_with a b = Ord_Greater \<longleftrightarrow> a = Ord_Greater \<or> a = Ord_Equal \<and> b = Ord_Greater"
  by (auto simp: then_with_def)

end
