(* ===== verification/Utf8_Text.thy ===== *)
theory Utf8_Text
  imports Rust_Str
begin

text \<open>
  Valid UTF-8 under concatenation and under cutting at ASCII bytes, for strings that the crate
  builds by joining and splitting and for bytes it searches for (\<open>Rust_Str.utf8_valid\<close>).
\<close>

section \<open>Joining and cutting valid UTF-8\<close>

text \<open>One well-formed sequence; a valid text is a list of them.\<close>

definition utf8_seq :: "bytes \<Rightarrow> bool" where
  "utf8_seq s \<longleftrightarrow> (case s of
       [b] \<Rightarrow> b < 0x80
     | [b, c] \<Rightarrow> 0xC2 \<le> b \<and> b \<le> 0xDF \<and> utf8_cont c
     | [b, c, d] \<Rightarrow> 0xE0 \<le> b \<and> b \<le> 0xEF \<and> utf8_cont c \<and> (b = 0xE0 \<longrightarrow> 0xA0 \<le> c) \<and> (b = 0xED \<longrightarrow> c \<le> 0x9F) \<and> utf8_cont d
     | [b, c, d, e] \<Rightarrow> 0xF0 \<le> b \<and> b \<le> 0xF4 \<and> utf8_cont c \<and> (b = 0xF0 \<longrightarrow> 0x90 \<le> c) \<and> (b = 0xF4 \<longrightarrow> c \<le> 0x8F) \<and>
         utf8_cont d \<and> utf8_cont e
     | _ \<Rightarrow> False)"

lemma lead_byte:
  "0xC2 \<le> b \<Longrightarrow> \<not> b < 0x80" "0xE0 \<le> b \<Longrightarrow> \<not> b < 0x80 \<and> \<not> b \<le> 0xDF"
  "0xF0 \<le> b \<Longrightarrow> \<not> b < 0x80 \<and> \<not> b \<le> 0xDF \<and> \<not> b \<le> 0xEF" "utf8_cont b \<Longrightarrow> \<not> b < 0x80" for b :: u8
proof -
  have lt: "(0x80 :: u8) < 0xC2" "(0xC2 :: u8) < 0xDF" "(0xDF :: u8) < 0xE0" "(0xE0 :: u8) < 0xEF" "(0xEF :: u8) < 0xF0" by simp_all
  show "0xC2 \<le> b \<Longrightarrow> \<not> b < 0x80" using lt by order
  show "0xE0 \<le> b \<Longrightarrow> \<not> b < 0x80 \<and> \<not> b \<le> 0xDF" using lt by (intro conjI) order+
  show "0xF0 \<le> b \<Longrightarrow> \<not> b < 0x80 \<and> \<not> b \<le> 0xDF \<and> \<not> b \<le> 0xEF" using lt by (intro conjI) order+
  show "utf8_cont b \<Longrightarrow> \<not> b < 0x80" by (simp add: utf8_cont_def not_less)
qed

lemma utf8_seq_cases:
  assumes "utf8_seq s"
  obtains b where "s = [b]" "b < 0x80"
    | b c where "s = [b, c]" "\<not> b < 0x80" "0xC2 \<le> b \<and> b \<le> 0xDF" "utf8_cont c"
    | b c d where "s = [b, c, d]" "\<not> b < 0x80" "\<not> b \<le> 0xDF" "0xE0 \<le> b \<and> b \<le> 0xEF" "utf8_cont c" "utf8_cont d"
        "b = 0xE0 \<longrightarrow> 0xA0 \<le> c" "b = 0xED \<longrightarrow> c \<le> 0x9F"
    | b c d e where "s = [b, c, d, e]" "\<not> b < 0x80" "\<not> b \<le> 0xDF" "\<not> b \<le> 0xEF" "0xF0 \<le> b \<and> b \<le> 0xF4"
        "utf8_cont c" "utf8_cont d" "utf8_cont e" "b = 0xF0 \<longrightarrow> 0x90 \<le> c" "b = 0xF4 \<longrightarrow> c \<le> 0x8F"
proof -
  have "s = [b, c] \<Longrightarrow> \<not> b < 0x80" "s = [b, c, d] \<Longrightarrow> \<not> b < 0x80 \<and> \<not> b \<le> 0xDF"
    "s = [b, c, d, e] \<Longrightarrow> \<not> b < 0x80 \<and> \<not> b \<le> 0xDF \<and> \<not> b \<le> 0xEF" for b c d e
    using assms lead_byte [of b] by (simp_all add: utf8_seq_def)
  then show ?thesis using assms that unfolding utf8_seq_def by (simp split: list.split_asm)
qed

lemma utf8_seq_front:
  assumes "utf8_seq s"
  shows "utf8_valid (s @ r) = utf8_valid r"
  using assms by (cases rule: utf8_seq_cases) simp_all

lemma utf8_valid_front:
  assumes "utf8_valid bs" "bs \<noteq> []"
  obtains s r where "bs = s @ r" "utf8_seq s" "utf8_valid r" "s \<noteq> []"
proof -
  obtain b t where bs: "bs = b # t" using assms(2) by (cases bs) auto
  consider "b < 0x80" | c r where "\<not> b < 0x80" "0xC2 \<le> b \<and> b \<le> 0xDF" "t = c # r"
    | c d r where "0xE0 \<le> b \<and> b \<le> 0xEF" "t = c # d # r"
    | c d e r where "0xF0 \<le> b \<and> b \<le> 0xF4" "t = c # d # e # r"
    using assms(1) unfolding bs by (auto split: if_splits list.splits)
  then show ?thesis
  proof cases
    case 1
    then show ?thesis using that [of "[b]" t] assms(1) bs by (simp add: utf8_seq_def)
  next
    case (2 c r)
    then show ?thesis using that [of "[b, c]" r] assms(1) bs by (simp add: utf8_seq_def)
  next
    case (3 c d r)
    then show ?thesis using that [of "[b, c, d]" r] assms(1) bs by (simp add: utf8_seq_def lead_byte)
  next
    case (4 c d e r)
    then show ?thesis using that [of "[b, c, d, e]" r] assms(1) bs by (simp add: utf8_seq_def lead_byte)
  qed
qed

lemma utf8_induct [consumes 1, case_names Nil Seq]:
  assumes "utf8_valid bs" "P []" "\<And>s r. utf8_seq s \<Longrightarrow> utf8_valid r \<Longrightarrow> P r \<Longrightarrow> P (s @ r)"
  shows "P bs"
  using assms(1)
proof (induction bs rule: length_induct)
  case (1 bs)
  show ?case
  proof (cases "bs = []")
    case False
    with 1(2) obtain s r where "bs = s @ r" "utf8_seq s" "utf8_valid r" "s \<noteq> []" by (rule utf8_valid_front)
    then show ?thesis using 1(1) assms(3) by simp
  qed (simp add: assms(2))
qed

lemma utf8_append: "utf8_valid xs \<Longrightarrow> utf8_valid ys \<Longrightarrow> utf8_valid (xs @ ys)"
  by (induction xs rule: utf8_induct) (simp_all add: utf8_seq_front)

text \<open>An ASCII byte is a sequence of its own, so a valid text can be cut there.\<close>

lemma utf8_seq_ascii:
  assumes "utf8_seq s" "x \<in> set s" "x < 0x80"
  shows "s = [x]"
  using assms(1) by (cases rule: utf8_seq_cases) (use assms(2,3) lead_byte(4) in auto)

lemma utf8_cut: "utf8_valid zs \<Longrightarrow> zs = xs @ b # ys \<Longrightarrow> b < 0x80 \<Longrightarrow> utf8_valid xs \<and> utf8_valid ys"
proof (induction zs arbitrary: xs rule: utf8_induct)
  case (Seq s r)
  from Seq.prems(1) consider u where "s = xs @ u" "u @ r = b # ys" | u where "xs = s @ u" "r = u @ b # ys"
    by (auto simp: append_eq_append_conv2)
  then show ?case
  proof cases
    case (1 u)
    show ?thesis
    proof (cases u)
      case Nil
      then show ?thesis using 1 Seq.IH [of "[]"] Seq.prems(2) Seq.hyps(1) utf8_seq_front [of s "[]"] by simp
    next
      case (Cons v w)
      then have "b \<in> set s" using 1 by auto
      then have "s = [b]" using utf8_seq_ascii [OF Seq.hyps(1)] Seq.prems(2) by blast
      then show ?thesis using 1 Cons Seq.hyps(2) by (cases xs) auto
    qed
  next
    case (2 u)
    then show ?thesis using Seq.IH [of u] Seq.prems(2) Seq.hyps(1) by (simp add: utf8_seq_front)
  qed
qed simp

lemma rust_str_append: "is_rust_str a \<Longrightarrow> is_rust_str b \<Longrightarrow> is_rust_str (a @ b)"
  by (simp add: is_rust_str_def utf8_append)

lemma rust_str_ascii: "\<forall>c \<in> set s. byte_of_char c < 0x80 \<Longrightarrow> is_rust_str s"
  by (auto simp: is_rust_str_def as_bytes_def intro!: utf8_valid_ascii)

lemma rust_str_cut: "byte_of_char c < 0x80 \<Longrightarrow> is_rust_str (a @ c # b) \<Longrightarrow> is_rust_str a \<and> is_rust_str b"
  using utf8_cut [OF _ refl, of "as_bytes a" "byte_of_char c" "as_bytes b"] by (simp add: is_rust_str_def as_bytes_Cons)

text \<open>A continuation byte never follows an ASCII byte.\<close>

lemma utf8_no_stray:
  assumes "utf8_valid zs" "b < 0x80" "utf8_cont c"
  shows "zs \<noteq> xs @ b # c # ys"
proof
  assume "zs = xs @ b # c # ys"
  then have "utf8_valid (c # ys)" using utf8_cut [OF assms(1) _ assms(2)] by blast
  moreover have "\<not> c < 0x80" "\<not> 0xC2 \<le> c" "\<not> 0xE0 \<le> c" "\<not> 0xF0 \<le> c"
  proof -
    have "c \<le> 0xBF" "0x80 \<le> c" using assms(3) by (simp_all add: utf8_cont_def)
    moreover have "(0xBF :: u8) < 0xC2" "(0xBF :: u8) < 0xE0" "(0xBF :: u8) < 0xF0" by simp_all
    ultimately show "\<not> c < 0x80" "\<not> 0xC2 \<le> c" "\<not> 0xE0 \<le> c" "\<not> 0xF0 \<le> c" by order+
  qed
  ultimately show False by simp
qed

end
