(* ===== verification/Hex_Id.thy ===== *)
theory Hex_Id
  imports Rust_Str
begin

text \<open>
  The 16-byte identifiers of the crate (\<open>EkFingerprint\<close>, \<open>OperatorGrantId\<close>,
  \<open>SagRuleId\<close>) share one lowercase-hex wire form, written out three times in the
  source. This theory has the digit table, the encoder and the decoder once, and the
  locale \<open>hex_id\<close>: the contract of such an identifier, with the round trip and the
  canonical form of parsed text proved once and for all. It also has the truncated hash
  that derives the identifiers, over an arbitrary hash function.
\<close>

section \<open>Digits, encoder, decoder\<close>

definition HEX :: string where
  "HEX = ''0123456789abcdef''"

definition hex_val :: "u8 \<Rightarrow> u8 option" where
  "hex_val b =
     (if 0x30 \<le> b \<and> b \<le> 0x39 then Some (b - 0x30)
      else if 0x61 \<le> b \<and> b \<le> 0x66 then Some (b - 0x61 + 10)
      else if 0x41 \<le> b \<and> b \<le> 0x46 then Some (b - 0x41 + 10)
      else None)"

fun hex_encode :: "bytes \<Rightarrow> string" where
  "hex_encode [] = []"
| "hex_encode (b # bs) =
     HEX ! unat (drop_bit 4 b) # HEX ! unat (b AND 0x0f) # hex_encode bs"

text \<open>The loop of \<open>from_hex\<close>, two digits at a time; \<open>?\<close> leaves at the first bad digit.\<close>

fun hex_pairs :: "bytes \<Rightarrow> bytes option" where
  "hex_pairs [] = Some []"
| "hex_pairs [h] = None"
| "hex_pairs (h # l # r) =
     (case hex_val h of None \<Rightarrow> None
      | Some hi \<Rightarrow> (case hex_val l of None \<Rightarrow> None
          | Some lo \<Rightarrow> map_option (\<lambda>t. (push_bit 4 hi OR lo) # t) (hex_pairs r)))"

definition hex_decode16 :: "string \<Rightarrow> bytes option" where
  "hex_decode16 s = (if length (as_bytes s) \<noteq> 32 then None else hex_pairs (as_bytes s))"

section \<open>Truncated hashes\<close>

text \<open>
  \<open>blake3\<close> is a function the crate imports: a parameter. A \<open>Hasher\<close> fed by several
  \<open>update\<close> calls hashes the concatenation of what it was fed, so an identifier is the
  first 16 bytes of the hash of a preimage. \<open>collides\<close> says two different byte strings
  share that truncation.
\<close>

definition trunc16 :: "(bytes \<Rightarrow> bytes) \<Rightarrow> bytes \<Rightarrow> bytes" where
  "trunc16 blake3 pre = take 16 (blake3 pre)"

definition hash32 :: "(bytes \<Rightarrow> bytes) \<Rightarrow> bool" where
  "hash32 blake3 \<longleftrightarrow> (\<forall>x. length (blake3 x) = 32)"

definition collides :: "(bytes \<Rightarrow> bytes) \<Rightarrow> bytes \<Rightarrow> bytes \<Rightarrow> bool" where
  "collides blake3 x y \<longleftrightarrow> x \<noteq> y \<and> trunc16 blake3 x = trunc16 blake3 y"

lemma length_trunc16 [simp]: "hash32 blake3 \<Longrightarrow> length (trunc16 blake3 x) = 16"
  by (simp add: trunc16_def hash32_def)

section \<open>Digit lemmas\<close>

definition digit_table_ok :: "nat \<Rightarrow> bool" where
  "digit_table_ok n \<longleftrightarrow> hex_val (byte_of_char (HEX ! n)) = Some (word_of_nat n)"

lemma HEX_digit: "n < 16 \<Longrightarrow> hex_val (byte_of_char (HEX ! n)) = Some (word_of_nat n)"
proof -
  assume "n < 16"
  moreover have "list_all digit_table_ok [0..<16]" by code_simp
  ultimately show ?thesis by (simp add: list_all_iff digit_table_ok_def)
qed

lemma nibble_less [simp]: "unat (drop_bit 4 (b :: u8)) < 16" "unat (b AND 0x0f) < 16"
proof -
  have "unat b < 256" using unsigned_less [of b] by simp
  then show "unat (drop_bit 4 b) < 16"
    by (simp add: drop_bit_eq_div unat_div)
  have "b AND 0x0f = take_bit 4 b" by (simp add: take_bit_eq_mask mask_eq_exp_minus_1)
  then show "unat (b AND 0x0f) < 16" by (simp add: take_bit_eq_mod unat_mod)
qed

lemma nibbles_join: "push_bit 4 (drop_bit 4 b) OR (b AND 0x0f) = (b :: u8)"
proof -
  have "b AND 0x0f = take_bit 4 b" by (simp add: take_bit_eq_mask mask_eq_exp_minus_1)
  moreover have "push_bit 4 (drop_bit 4 b) OR take_bit 4 b = b"
    by (rule bit_word_eqI) (auto simp: bit_simps)
  ultimately show ?thesis by simp
qed

lemma length_hex_encode [simp]: "length (hex_encode bs) = 2 * length bs"
  by (induction bs) auto

lemma hex_pairs_encode [simp]: "hex_pairs (as_bytes (hex_encode bs)) = Some bs"
  by (induction bs) (simp_all add: as_bytes_Cons HEX_digit nibbles_join)

lemma hex_decode16_encode: "length bs = 16 \<Longrightarrow> hex_decode16 (hex_encode bs) = Some bs"
  by (simp add: hex_decode16_def)

text \<open>Every accepted digit is the table's digit of its value, up to case.\<close>

definition digit_ok :: "nat \<Rightarrow> bool" where
  "digit_ok n \<longleftrightarrow> (case hex_val (word_of_nat n) of None \<Rightarrow> True
     | Some v \<Rightarrow> v < 16 \<and> HEX ! unat v = ascii_lower (char_of n))"

lemma digit_ok_all: "n \<in> {0x30..<0x3a} \<union> {0x41..<0x47} \<union> {0x61..<0x67} \<Longrightarrow> digit_ok n"
proof -
  have "list_all digit_ok [0x30..<0x3a]" "list_all digit_ok [0x41..<0x47]"
    "list_all digit_ok [0x61..<0x67]"
    by code_simp+
  then show "n \<in> {0x30..<0x3a} \<union> {0x41..<0x47} \<union> {0x61..<0x67} \<Longrightarrow> digit_ok n"
    unfolding list_all_iff set_upt by blast
qed

lemma hex_val_Some: "hex_val b = Some v \<Longrightarrow> v < 16 \<and> HEX ! unat v = ascii_lower (char_of_byte b)"
proof -
  assume v: "hex_val b = Some v"
  then have "unat b \<in> {0x30..<0x3a} \<union> {0x41..<0x47} \<union> {0x61..<0x67}"
    by (auto simp: hex_val_def word_le_nat_alt split: if_splits)
  then have "digit_ok (unat b)" by (rule digit_ok_all)
  then show ?thesis using v by (simp add: digit_ok_def char_of_byte_def)
qed

lemma nibbles_split:
  assumes "hi < 16" "lo < (16 :: u8)"
  shows "drop_bit 4 (push_bit 4 hi OR lo) = hi" "(push_bit 4 hi OR lo) AND 0x0f = lo"
proof -
  have small: "take_bit 4 hi = hi" "take_bit 4 lo = lo"
    using assms by (simp_all add: word_less_nat_alt word_unat_eq_iff unsigned_take_bit_eq
        take_bit_nat_eq_self_iff)
  then show "drop_bit 4 (push_bit 4 hi OR lo) = hi"
    by (intro bit_word_eqI)
      (auto simp: bit_simps, (metis add.commute bit_take_bit_iff not_add_less1)+)
  have "(push_bit 4 hi OR lo) AND 0x0f = take_bit 4 (push_bit 4 hi OR lo)"
    by (simp add: take_bit_eq_mask mask_eq_exp_minus_1)
  also have "\<dots> = take_bit 4 lo" by (rule bit_word_eqI) (auto simp: bit_simps)
  finally show "(push_bit 4 hi OR lo) AND 0x0f = lo" by (simp add: small)
qed

lemma hex_pairs_canonical:
  "hex_pairs bs = Some out \<Longrightarrow>
     length bs = 2 * length out \<and> hex_encode out = to_ascii_lowercase (of_bytes bs)"
proof (induction bs arbitrary: out rule: hex_pairs.induct)
  case (3 h l r)
  then obtain hi lo t where p: "hex_val h = Some hi" "hex_val l = Some lo" "hex_pairs r = Some t"
    and out: "out = (push_bit 4 hi OR lo) # t"
    by (auto split: option.splits)
  from 3 p have ih: "length r = 2 * length t" "hex_encode t = to_ascii_lowercase (of_bytes r)"
    by auto
  from p have "hi < 16" "lo < 16" "HEX ! unat hi = ascii_lower (char_of_byte h)"
    "HEX ! unat lo = ascii_lower (char_of_byte l)"
    by (auto dest: hex_val_Some)
  then show ?case using ih out
    by (simp add: nibbles_split to_ascii_lowercase_def of_bytes_def del: drop_bit_or)
qed (auto simp: to_ascii_lowercase_def of_bytes_def)

lemma hex_decode16_canonical:
  "hex_decode16 s = Some bs \<Longrightarrow> length bs = 16 \<and> hex_encode bs = to_ascii_lowercase s"
  by (auto simp: hex_decode16_def split: if_splits dest: hex_pairs_canonical)

section \<open>The contract of a hex identifier\<close>

locale hex_id =
  fixes mk :: "bytes \<Rightarrow> 'id"
    and raw :: "'id \<Rightarrow> bytes"
    and to_hex :: "'id \<Rightarrow> string"
    and from_hex :: "string \<Rightarrow> 'id option"
  assumes raw_mk: "raw (mk b) = b"
    and mk_raw: "mk (raw x) = x"
    and to_hex_raw: "to_hex x = hex_encode (raw x)"
    and from_hex_mk: "from_hex s = map_option mk (hex_decode16 s)"
begin

lemma hex_roundtrip: "length (raw x) = 16 \<Longrightarrow> from_hex (to_hex x) = Some x"
  by (simp add: to_hex_raw from_hex_mk hex_decode16_encode mk_raw)

lemma length_to_hex: "length (raw x) = 16 \<Longrightarrow> length (to_hex x) = 32"
  by (simp add: to_hex_raw)

lemma parsed_canonical:
  "from_hex s = Some x \<Longrightarrow> length (raw x) = 16 \<and> to_hex x = to_ascii_lowercase s"
  by (auto simp: from_hex_mk to_hex_raw raw_mk dest: hex_decode16_canonical)

lemma to_hex_inj: "to_hex x = to_hex y \<Longrightarrow> length (raw x) = 16 \<Longrightarrow> length (raw y) = 16 \<Longrightarrow> x = y"
  using hex_roundtrip by (metis option.inject)

lemma wrong_length_rejected: "length s \<noteq> 32 \<Longrightarrow> from_hex s = None"
  by (simp add: from_hex_mk hex_decode16_def)

end

section \<open>The contract of a content-derived identifier\<close>

text \<open>
  An identifier that is the truncated hash of a byte layout \<open>pre\<close> of its content. \<open>canon\<close>
  is what the layout is meant to identify and \<open>ok\<close> the contents the layout is specified
  for. Where the layout is injective on them, two identifiers agree only for the same
  canonical content, unless the hash collides on the two layouts at hand.
\<close>

locale content_id =
  fixes mk :: "bytes \<Rightarrow> 'id"
    and pre :: "'c \<Rightarrow> bytes"
    and ident :: "(bytes \<Rightarrow> bytes) \<Rightarrow> 'c \<Rightarrow> 'id"
    and canon :: "'c \<Rightarrow> 'k"
    and ok :: "'c \<Rightarrow> bool"
  assumes mk_inj: "mk a = mk b \<Longrightarrow> a = b"
    and ident_pre: "ident H c = mk (trunc16 H (pre c))"
    and pre_canon: "ok c \<Longrightarrow> ok d \<Longrightarrow> pre c = pre d \<longleftrightarrow> canon c = canon d"
begin

lemma ident_eq_iff:
  assumes "ok c" "ok d"
  shows "ident H c = ident H d \<longleftrightarrow> canon c = canon d \<or> collides H (pre c) (pre d)"
  using pre_canon [OF assms] by (auto simp: ident_pre collides_def dest: mk_inj)

end

end
