(* ===== verification/Primitives.thy ===== *)
theory Primitives
  imports Rust_Str
begin

text \<open>
  The small value types of the crate: tenant identifiers (\<open>tenant.rs\<close>), monotonic
  versions (\<open>version.rs\<close>), expiry (\<open>time.rs\<close>) and nonces (\<open>nonce.rs\<close>). A newtype
  struct is a \<^theory_text>\<open>datatype\<close> with one constructor; a method on \<open>&mut self\<close> returns
  its result and the new value.
\<close>

section \<open>TenantId\<close>

datatype tenant_id = TenantId (tenant_as_str: string)

definition TenantId_new :: "string \<Rightarrow> string + tenant_id" where
  "TenantId_new s =
     (if s = [] \<or> length s > 64 \<or> CHR ''/'' \<in> set s \<or> CHR 0x00 \<in> set s \<or> s = ''..''
      then Inl ''Invalid tenant ID'' else Inr (TenantId s))"

definition TenantId_fmt :: "tenant_id \<Rightarrow> string" where
  "TenantId_fmt t = tenant_as_str t"

text \<open>What every tenant identifier built by \<open>TenantId::new\<close> satisfies.\<close>

definition tenant_wf :: "tenant_id \<Rightarrow> bool" where
  "tenant_wf t \<longleftrightarrow> tenant_as_str t \<noteq> [] \<and> length (tenant_as_str t) \<le> 64 \<and>
     CHR ''/'' \<notin> set (tenant_as_str t) \<and> CHR 0x00 \<notin> set (tenant_as_str t) \<and>
     tenant_as_str t \<noteq> ''..''"

lemma TenantId_new_Inr: "TenantId_new s = Inr t \<longleftrightarrow> t = TenantId s \<and> tenant_wf t"
  by (auto simp: TenantId_new_def tenant_wf_def)

section \<open>MonotonicVersion\<close>

datatype monotonic_version = MonotonicVersion (version_get: u64)

definition MonotonicVersion_new :: "u64 \<Rightarrow> monotonic_version" where
  "MonotonicVersion_new v = MonotonicVersion v"

definition MonotonicVersion_default :: monotonic_version where
  "MonotonicVersion_default = MonotonicVersion 0"

definition advance :: "monotonic_version \<Rightarrow> u64 \<Rightarrow> (string + unit) \<times> monotonic_version" where
  "advance self new_v =
     (if new_v \<le> version_get self then (Inl ''Version must be strictly monotonic'', self)
      else (Inr (), MonotonicVersion new_v))"

instantiation monotonic_version :: linorder
begin

definition less_eq_monotonic_version :: "monotonic_version \<Rightarrow> monotonic_version \<Rightarrow> bool" where
  "less_eq_monotonic_version a b \<longleftrightarrow> version_get a \<le> version_get b"

definition less_monotonic_version :: "monotonic_version \<Rightarrow> monotonic_version \<Rightarrow> bool" where
  "less_monotonic_version a b \<longleftrightarrow> version_get a < version_get b"

instance
  by standard
    (auto simp: less_eq_monotonic_version_def less_monotonic_version_def monotonic_version.expand)

end

text \<open>\<open>Ord::cmp\<close> of versions is the comparison of the inner integers.\<close>

definition MonotonicVersion_cmp :: "monotonic_version \<Rightarrow> monotonic_version \<Rightarrow> ordering" where
  "MonotonicVersion_cmp a b = cmp (version_get a) (version_get b)"

lemma MonotonicVersion_cmp_order: "MonotonicVersion_cmp a b = cmp a b"
  by (auto simp: MonotonicVersion_cmp_def cmp_def less_monotonic_version_def monotonic_version.expand)

text \<open>A run of calls, each of which may be refused.\<close>

fun advance_all :: "monotonic_version \<Rightarrow> u64 list \<Rightarrow> monotonic_version" where
  "advance_all v [] = v"
| "advance_all v (n # ns) = advance_all (snd (advance v n)) ns"

lemma advance_get: "version_get (snd (advance v n)) = max (version_get v) n"
  by (auto simp: advance_def max_def)

lemma advance_all_max: "version_get (advance_all v ns) = fold max ns (version_get v)"
  by (induction ns arbitrary: v) (simp_all add: advance_get max.commute)

section \<open>Expiry\<close>

record duration =
  dur_secs :: u64
  dur_nanos :: u32

datatype ttl = Ttl duration

record 'a expiring =
  inner :: 'a
  expires_at_unix :: u64

definition is_expired :: "'a expiring \<Rightarrow> u64 \<Rightarrow> bool" where
  "is_expired self now_unix \<longleftrightarrow> now_unix > expires_at_unix self"

section \<open>Nonce\<close>

text \<open>\<open>rand::fill\<close> is a parameter: the bytes the random source gives for a length.\<close>

datatype nonce = Nonce (nonce_as_bytes: bytes)

definition Nonce_generate :: "(nat \<Rightarrow> bytes) \<Rightarrow> nonce" where
  "Nonce_generate fill = Nonce (fill 32)"

definition Nonce_from_bytes :: "bytes \<Rightarrow> nonce" where
  "Nonce_from_bytes b = Nonce b"

section \<open>Properties\<close>

text \<open>After any sequence of \<open>advance\<close> calls, accepted or refused, the version is the
  largest of the initial value and every value proposed: it never goes back and never
  loses an update.\<close>

theorem version_run_is_max:
  "version_get (advance_all v ns) = Max (insert (version_get v) (set ns))"
  by (simp add: advance_all_max Max.set_eq_fold [symmetric])

end
