(* ===== verification/Spiffe_Id.thy ===== *)
theory Spiffe_Id
  imports Primitives
begin

text \<open>
  SPIFFE identities (\<open>spiffe.rs\<close>, first half; \<open>mesh.rs\<close>): identity kinds, the
  identity with its textual form and its parser, the total order, the bytes fed to the
  hasher, workload roles and instance identifiers, mesh addresses.
\<close>

section \<open>Errors and kinds\<close>

datatype svid_error =
    InvalidFormat | InvalidKind | ValidationFailed | Unimplemented | DelegationKeyExpired
  | TargetSvidMismatch | OrdinalMismatch | ValidityOverrun

datatype role_error = EmbeddedNul

datatype id_kind = Sa | Node | Router | Gateway | Ctrl | Control | Operator

fun IdKind_fmt :: "id_kind \<Rightarrow> string" where
  "IdKind_fmt Sa = ''sa''"
| "IdKind_fmt Node = ''node''"
| "IdKind_fmt Router = ''router''"
| "IdKind_fmt Gateway = ''gateway''"
| "IdKind_fmt Ctrl = ''ctrl''"
| "IdKind_fmt Control = ''control''"
| "IdKind_fmt Operator = ''operator''"

definition IdKind_from_str :: "string \<Rightarrow> svid_error + id_kind" where
  "IdKind_from_str s =
     (if s = ''sa'' then Inr Sa
      else if s = ''node'' then Inr Node
      else if s = ''router'' then Inr Router
      else if s = ''gateway'' then Inr Gateway
      else if s = ''ctrl'' then Inr Ctrl
      else if s = ''control'' then Inr Control
      else if s = ''operator'' then Inr Operator
      else Inl InvalidKind)"

fun kind_to_bytes :: "id_kind \<Rightarrow> bytes" where
  "kind_to_bytes Sa = as_bytes ''sa''"
| "kind_to_bytes Node = as_bytes ''node''"
| "kind_to_bytes Router = as_bytes ''router''"
| "kind_to_bytes Gateway = as_bytes ''gateway''"
| "kind_to_bytes Ctrl = as_bytes ''ctrl''"
| "kind_to_bytes Control = as_bytes ''control''"
| "kind_to_bytes Operator = as_bytes ''operator''"

text \<open>The derived \<open>Ord\<close>: the order in which the variants are declared.\<close>

fun id_kind_index :: "id_kind \<Rightarrow> nat" where
  "id_kind_index Sa = 0"
| "id_kind_index Node = 1"
| "id_kind_index Router = 2"
| "id_kind_index Gateway = 3"
| "id_kind_index Ctrl = 4"
| "id_kind_index Control = 5"
| "id_kind_index Operator = 6"

lemma id_kind_index_inj [simp]: "id_kind_index a = id_kind_index b \<longleftrightarrow> a = b"
  by (cases a; cases b) simp_all

instantiation id_kind :: linorder
begin

definition less_eq_id_kind :: "id_kind \<Rightarrow> id_kind \<Rightarrow> bool" where
  "less_eq_id_kind a b \<longleftrightarrow> id_kind_index a \<le> id_kind_index b"

definition less_id_kind :: "id_kind \<Rightarrow> id_kind \<Rightarrow> bool" where
  "less_id_kind a b \<longleftrightarrow> id_kind_index a < id_kind_index b"

instance
proof
  fix a b :: id_kind
  show "a = b" if "a \<le> b" "b \<le> a"
    using that id_kind_index_inj [of a b] by (simp add: less_eq_id_kind_def)
qed (auto simp: less_eq_id_kind_def less_id_kind_def)

end

section \<open>SpiffeId\<close>

record spiffe_id =
  si_trust_domain :: string
  si_tenant :: string
  si_kind :: id_kind
  si_name :: string

definition SpiffeId_new :: "string \<Rightarrow> string \<Rightarrow> id_kind \<Rightarrow> string \<Rightarrow> spiffe_id" where
  "SpiffeId_new td t k n =
     \<lparr>si_trust_domain = td, si_tenant = t, si_kind = k, si_name = n\<rparr>"

text \<open>The hasher is its input so far: \<open>update\<close> appends.\<close>

definition write_uri_bytes :: "spiffe_id \<Rightarrow> bytes \<Rightarrow> bytes" where
  "write_uri_bytes self hasher =
     hasher @ as_bytes ''spiffe://'' @ as_bytes (si_trust_domain self) @ as_bytes ''/ns/'' @
     as_bytes (si_tenant self) @ as_bytes ''/'' @ kind_to_bytes (si_kind self) @ as_bytes ''/'' @
     as_bytes (si_name self)"

definition SpiffeId_cmp :: "spiffe_id \<Rightarrow> spiffe_id \<Rightarrow> ordering" where
  "SpiffeId_cmp self other =
     then_with (then_with (then_with
       (cmp (si_trust_domain self) (si_trust_domain other))
       (cmp (si_tenant self) (si_tenant other)))
       (cmp (si_kind self) (si_kind other)))
       (cmp (si_name self) (si_name other))"

definition SpiffeId_to_string :: "spiffe_id \<Rightarrow> string" where
  "SpiffeId_to_string self =
     ''spiffe://'' @ si_trust_domain self @ ''/ns/'' @ si_tenant self @ ''/'' @
     IdKind_fmt (si_kind self) @ ''/'' @ si_name self"

definition SpiffeId_from_str :: "string \<Rightarrow> svid_error + spiffe_id" where
  "SpiffeId_from_str s =
     rbind (ok_or InvalidFormat (strip_prefix ''spiffe://'' s)) (\<lambda>rest.
     rbind (ok_or InvalidFormat (split_once ''/ns/'' rest)) (\<lambda>(td, path).
       case splitn 3 (CHR ''/'') path of
         [t, k, n] \<Rightarrow> rbind (IdKind_from_str k) (\<lambda>kind.
           Inr \<lparr>si_trust_domain = td, si_tenant = t, si_kind = kind, si_name = n\<rparr>)
       | _ \<Rightarrow> Inl InvalidFormat))"

text \<open>Serde writes the textual form and reads it back through the parser.\<close>

definition SpiffeId_serialize :: "spiffe_id \<Rightarrow> string" where
  "SpiffeId_serialize self = SpiffeId_to_string self"

definition SpiffeId_deserialize :: "string \<Rightarrow> spiffe_id option" where
  "SpiffeId_deserialize s = (case SpiffeId_from_str s of Inl _ \<Rightarrow> None | Inr i \<Rightarrow> Some i)"

text \<open>
  The identities the parser can produce: the tenant has no slash, and the first
  \<open>/ns/\<close> of the text is the one after the trust domain.
\<close>

definition spiffe_wf :: "spiffe_id \<Rightarrow> bool" where
  "spiffe_wf i \<longleftrightarrow> CHR ''/'' \<notin> set (si_tenant i) \<and>
     split_once ''/ns/'' (si_trust_domain i @ ''/ns/'') = Some (si_trust_domain i, [])"

section \<open>Roles and instance identifiers\<close>

datatype workload_role = WorkloadRole (role_as_str: string)

definition WorkloadRole_try_from :: "string \<Rightarrow> role_error + workload_role" where
  "WorkloadRole_try_from value =
     (if CHR 0x00 \<in> set value then Inl EmbeddedNul else Inr (WorkloadRole value))"

definition WorkloadRole_fmt :: "workload_role \<Rightarrow> string" where
  "WorkloadRole_fmt self = role_as_str self"

definition role_wf :: "workload_role \<Rightarrow> bool" where
  "role_wf r \<longleftrightarrow> CHR 0x00 \<notin> set (role_as_str r)"

datatype workload_id = WorkloadId (workload_id_as_str: string)

definition WorkloadId_new :: "string \<Rightarrow> workload_id" where
  "WorkloadId_new s = WorkloadId s"

definition WorkloadId_fmt :: "workload_id \<Rightarrow> string" where
  "WorkloadId_fmt self = workload_id_as_str self"

datatype pod_id = PodId (pod_id_as_str: string)

definition PodId_new :: "string \<Rightarrow> pod_id" where
  "PodId_new s = PodId s"

definition PodId_fmt :: "pod_id \<Rightarrow> string" where
  "PodId_fmt self = pod_id_as_str self"

section \<open>Mesh addresses\<close>

record mesh_address =
  ma_id :: spiffe_id
  ma_role :: "workload_role option"

datatype route_hint = Local | Agent spiffe_id

section \<open>Lemmas\<close>

lemma WorkloadRole_try_from_Inr: "WorkloadRole_try_from s = Inr r \<longleftrightarrow> r = WorkloadRole s \<and> role_wf r"
  by (auto simp: WorkloadRole_try_from_def role_wf_def)

lemma kind_to_bytes_fmt: "kind_to_bytes k = as_bytes (IdKind_fmt k)"
  by (cases k) simp_all

lemma IdKind_from_str_fmt [simp]: "IdKind_from_str (IdKind_fmt k) = Inr k"
  by (cases k) (simp_all add: IdKind_from_str_def)

lemma if_InrD: "(if P then Inr a else X) = Inr k \<Longrightarrow> P \<and> a = k \<or> X = Inr k"
  by (simp split: if_splits)

lemma IdKind_from_str_Inr: "IdKind_from_str s = Inr k \<longleftrightarrow> s = IdKind_fmt k"
proof
  assume "IdKind_from_str s = Inr k"
  then show "s = IdKind_fmt k"
    unfolding IdKind_from_str_def by (elim if_InrD [elim_format] disjE conjE) simp_all
qed simp

lemma IdKind_fmt_inj [simp]: "IdKind_fmt a = IdKind_fmt b \<longleftrightarrow> a = b"
  by (metis IdKind_from_str_fmt sum.inject(2))

lemma slash_notin_kind [simp]: "CHR ''/'' \<notin> set (IdKind_fmt k)"
  by (cases k) simp_all

lemma nul_notin_kind [simp]: "CHR 0x00 \<notin> set (IdKind_fmt k)"
  by (cases k) simp_all

lemma splitn3_Cons3:
  "splitn 3 c p = [t, k, n] \<longleftrightarrow> c \<notin> set t \<and> c \<notin> set k \<and> p = t @ c # k @ c # n"
proof
  assume "splitn 3 c p = [t, k, n]"
  then obtain q where "split_once [c] p = Some (t, q)" "split_once [c] q = Some (k, n)"
    by (auto simp: numeral_3_eq_3 split: option.splits)
  then show "c \<notin> set t \<and> c \<notin> set k \<and> p = t @ c # k @ c # n"
    by (simp add: split_once_char_Some)
qed (simp add: numeral_3_eq_3 split_once_char)

lemma splitn3_cases: "(\<exists>t k n. splitn 3 c p = [t, k, n]) \<or> length (splitn 3 c p) < 3"
  by (auto simp: numeral_3_eq_3 split: option.splits)

lemma split_once_pat_append:
  "split_once pat (a @ pat @ b) = Some (a, b) \<longleftrightarrow> split_once pat (a @ pat) = Some (a, [])"
  if ne: "pat \<noteq> []" for pat :: "'a list"
proof (induction a)
  case Nil
  obtain c p where p: "pat = c # p" using ne by (cases pat) auto
  have "split_once pat (pat @ b) = Some ([], b)" "split_once pat (pat @ []) = Some ([], [])"
    unfolding p append_Cons split_once.simps strip_prefix_Cons_append by simp_all
  then show ?case by simp
next
  case (Cons x a)
  have "strip_prefix pat (x # a @ pat @ b) = None \<longleftrightarrow> strip_prefix pat (x # a @ pat) = None"
  proof -
    have "take (length pat) ((x # a @ pat) @ b) = take (length pat) (x # a @ pat)"
      by (subst take_append) simp
    then show ?thesis by (simp add: strip_prefix_def)
  qed
  then show ?case using Cons by (auto split: option.splits)
qed

lemma split_once_trust_domain: "CHR ''/'' \<notin> set td \<Longrightarrow> split_once ''/ns/'' (td @ ''/ns/'') = Some (td, [])"
  using split_once_first [of "CHR ''/''" td "''ns/''" "[]"] by simp

lemma spiffe_wfI: "CHR ''/'' \<notin> set (si_trust_domain i) \<Longrightarrow> CHR ''/'' \<notin> set (si_tenant i) \<Longrightarrow> spiffe_wf i"
  by (simp add: spiffe_wf_def split_once_trust_domain)

text \<open>The parser accepts exactly the printed forms of well-formed identities.\<close>

lemma SpiffeId_from_str_iff:
  "SpiffeId_from_str s = Inr i \<longleftrightarrow> s = SpiffeId_to_string i \<and> spiffe_wf i"
proof
  assume "SpiffeId_from_str s = Inr i"
  then obtain rest q where "strip_prefix ''spiffe://'' s = Some rest"
    and q: "split_once ''/ns/'' rest = Some q"
    and r: "(case q of (td, path) \<Rightarrow> case splitn 3 (CHR ''/'') path of
        [t, k, n] \<Rightarrow> rbind (IdKind_from_str k) (\<lambda>kind.
          Inr \<lparr>si_trust_domain = td, si_tenant = t, si_kind = kind, si_name = n\<rparr>)
      | _ \<Rightarrow> Inl InvalidFormat) = Inr i"
    unfolding SpiffeId_from_str_def by (elim rbind_InrE) (unfold ok_or_eq_Inr)
  then have s: "s = ''spiffe://'' @ rest" by (simp only: strip_prefix_Some)
  obtain td path where qq: "q = (td, path)" by (cases q)
  note ns = q [unfolded qq] and r = r [unfolded qq prod.case]
  from r obtain t k n where sp: "splitn 3 (CHR ''/'') path = [t, k, n]"
    and k: "IdKind_from_str k = Inr (si_kind i)"
    and i: "i = \<lparr>si_trust_domain = td, si_tenant = t, si_kind = si_kind i, si_name = n\<rparr>"
    by (auto simp: rbind_eq_Inr split: list.splits)
  from ns have rest: "rest = td @ ''/ns/'' @ path" by (rule split_once_Some_append)
  with ns have td: "split_once ''/ns/'' (td @ ''/ns/'') = Some (td, [])"
    using split_once_pat_append [of "''/ns/''" td path] by simp
  from i have f: "si_trust_domain i = td" "si_tenant i = t" "si_name i = n"
    by (metis spiffe_id.select_convs)+
  from sp have t: "CHR ''/'' \<notin> set t" and path: "path = t @ CHR ''/'' # k @ CHR ''/'' # n"
    unfolding splitn3_Cons3 by blast+
  from k have k: "k = IdKind_fmt (si_kind i)" unfolding IdKind_from_str_Inr .
  show "s = SpiffeId_to_string i \<and> spiffe_wf i"
    unfolding SpiffeId_to_string_def spiffe_wf_def f s rest path k using t td by simp
next
  assume a: "s = SpiffeId_to_string i \<and> spiffe_wf i"
  let ?path = "si_tenant i @ CHR ''/'' # IdKind_fmt (si_kind i) @ CHR ''/'' # si_name i"
  have s: "s = ''spiffe://'' @ si_trust_domain i @ ''/ns/'' @ ?path"
    using a by (simp add: SpiffeId_to_string_def)
  have ns: "split_once ''/ns/'' (si_trust_domain i @ ''/ns/'' @ ?path) =
      Some (si_trust_domain i, ?path)"
    using a unfolding spiffe_wf_def by (subst split_once_pat_append) simp_all
  have sp: "splitn 3 (CHR ''/'') ?path = [si_tenant i, IdKind_fmt (si_kind i), si_name i]"
    using a by (simp add: splitn3_Cons3 spiffe_wf_def)
  show "SpiffeId_from_str s = Inr i"
    unfolding SpiffeId_from_str_def s strip_prefix_append ok_or_simps rbind_Inr ns prod.case sp
      list.case IdKind_from_str_fmt
    by simp
qed

lemma to_string_inj:
  assumes "SpiffeId_to_string i = SpiffeId_to_string j" "spiffe_wf i" "spiffe_wf j"
  shows "i = j"
  using assms SpiffeId_from_str_iff by (metis sum.inject(2))

lemma write_uri_bytes_to_string: "write_uri_bytes i h = h @ as_bytes (SpiffeId_to_string i)"
  by (simp only: write_uri_bytes_def SpiffeId_to_string_def kind_to_bytes_fmt as_bytes_append
      append_assoc)

section \<open>Properties\<close>

text \<open>C15. The parser of SPIFFE identities inverts the printer exactly: a text parses to an
  identity if and only if it is the printed form of that identity and the identity is
  well formed (slash-free tenant, no earlier \<open>/ns/\<close>). Parsing is therefore injective and
  printing a parsed identity gives back the text.\<close>

theorem spiffe_parse_exact:
  "SpiffeId_from_str s = Inr i \<longleftrightarrow>
     s = SpiffeId_to_string i \<and> CHR ''/'' \<notin> set (si_tenant i) \<and>
     split_once ''/ns/'' (si_trust_domain i @ ''/ns/'') = Some (si_trust_domain i, [])"
  unfolding SpiffeId_from_str_iff spiffe_wf_def by blast

text \<open>Printing then parsing gives the identity back whenever its trust domain and tenant
  have no slash; kind and name are unrestricted.\<close>

theorem spiffe_print_parse:
  assumes "CHR ''/'' \<notin> set (si_trust_domain i)" "CHR ''/'' \<notin> set (si_tenant i)"
  shows "SpiffeId_from_str (SpiffeId_to_string i) = Inr i"
  using assms by (simp add: SpiffeId_from_str_iff spiffe_wfI)

theorem spiffe_print_parse_witness:
  "SpiffeId_from_str (SpiffeId_to_string (SpiffeId_new ''fleet.example'' ''acme'' Sa ''db/x'')) =
     Inr (SpiffeId_new ''fleet.example'' ''acme'' Sa ''db/x'')"
  by (rule spiffe_print_parse) (simp_all add: SpiffeId_new_def)

text \<open>\<open>SpiffeId\<close>'s \<open>Ord\<close> is a total order that agrees with equality: comparison is
  \<open>Equal\<close> only for equal identities, exchanging the arguments exchanges less and greater,
  and less is transitive.\<close>

theorem spiffe_cmp_total_order:
  "(SpiffeId_cmp a b = Ord_Equal \<longleftrightarrow> a = b) \<and>
   (SpiffeId_cmp a b = Ord_Less \<longleftrightarrow> SpiffeId_cmp b a = Ord_Greater) \<and>
   (SpiffeId_cmp a b = Ord_Less \<longrightarrow> SpiffeId_cmp b c = Ord_Less \<longrightarrow> SpiffeId_cmp a c = Ord_Less)"
  by (auto simp: SpiffeId_cmp_def)

theorem spiffe_cmp_total_order_witness:
  "SpiffeId_cmp (SpiffeId_new ''a'' ''t'' Sa ''n'') (SpiffeId_new ''a'' ''t'' Router ''b'') = Ord_Less"
  using spiffe_cmp_total_order
    [of "SpiffeId_new ''a'' ''t'' Sa ''n''" "SpiffeId_new ''a'' ''t'' Node ''a''"
        "SpiffeId_new ''a'' ''t'' Router ''b''"]
  by (simp add: SpiffeId_cmp_def SpiffeId_new_def less_id_kind_def)

text \<open>The bytes streamed into the hasher are exactly the bytes of the textual form, so
  the allocation-free path and \<open>to_string\<close> agree.\<close>

theorem uri_bytes_are_display:
  "write_uri_bytes i hasher = hasher @ as_bytes (SpiffeId_to_string i)"
  by (rule write_uri_bytes_to_string)

end
