(* ===== verification/Der_Ext.thy ===== *)
theory Der_Ext
  imports Spiffe_Id
begin

text \<open>
  The X.509 extensions of an SVID (\<open>spiffe.rs\<close>): the object identifiers, the writers
  (\<open>role_extension\<close>, \<open>degraded_extension\<close>, \<open>ordinal_extension\<close>, compiled with the
  \<open>ca\<close> feature), the DER helpers, the scan for an object identifier in a certificate and
  the three readers. The locale \<open>ext_codec\<close> states what a writer and a reader of one
  extension promise each other; it is interpreted for the role, the degraded marker and
  the ordinal. Slices are byte lists; an index the source guards is guarded here.
\<close>

section \<open>Object identifiers\<close>

definition FLEETOS_IANA_PEN :: nat where
  "FLEETOS_IANA_PEN = 66561"

definition FLEETOS_ROLE_OID_BYTES :: bytes where
  "FLEETOS_ROLE_OID_BYTES = [0x2B, 0x06, 0x01, 0x04, 0x01, 0x84, 0x88, 0x01, 0x01, 0x01]"

definition FLEETOS_DEGRADED_OID_BYTES :: bytes where
  "FLEETOS_DEGRADED_OID_BYTES = [0x2B, 0x06, 0x01, 0x04, 0x01, 0x84, 0x88, 0x01, 0x01, 0x02]"

definition FLEETOS_ORDINAL_OID_BYTES :: bytes where
  "FLEETOS_ORDINAL_OID_BYTES = [0x2B, 0x06, 0x01, 0x04, 0x01, 0x84, 0x88, 0x01, 0x01, 0x03]"

definition FLEETOS_ROLE_OID_ARC :: "nat list" where
  "FLEETOS_ROLE_OID_ARC = [1, 3, 6, 1, 4, 1, FLEETOS_IANA_PEN, 1, 1]"

definition FLEETOS_DEGRADED_OID_ARC :: "nat list" where
  "FLEETOS_DEGRADED_OID_ARC = [1, 3, 6, 1, 4, 1, FLEETOS_IANA_PEN, 1, 2]"

definition FLEETOS_ORDINAL_OID_ARC :: "nat list" where
  "FLEETOS_ORDINAL_OID_ARC = [1, 3, 6, 1, 4, 1, FLEETOS_IANA_PEN, 1, 3]"

text \<open>The DER content of an object identifier (X.690, 8.19), to compare the two spellings.\<close>

fun base128 :: "nat \<Rightarrow> bytes" where
  "base128 n =
     (if n < 128 then [word_of_nat n]
      else map (\<lambda>b. b OR 0x80) (base128 (n div 128)) @ [word_of_nat (n mod 128)])"

declare base128.simps [simp del]

fun oid_der :: "nat list \<Rightarrow> bytes" where
  "oid_der (a # b # rest) = word_of_nat (40 * a + b) # concat (map base128 rest)"
| "oid_der _ = []"

section \<open>Writers\<close>

record custom_extension =
  ext_oid :: "nat list"
  ext_value :: bytes
  ext_critical :: bool

definition der_len_prefix :: "nat \<Rightarrow> bytes" where
  "der_len_prefix len =
     (if len < 0x80 then [word_of_nat len]
      else if len \<le> 0xFF then [0x81, word_of_nat len]
      else [0x82, word_of_nat (drop_bit 8 len), word_of_nat (len AND 0xFF)])"

definition role_extension :: "string \<Rightarrow> custom_extension" where
  "role_extension role =
     (let bytes = as_bytes role
      in \<lparr>ext_oid = FLEETOS_ROLE_OID_ARC,
          ext_value = 0x0C # der_len_prefix (length bytes) @ bytes,
          ext_critical = False\<rparr>)"

definition degraded_extension :: "bool \<Rightarrow> custom_extension" where
  "degraded_extension is_degraded =
     \<lparr>ext_oid = FLEETOS_DEGRADED_OID_ARC,
      ext_value = (if is_degraded then [0x01, 0x01, 0xFF] else [0x01, 0x01, 0x00]),
      ext_critical = False\<rparr>"

text \<open>The loop \<open>while start < 3 && bytes[start] == 0 && bytes[start + 1] & 0x80 == 0\<close>.\<close>

function ordinal_start :: "bytes \<Rightarrow> nat \<Rightarrow> nat" where
  "ordinal_start bs start =
     (if start < 3 \<and> bs ! start = 0 \<and> (bs ! (start + 1)) AND 0x80 = 0
      then ordinal_start bs (start + 1) else start)"
  by pat_completeness auto
termination
  by (relation "measure (\<lambda>(bs, start). 3 - start)") auto

declare ordinal_start.simps [simp del]

definition ordinal_extension :: "u32 \<Rightarrow> custom_extension" where
  "ordinal_extension ordinal =
     (let bytes = be_bytes 4 ordinal;
          significant = drop (ordinal_start bytes 0) bytes;
          pad = (significant ! 0) AND 0x80 \<noteq> 0;
          len = length significant + (if pad then 1 else 0)
      in \<lparr>ext_oid = FLEETOS_ORDINAL_OID_ARC,
          ext_value = 0x02 # word_of_nat len # (if pad then [0x00] else []) @ significant,
          ext_critical = False\<rparr>)"

section \<open>DER helpers\<close>

text \<open>The loop \<open>len = (len << 8) | bytes[i]\<close> over \<open>usize\<close> is \<open>be_nat\<close>.\<close>

definition parse_der_length :: "bytes \<Rightarrow> (nat \<times> nat) option" where
  "parse_der_length bs =
     (case bs of [] \<Rightarrow> None
      | b # rest \<Rightarrow>
          if b < 0x80 then Some (unat b, 1)
          else (let n = unat (b AND 0x7f)
                in if n = 0 \<or> n > 4 \<or> length bs < 1 + n then None
                   else Some (be_nat (take n rest), 1 + n)))"

definition parse_der_tlv :: "bytes \<Rightarrow> u8 \<Rightarrow> bytes option" where
  "parse_der_tlv bs expected_tag =
     (case bs of [] \<Rightarrow> None
      | t # rest \<Rightarrow>
          if t \<noteq> expected_tag then None
          else (case parse_der_length rest of None \<Rightarrow> None
                | Some (len, consumed) \<Rightarrow>
                    if 1 + consumed + len > length bs then None
                    else Some (take len (drop (1 + consumed) bs))))"

section \<open>The scan for an extension\<close>

text \<open>
  One round of the loop at position \<open>i\<close>: \<open>Some\<close> is the early return, \<open>None\<close> goes on
  to the next position (both \<open>continue\<close> and falling through).
\<close>

definition oid_ext_at :: "bytes \<Rightarrow> bytes \<Rightarrow> nat \<Rightarrow> bytes option" where
  "oid_ext_at cert_der oid i =
     (if take (length oid) (drop i cert_der) \<noteq> oid then None
      else
        (let j = i + length oid
         in case (if j < length cert_der \<and> cert_der ! j = 0x01
                  then (case parse_der_length (drop (j + 1) cert_der) of
                          Some (len, consumed) \<Rightarrow> Some (j + (1 + consumed + len))
                        | None \<Rightarrow> None)
                  else Some j) of
              None \<Rightarrow> None
            | Some j \<Rightarrow>
                if j < length cert_der \<and> cert_der ! j = 0x04
                then (case parse_der_length (drop (j + 1) cert_der) of
                        Some (len, consumed) \<Rightarrow>
                          (let val_start = j + 1 + consumed
                           in if val_start + len \<le> length cert_der
                              then Some (take len (drop val_start cert_der)) else None)
                      | None \<Rightarrow> None)
                else None))"

fun first_some :: "('a \<Rightarrow> 'b option) \<Rightarrow> 'a list \<Rightarrow> 'b option" where
  "first_some f [] = None"
| "first_some f (x # xs) = (case f x of None \<Rightarrow> first_some f xs | Some y \<Rightarrow> Some y)"

definition find_oid_extension :: "bytes \<Rightarrow> bytes \<Rightarrow> bytes option" where
  "find_oid_extension cert_der oid =
     (if length cert_der < length oid then None
      else first_some (oid_ext_at cert_der oid) [0..<length cert_der - length oid + 1])"

section \<open>Readers\<close>

definition role_of_value :: "bytes \<Rightarrow> workload_role option" where
  "role_of_value val =
     (case (case parse_der_tlv val 0x0C of None \<Rightarrow> parse_der_tlv val 0x13 | Some b \<Rightarrow> Some b) of
        None \<Rightarrow> None
      | Some string_bytes \<Rightarrow>
          (case from_utf8 string_bytes of
             None \<Rightarrow> None
           | Some role_str \<Rightarrow>
               (case WorkloadRole_try_from role_str of Inr role \<Rightarrow> Some role | Inl _ \<Rightarrow> None)))"

definition extract_role :: "bytes \<Rightarrow> workload_role option" where
  "extract_role cert_der =
     Option.bind (find_oid_extension cert_der FLEETOS_ROLE_OID_BYTES) role_of_value"

definition ordinal_of_value :: "bytes \<Rightarrow> u32 option" where
  "ordinal_of_value val =
     (case parse_der_tlv val 0x02 of None \<Rightarrow> None
      | Some int_bytes \<Rightarrow> if length int_bytes > 4 then None else Some (from_be int_bytes))"

definition extract_ordinal :: "bytes \<Rightarrow> u32 option" where
  "extract_ordinal cert_der =
     Option.bind (find_oid_extension cert_der FLEETOS_ORDINAL_OID_BYTES) ordinal_of_value"

definition degraded_of_value :: "bytes \<Rightarrow> bool" where
  "degraded_of_value val =
     (case parse_der_tlv val 0x01 of None \<Rightarrow> False
      | Some bool_bytes \<Rightarrow> bool_bytes \<noteq> [] \<and> hd bool_bytes \<noteq> 0)"

definition is_degraded :: "bytes \<Rightarrow> bool" where
  "is_degraded cert_der =
     (case find_oid_extension cert_der FLEETOS_DEGRADED_OID_BYTES of None \<Rightarrow> False
      | Some val \<Rightarrow> degraded_of_value val)"

section \<open>Lengths and tag-length-value triples\<close>

lemma der_len_short: "n < 128 \<Longrightarrow> der_len_prefix n = [word_of_nat n]"
  by (simp add: der_len_prefix_def)

lemma unat_small: "n < 256 \<Longrightarrow> unat (word_of_nat n :: u8) = n"
  by (simp add: unat_of_nat)

lemma word_of_nat_less_128: "n < 128 \<Longrightarrow> (word_of_nat n :: u8) < 0x80"
  by (simp add: word_less_nat_alt unat_small)

lemma parse_der_length_prefix:
  assumes "n < 65536"
  shows "parse_der_length (der_len_prefix n @ r) = Some (n, length (der_len_prefix n))"
proof -
  have "take_bit 8 n = n AND 255" by (simp only: take_bit_eq_mask mask_eq_exp_minus_1) simp
  then have "n AND 255 = n mod 256" by (simp add: take_bit_eq_mod)
  then show ?thesis using assms
    by (auto simp: der_len_prefix_def parse_der_length_def word_of_nat_less_128 unat_small
        drop_bit_eq_div)
qed

lemma length_der_len_prefix: "0 < length (der_len_prefix n)" "length (der_len_prefix n) \<le> 3"
  by (auto simp: der_len_prefix_def)

lemma parse_der_tlv_prefix:
  assumes "length v < 65536"
  shows "parse_der_tlv (t # der_len_prefix (length v) @ v @ r) t = Some v"
  using parse_der_length_prefix [OF assms, of "v @ r"] by (simp add: parse_der_tlv_def)

lemma parse_der_tlv_exact:
  "length v < 65536 \<Longrightarrow> parse_der_tlv (t # der_len_prefix (length v) @ v) t = Some v"
  using parse_der_tlv_prefix [of v t "[]"] by simp

lemma parse_der_tlv_byte:
  "length v < 128 \<Longrightarrow> parse_der_tlv (t # word_of_nat (length v) # v) t = Some v"
  using parse_der_tlv_exact [of v t] by (simp add: der_len_short)

section \<open>An extension inside a certificate\<close>

text \<open>
  RFC 5280 encodes a non-critical extension as its object identifier followed by an OCTET
  STRING with the value: \<open>ext_tail\<close> is that encoding from the identifier's content on.
\<close>

definition ext_tail :: "bytes \<Rightarrow> bytes \<Rightarrow> bytes" where
  "ext_tail oid v = oid @ 0x04 # der_len_prefix (length v) @ v"

definition no_earlier_hit :: "bytes \<Rightarrow> bytes \<Rightarrow> bytes \<Rightarrow> bool" where
  "no_earlier_hit oid pre rest \<longleftrightarrow> list_all (\<lambda>i. oid_ext_at (pre @ rest) oid i = None) [0..<length pre]"

lemma first_some_upt:
  "k < n \<Longrightarrow> \<forall>i < k. f i = None \<Longrightarrow> f k = Some v \<Longrightarrow> first_some f [0..<n] = Some v"
proof -
  assume k: "k < n" "\<forall>i < k. f i = None" "f k = Some v"
  have app: "first_some f (xs @ ys) = first_some f ys" if "\<forall>x \<in> set xs. f x = None" for xs ys
    using that by (induction xs) auto
  have "[0..<n] = [0..<k] @ k # [Suc k..<n]"
    using k(1) by (metis less_imp_le_nat upt_add_eq_append le0 le_add_diff_inverse upt_conv_Cons add_0)
  then show ?thesis using k app by simp
qed

lemma oid_ext_at_intro:
  assumes "take (length oid) (drop i c) = oid" "j = i + length oid" "j < length c" "c ! j = 0x04"
    "parse_der_length (drop (j + 1) c) = Some (len, k)" "j + 1 + k + len \<le> length c"
    "take len (drop (j + 1 + k) c) = v"
  shows "oid_ext_at c oid i = Some v"
  using assms by (simp add: oid_ext_at_def)

lemma oid_ext_at_hit:
  assumes "length v < 65536"
  shows "oid_ext_at (pre @ ext_tail oid v @ post) oid (length pre) = Some v"
proof -
  let ?c = "pre @ ext_tail oid v @ post" and ?j = "length pre + length oid"
  have split: "?c = (pre @ oid) @ 0x04 # der_len_prefix (length v) @ v @ post"
    by (simp add: ext_tail_def)
  show ?thesis
  proof (rule oid_ext_at_intro)
    show "take (length oid) (drop (length pre) ?c) = oid" by (simp add: ext_tail_def)
    show "?j < length ?c" "?c ! ?j = 0x04" unfolding split by (simp_all add: nth_append)
    show "parse_der_length (drop (?j + 1) ?c) = Some (length v, length (der_len_prefix (length v)))"
      using parse_der_length_prefix [OF assms, of "v @ post"] unfolding split by simp
    show "take (length v) (drop (?j + 1 + length (der_len_prefix (length v))) ?c) = v"
      "?j + 1 + length (der_len_prefix (length v)) + length v \<le> length ?c"
      unfolding split by simp_all
  qed simp
qed

lemma find_oid_extension_hit:
  assumes "length v < 65536" "no_earlier_hit oid pre (ext_tail oid v @ post)"
  shows "find_oid_extension (pre @ ext_tail oid v @ post) oid = Some v"
proof -
  let ?c = "pre @ ext_tail oid v @ post"
  have "first_some (oid_ext_at ?c oid) [0..<length ?c - length oid + 1] = Some v"
  proof (rule first_some_upt)
    show "length pre < length ?c - length oid + 1" by (simp add: ext_tail_def)
    show "\<forall>i < length pre. oid_ext_at ?c oid i = None"
      using assms(2) by (simp add: no_earlier_hit_def list_all_iff)
    show "oid_ext_at ?c oid (length pre) = Some v" by (rule oid_ext_at_hit [OF assms(1)])
  qed
  moreover have "\<not> length ?c < length oid" by (simp add: ext_tail_def)
  ultimately show ?thesis by (simp only: find_oid_extension_def if_False)
qed

section \<open>Writer and reader contracts\<close>

locale ext_codec =
  fixes oid :: bytes
    and write_val :: "'a \<Rightarrow> bytes"
    and read_val :: "bytes \<Rightarrow> 'b"
    and ok :: "'a \<Rightarrow> bool"
    and img :: "'a \<Rightarrow> 'b"
  assumes write_small: "ok a \<Longrightarrow> length (write_val a) < 65536"
    and read_write: "ok a \<Longrightarrow> read_val (write_val a) = img a"
begin

lemma reads_back:
  assumes "ok a" "no_earlier_hit oid pre (ext_tail oid (write_val a) @ post)"
  shows "map_option read_val (find_oid_extension (pre @ ext_tail oid (write_val a) @ post) oid)
    = Some (img a)"
  using find_oid_extension_hit [OF write_small [OF assms(1)] assms(2)] assms(1)
  by (simp add: read_write)

text \<open>What follows the first hit has no influence on what is read.\<close>

lemma first_hit_wins:
  assumes "ok a" "no_earlier_hit oid pre (ext_tail oid (write_val a) @ mid @ ext_tail oid w @ post)"
  shows "map_option read_val
      (find_oid_extension (pre @ ext_tail oid (write_val a) @ mid @ ext_tail oid w @ post) oid)
    = Some (img a)"
  using reads_back [OF assms(1), of pre "mid @ ext_tail oid w @ post"] assms(2) by simp

end

definition role_ok :: "string \<Rightarrow> bool" where
  "role_ok r \<longleftrightarrow> is_rust_str r \<and> CHR 0x00 \<notin> set r \<and> length r < 65000"

interpretation role_ext: ext_codec FLEETOS_ROLE_OID_BYTES "\<lambda>r. ext_value (role_extension r)"
  role_of_value role_ok "\<lambda>r. Some (WorkloadRole r)"
proof unfold_locales
  fix r assume "role_ok r"
  then have r: "is_rust_str r" "CHR 0x00 \<notin> set r" "length r < 65000"
    by (simp_all add: role_ok_def)
  then show "length (ext_value (role_extension r)) < 65536"
    using length_der_len_prefix [of "length r"] by (simp add: role_extension_def)
  have "parse_der_tlv (0x0C # der_len_prefix (length (as_bytes r)) @ as_bytes r) 0x0C =
      Some (as_bytes r)"
    using r by (intro parse_der_tlv_exact) simp
  moreover have "from_utf8 (as_bytes r) = Some r" using r by simp
  ultimately show "role_of_value (ext_value (role_extension r)) = Some (WorkloadRole r)"
    using r by (simp add: role_extension_def role_of_value_def WorkloadRole_try_from_def)
qed

interpretation degraded_ext: ext_codec FLEETOS_DEGRADED_OID_BYTES
  "\<lambda>b. ext_value (degraded_extension b)" degraded_of_value "\<lambda>_. True" "\<lambda>b. b"
proof unfold_locales
  fix b
  show "length (ext_value (degraded_extension b)) < 65536"
    by (simp add: degraded_extension_def)
  show "degraded_of_value (ext_value (degraded_extension b)) = b"
    using parse_der_tlv_byte [of "[if b then 0xFF else 0]" 1]
    by (cases b) (simp_all add: degraded_extension_def degraded_of_value_def)
qed

subsection \<open>The ordinal\<close>

lemma from_be_Cons0 [simp]: "from_be (0 # bs) = from_be bs"
  by (simp add: from_be_def)

lemma ordinal_start_ge: "start \<le> ordinal_start bs start"
proof (induction bs start rule: ordinal_start.induct)
  case (1 bs start)
  then show ?case by (subst ordinal_start.simps) auto
qed

lemma from_be_drop_start:
  assumes "length bs = 4" "start \<le> 3"
  shows "ordinal_start bs start \<le> 3 \<and>
    from_be (drop (ordinal_start bs start) bs) = (from_be (drop start bs) :: u32) \<and>
    (start < ordinal_start bs start \<longrightarrow> (bs ! ordinal_start bs start) AND 0x80 = 0)"
  using assms
proof (induction bs start rule: ordinal_start.induct)
  case (1 bs start)
  show ?case
  proof (cases "start < 3 \<and> bs ! start = 0 \<and> (bs ! (start + 1)) AND 0x80 = 0")
    case True
    then have eq: "ordinal_start bs start = ordinal_start bs (start + 1)"
      by (subst ordinal_start.simps) simp
    have dr: "drop start bs = 0 # drop (start + 1) bs"
      using True 1(2) by (metis Cons_nth_drop_Suc Suc_eq_plus1 less_trans numeral_less_iff
          semiring_norm(76) semiring_norm(81))
    from 1(1) [OF True] 1(2) True have ih: "ordinal_start bs (start + 1) \<le> 3"
      "from_be (drop (ordinal_start bs (start + 1)) bs) = (from_be (drop (start + 1) bs) :: u32)"
      "start + 1 < ordinal_start bs (start + 1) \<longrightarrow>
        (bs ! ordinal_start bs (start + 1)) AND 0x80 = 0"
      by simp_all
    have "(bs ! ordinal_start bs (start + 1)) AND 0x80 = 0"
    proof (cases "start + 1 < ordinal_start bs (start + 1)")
      case False
      have "start + 1 \<le> ordinal_start bs (start + 1)"
        using ordinal_start_ge by blast
      with False True show ?thesis by simp
    qed (use ih in blast)
    then show ?thesis unfolding eq dr using ih by simp
  next
    case False
    then have "ordinal_start bs start = start" by (subst ordinal_start.simps) auto
    then show ?thesis using 1(3) by simp
  qed
qed

lemma top_bit_clear: "(be_bytes 4 (w :: u32) ! 0) AND 0x80 = 0 \<longleftrightarrow> w < 0x80000000"
proof -
  have "(be_bytes 4 w ! 0) AND 0x80 = 0 \<longleftrightarrow> \<not> bit (ucast (drop_bit 24 w) :: u8) 7"
    using and_exp_eq_0_iff_not_bit [of "ucast (drop_bit 24 w) :: u8" 7]
    by (simp add: be_bytes_4)
  also have "\<dots> \<longleftrightarrow> \<not> bit (unat w) 31" by (simp add: bit_simps)
  also have "\<dots> \<longleftrightarrow> even (unat w div 2 ^ 31)" by (simp add: bit_iff_odd)
  also have "\<dots> \<longleftrightarrow> unat w < 2 ^ 31"
  proof -
    have "unat w < 2 ^ 32" using unsigned_less [of w] by simp
    then have "unat w div 2 ^ 31 < 2" by (simp add: div_less_iff_less_mult)
    then have "unat w div 2 ^ 31 = 0 \<or> unat w div 2 ^ 31 = 1" by linarith
    then show ?thesis by (auto simp: div_eq_0_iff)
  qed
  also have "\<dots> \<longleftrightarrow> w < 0x80000000" by (simp add: word_less_nat_alt)
  finally show ?thesis .
qed

lemma ordinal_value_small:
  assumes "w < 0x80000000"
  shows "ordinal_of_value (ext_value (ordinal_extension w)) = Some w"
proof -
  let ?bs = "be_bytes 4 w" and ?st = "ordinal_start (be_bytes 4 w) 0"
  have st: "?st \<le> 3" "(from_be (drop ?st ?bs) :: u32) = w"
    "0 < ?st \<longrightarrow> (?bs ! ?st) AND 0x80 = 0"
    using from_be_drop_start [of ?bs 0] by auto
  have "(?bs ! ?st) AND 0x80 = 0"
    using st(3) assms top_bit_clear [of w] by (cases "?st = 0") auto
  then have "(drop ?st ?bs ! 0) AND 0x80 = 0" using st(1) by simp
  then have "ext_value (ordinal_extension w) = 0x02 # word_of_nat (length (drop ?st ?bs)) # drop ?st ?bs"
    by (simp add: ordinal_extension_def Let_def)
  then show ?thesis
    using st(1,2) parse_der_tlv_byte [of "drop ?st ?bs" 2] by (simp add: ordinal_of_value_def)
qed

lemma ordinal_value_large:
  assumes "\<not> w < 0x80000000"
  shows "ordinal_of_value (ext_value (ordinal_extension w)) = None"
proof -
  let ?bs = "be_bytes 4 w"
  have top: "(?bs ! 0) AND 0x80 \<noteq> 0" using assms top_bit_clear [of w] by blast
  then have "?bs ! 0 \<noteq> 0" by auto
  then have "ordinal_start ?bs 0 = 0" by (subst ordinal_start.simps) simp
  then have "ext_value (ordinal_extension w) = 0x02 # word_of_nat (length (0 # ?bs)) # 0 # ?bs"
    using top by (simp add: ordinal_extension_def)
  then show ?thesis
    using parse_der_tlv_byte [of "0 # ?bs" 2] by (simp add: ordinal_of_value_def)
qed

interpretation ordinal_ext: ext_codec FLEETOS_ORDINAL_OID_BYTES
  "\<lambda>w. ext_value (ordinal_extension w)" ordinal_of_value "\<lambda>_. True"
  "\<lambda>w. if w < 0x80000000 then Some w else None"
proof unfold_locales
  fix w :: u32
  have "4 - ordinal_start (be_bytes 4 w) 0 \<le> 4" by simp
  then show "length (ext_value (ordinal_extension w)) < 65536"
    by (auto simp: ordinal_extension_def Let_def)
  show "ordinal_of_value (ext_value (ordinal_extension w)) =
      (if w < 0x80000000 then Some w else None)"
    using ordinal_value_small ordinal_value_large by simp
qed

lemmas ext_eval = role_ok_def is_rust_str_def as_bytes_def byte_of_char_def no_earlier_hit_def
  oid_ext_at_def ext_tail_def FLEETOS_ROLE_OID_BYTES_def FLEETOS_DEGRADED_OID_BYTES_def
  FLEETOS_ORDINAL_OID_BYTES_def

section \<open>Properties\<close>

text \<open>Writer and reader of the workload role agree: a certificate that carries the
  extension built by \<open>role_extension\<close>, and no hit of the scan before it, reads back as
  exactly that role.\<close>

theorem role_extension_roundtrip:
  assumes "role_ok r"
    "no_earlier_hit FLEETOS_ROLE_OID_BYTES pre
       (ext_tail FLEETOS_ROLE_OID_BYTES (ext_value (role_extension r)) @ post)"
  shows "extract_role (pre @ ext_tail FLEETOS_ROLE_OID_BYTES (ext_value (role_extension r)) @ post)
    = Some (WorkloadRole r)"
  using role_ext.reads_back [OF assms] by (auto simp: extract_role_def)

theorem role_extension_roundtrip_witness:
  "extract_role ([0x30, 0x0b] @ ext_tail FLEETOS_ROLE_OID_BYTES
     (ext_value (role_extension ''replica'')) @ [0x05]) = Some (WorkloadRole ''replica'')"
proof (rule role_extension_roundtrip)
  show "role_ok ''replica''" by (simp add: ext_eval)
  show "no_earlier_hit FLEETOS_ROLE_OID_BYTES [0x30, 0x0b]
      (ext_tail FLEETOS_ROLE_OID_BYTES (ext_value (role_extension ''replica'')) @ [0x05])"
    by (simp add: ext_eval)
qed

text \<open>The degraded marker reads back as written, true and false alike.\<close>

theorem degraded_extension_roundtrip:
  assumes "no_earlier_hit FLEETOS_DEGRADED_OID_BYTES pre
       (ext_tail FLEETOS_DEGRADED_OID_BYTES (ext_value (degraded_extension b)) @ post)"
  shows "is_degraded (pre @ ext_tail FLEETOS_DEGRADED_OID_BYTES
     (ext_value (degraded_extension b)) @ post) = b"
  using degraded_ext.reads_back [OF _ assms] by (auto simp: is_degraded_def)

theorem degraded_extension_roundtrip_witness:
  "is_degraded ([0x30] @ ext_tail FLEETOS_DEGRADED_OID_BYTES
     (ext_value (degraded_extension True)) @ []) = True"
  by (rule degraded_extension_roundtrip) (simp add: ext_eval)

text \<open>C17. The ordinal written by \<open>ordinal_extension\<close> reads back exactly when it is below
  2^31. From 2^31 on the writer pads to five content bytes and \<open>extract_ordinal\<close>, which
  accepts at most four, returns \<open>None\<close>: the writer's own output is unreadable.\<close>

theorem ordinal_extension_roundtrip:
  assumes "no_earlier_hit FLEETOS_ORDINAL_OID_BYTES pre
       (ext_tail FLEETOS_ORDINAL_OID_BYTES (ext_value (ordinal_extension w)) @ post)"
  shows "extract_ordinal (pre @ ext_tail FLEETOS_ORDINAL_OID_BYTES
     (ext_value (ordinal_extension w)) @ post) = (if w < 0x80000000 then Some w else None)"
  using ordinal_ext.reads_back [OF _ assms] by (auto simp: extract_ordinal_def)

theorem ordinal_extension_roundtrip_witness:
  "extract_ordinal ([0x30] @ ext_tail FLEETOS_ORDINAL_OID_BYTES
     (ext_value (ordinal_extension 7)) @ []) = Some 7"
proof -
  have "no_earlier_hit FLEETOS_ORDINAL_OID_BYTES [0x30]
      (ext_tail FLEETOS_ORDINAL_OID_BYTES (ext_value (ordinal_extension 7)) @ [])"
    by (simp add: ext_eval)
  from ordinal_extension_roundtrip [OF this] show ?thesis by simp
qed

text \<open>The readers scan raw bytes and the first hit wins: bytes shaped like a role
  extension that stand before the genuine one, in any other field of the certificate,
  decide the role, whatever the genuine extension says.\<close>

theorem role_scan_first_hit_shadows:
  assumes "role_ok forged"
    "no_earlier_hit FLEETOS_ROLE_OID_BYTES pre
       (ext_tail FLEETOS_ROLE_OID_BYTES (ext_value (role_extension forged)) @ mid @
        ext_tail FLEETOS_ROLE_OID_BYTES (ext_value (role_extension genuine)) @ post)"
  shows "extract_role (pre @ ext_tail FLEETOS_ROLE_OID_BYTES (ext_value (role_extension forged)) @
       mid @ ext_tail FLEETOS_ROLE_OID_BYTES (ext_value (role_extension genuine)) @ post)
    = Some (WorkloadRole forged)"
  using role_ext.first_hit_wins [OF assms] by (auto simp: extract_role_def)

theorem role_scan_first_hit_shadows_witness:
  "extract_role ([0x13] @ ext_tail FLEETOS_ROLE_OID_BYTES (ext_value (role_extension ''admin'')) @
     [0x30] @ ext_tail FLEETOS_ROLE_OID_BYTES (ext_value (role_extension ''replica'')) @ [])
   = Some (WorkloadRole ''admin'')"
proof (rule role_scan_first_hit_shadows)
  show "role_ok ''admin''" by (simp add: ext_eval)
  show "no_earlier_hit FLEETOS_ROLE_OID_BYTES [0x13]
     (ext_tail FLEETOS_ROLE_OID_BYTES (ext_value (role_extension ''admin'')) @
      [0x30] @ ext_tail FLEETOS_ROLE_OID_BYTES (ext_value (role_extension ''replica'')) @ [])"
    by (simp add: ext_eval)
qed

text \<open>The two spellings of every object identifier agree: the byte constants the readers
  search for are the DER encodings of the arcs the writers stamp, so that 66561 is indeed
  84 88 01 in base 128.\<close>

theorem oid_bytes_encode_arcs:
  "oid_der FLEETOS_ROLE_OID_ARC = FLEETOS_ROLE_OID_BYTES \<and>
   oid_der FLEETOS_DEGRADED_OID_ARC = FLEETOS_DEGRADED_OID_BYTES \<and>
   oid_der FLEETOS_ORDINAL_OID_ARC = FLEETOS_ORDINAL_OID_BYTES"
  by (simp add: ext_eval FLEETOS_ROLE_OID_ARC_def FLEETOS_DEGRADED_OID_ARC_def
      FLEETOS_ORDINAL_OID_ARC_def FLEETOS_IANA_PEN_def base128.simps)

lemma der_len_prefix_wraps:
  assumes "65536 \<le> n"
  shows "parse_der_length (der_len_prefix n @ r) = Some (n mod 65536, 3)"
proof -
  have "take_bit 8 n = n AND 255" by (simp only: take_bit_eq_mask mask_eq_exp_minus_1) simp
  then have "n AND 255 = n mod 256" by (simp add: take_bit_eq_mod)
  moreover have "256 * (n div 256 mod 256) + n mod 256 = n mod 65536"
    using mod_mult2_eq [of n 256 256] by simp
  ultimately show ?thesis using assms
    by (simp add: der_len_prefix_def parse_der_length_def unat_of_nat drop_bit_eq_div)
qed

text \<open>\<open>der_len_prefix\<close> and \<open>parse_der_length\<close> are inverse up to 65535 bytes; beyond
  that the two-byte form keeps only the low 16 bits of the length.\<close>

theorem der_length_roundtrip:
  "parse_der_length (der_len_prefix n @ r) =
     (if n < 65536 then Some (n, length (der_len_prefix n)) else Some (n mod 65536, 3))"
  using parse_der_length_prefix [of n r] der_len_prefix_wraps [of n r] by simp

text \<open>\<open>parse_der_tlv\<close> never reads outside its input: what it returns is a contiguous
  part of the bytes after the expected tag and the length field.\<close>

theorem parse_der_tlv_slice:
  assumes "parse_der_tlv bs t = Some v"
  shows "\<exists>lenb rest. bs = t # lenb @ v @ rest \<and> lenb \<noteq> []"
proof -
  from assms obtain tl' len c where bs: "bs = t # tl'" and p: "parse_der_length tl' = Some (len, c)"
    and fit: "1 + c + len \<le> length bs" and v: "v = take len (drop (1 + c) bs)"
    by (auto simp: parse_der_tlv_def not_less split: list.splits if_splits option.splits prod.splits)
  have c: "0 < c" using p by (auto simp: parse_der_length_def Let_def split: list.splits if_splits)
  have "tl' = take c tl' @ v @ drop len (drop c tl')"
    using bs v by (simp only: drop_Suc plus_1_eq_Suc list.sel append_take_drop_id)
  moreover have "take c tl' \<noteq> []" using c fit bs by auto
  ultimately show ?thesis using bs by blast
qed

theorem parse_der_tlv_slice_witness:
  "\<exists>lenb rest. [0x02, 0x01, 0x07, 0xAA :: u8] = 0x02 # lenb @ [0x07] @ rest \<and> lenb \<noteq> []"
  by (rule parse_der_tlv_slice) (simp add: parse_der_tlv_def parse_der_length_def)

end
