(* ===== verification/Ext_Layout.thy ===== *)
theory Ext_Layout
  imports Der_Ext Utf8_Text
begin

text \<open>
  Extensions as a certificate lays them out (X.690, RFC 5280), and what the raw scan of
  \<open>find_oid_extension\<close> (\<open>spiffe.rs\<close>) finds in a sequence of them. The scan looks for the
  bytes of an object identifier anywhere; \<open>absent\<close> says that they do not occur, and the
  lemmas carry this across bytes that no identifier of the crate contains.
\<close>

section \<open>Layout\<close>

text \<open>A sequence of identifier, criticality (written only when set) and value.\<close>

definition ext_body :: "custom_extension \<Rightarrow> bytes" where
  "ext_body e = 0x06 # der_len_prefix (length (oid_der (ext_oid e))) @ oid_der (ext_oid e) @
     (if ext_critical e then [0x01, 0x01, 0xFF] else []) @ 0x04 # der_len_prefix (length (ext_value e)) @ ext_value e"

definition ext_der :: "custom_extension \<Rightarrow> bytes" where
  "ext_der e = 0x30 # der_len_prefix (length (ext_body e)) @ ext_body e"

abbreviation fleet_oids :: "bytes list" where
  "fleet_oids \<equiv> [FLEETOS_ROLE_OID_BYTES, FLEETOS_DEGRADED_OID_BYTES, FLEETOS_ORDINAL_OID_BYTES]"

lemma fleet_oid_facts:
  assumes "oid \<in> set fleet_oids"
  shows "oid \<noteq> []" "length oid = 10" "0x30 \<notin> set oid" "0x0A \<notin> set oid" "0x0C \<notin> set oid"
    "\<exists>rest. oid = [0x2B, 0x06, 0x01, 0x04] @ 0x01 # 0x84 # rest"
  using assms by (auto simp: FLEETOS_ROLE_OID_BYTES_def FLEETOS_DEGRADED_OID_BYTES_def FLEETOS_ORDINAL_OID_BYTES_def)

lemma ext_der_split:
  assumes "\<not> ext_critical e" "oid_der (ext_oid e) \<in> set fleet_oids"
  obtains h where "ext_der e = 0x30 # h @ [0x06] @ 0x0A # ext_tail (oid_der (ext_oid e)) (ext_value e)" "length h \<le> 3"
proof
  show "ext_der e = 0x30 # der_len_prefix (length (ext_body e)) @ [0x06] @ 0x0A # ext_tail (oid_der (ext_oid e)) (ext_value e)"
    using assms(1) fleet_oid_facts(2) [OF assms(2)]
    by (simp add: ext_der_def ext_body_def ext_tail_def der_len_short)
  show "length (der_len_prefix (length (ext_body e))) \<le> 3" by (rule length_der_len_prefix)
qed

section \<open>Bytes that hold no identifier\<close>

definition absent :: "bytes \<Rightarrow> bytes \<Rightarrow> bool" where
  "absent oid bs \<longleftrightarrow> list_all (\<lambda>i. take (length oid) (drop i bs) \<noteq> oid) [0..<length bs]"

definition clean :: "bytes \<Rightarrow> bool" where
  "clean bs \<longleftrightarrow> list_all (\<lambda>oid. absent oid bs) fleet_oids"

lemma absentD: "absent oid bs \<Longrightarrow> oid \<noteq> [] \<Longrightarrow> take (length oid) (drop i bs) \<noteq> oid"
  by (cases "i < length bs") (auto simp: absent_def list_all_iff)

lemma absent_iff:
  assumes "oid \<noteq> []"
  shows "absent oid bs \<longleftrightarrow> (\<forall>xs ys. bs \<noteq> xs @ oid @ ys)"
proof
  assume a: "absent oid bs"
  show "\<forall>xs ys. bs \<noteq> xs @ oid @ ys"
  proof (intro allI notI)
    fix xs ys assume "bs = xs @ oid @ ys"
    then have "take (length oid) (drop (length xs) bs) = oid" by simp
    then show False using absentD [OF a assms] by blast
  qed
next
  assume n: "\<forall>xs ys. bs \<noteq> xs @ oid @ ys"
  have "take (length oid) (drop i bs) \<noteq> oid" for i
  proof
    assume t: "take (length oid) (drop i bs) = oid"
    have "bs = take i bs @ take (length oid) (drop i bs) @ drop (length oid) (drop i bs)"
      by (simp only: append_take_drop_id)
    then show False using n t by metis
  qed
  then show "absent oid bs" by (simp add: absent_def list_all_iff)
qed

lemma absent_short: "length bs < length oid \<Longrightarrow> absent oid bs"
  by (auto simp: absent_def list_all_iff dest: arg_cong [where f = length])

text \<open>A byte that the identifier does not contain separates.\<close>

lemma absent_sep:
  assumes "absent oid xs" "absent oid ys" "b \<notin> set oid" "oid \<noteq> []"
  shows "absent oid (xs @ b # ys)"
  unfolding absent_iff [OF assms(4)]
proof (intro allI notI)
  fix us vs assume eq: "xs @ b # ys = us @ oid @ vs"
  then consider w where "xs = us @ w" "w @ b # ys = oid @ vs" | w where "us = xs @ w" "b # ys = w @ oid @ vs"
    by (auto simp: append_eq_append_conv2)
  then show False
  proof cases
    case (1 w)
    then consider v where "w = oid @ v" | v where "oid = w @ v" "b # ys = v @ vs" "v \<noteq> []"
      by (auto simp: append_eq_append_conv2) (metis append_Nil2 self_append_conv)
    then show False
    proof cases
      case (1 v)
      then show ?thesis using assms(1) \<open>xs = us @ w\<close> unfolding absent_iff [OF assms(4)] by blast
    next
      case (2 v)
      then show ?thesis using assms(3) by (cases v) auto
    qed
  next
    case (2 w)
    then show ?thesis using assms(2,3,4) by (cases w; cases oid) (auto simp: absent_iff)
  qed
qed

lemma no_hit_sep:
  assumes "absent oid xs" "b \<notin> set oid" "oid \<noteq> []"
  shows "no_earlier_hit oid (xs @ [b]) rest"
proof -
  have "take (length oid) (drop i (xs @ b # rest)) \<noteq> oid" if "i \<le> length xs" for i
  proof
    assume t: "take (length oid) (drop i (xs @ b # rest)) = oid"
    show False
    proof (cases "i + length oid \<le> length xs")
      case True
      then have "take (length oid) (drop i xs) = oid" using t by (simp add: drop_append)
      then show False using absentD [OF assms(1,3)] by blast
    next
      case False
      then have "length xs - i < length oid" using that by linarith
      moreover have "drop i (xs @ b # rest) ! (length xs - i) = b" using that by (simp add: nth_append)
      ultimately have "oid ! (length xs - i) = b" "length xs - i < length oid" using t by (metis nth_take)+
      then show False using assms(2) by (metis nth_mem)
    qed
  qed
  then have "oid_ext_at (xs @ b # rest) oid i = None" if "i \<le> length xs" for i
    using that unfolding oid_ext_at_def by (simp only: not_False_eq_True if_True)
  then show ?thesis by (auto simp: no_earlier_hit_def list_all_iff less_Suc_eq_le)
qed

lemma first_some_None: "\<forall>x \<in> set xs. f x = None \<Longrightarrow> first_some f xs = None"
  by (induction xs) auto

lemma absent_find: "absent oid bs \<Longrightarrow> oid \<noteq> [] \<Longrightarrow> find_oid_extension bs oid = None"
  unfolding find_oid_extension_def using absentD [of oid bs]
  by (auto simp: oid_ext_at_def intro!: first_some_None)

section \<open>The extensions of the crate\<close>

lemma stamp_oids:
  "oid_der (ext_oid (role_extension r)) = FLEETOS_ROLE_OID_BYTES" "\<not> ext_critical (role_extension r)"
  "oid_der (ext_oid (degraded_extension b)) = FLEETOS_DEGRADED_OID_BYTES" "\<not> ext_critical (degraded_extension b)"
  "oid_der (ext_oid (ordinal_extension w)) = FLEETOS_ORDINAL_OID_BYTES" "\<not> ext_critical (ordinal_extension w)"
  using oid_bytes_encode_arcs by (simp_all add: role_extension_def degraded_extension_def ordinal_extension_def Let_def)

lemma before_tail:
  assumes "absent oid xs" "oid \<in> set fleet_oids" "length h \<le> 3"
  shows "absent oid (xs @ 0x30 # h @ [0x06])"
  using fleet_oid_facts [OF assms(2)] assms(3) by (intro absent_sep [OF assms(1)] absent_short) auto

lemma absent_ext:
  assumes "absent oid xs" "oid \<in> set fleet_oids" "\<not> ext_critical e" "oid_der (ext_oid e) \<in> set fleet_oids"
    and "absent oid (ext_tail (oid_der (ext_oid e)) (ext_value e))"
  shows "absent oid (xs @ ext_der e)"
proof -
  obtain h where h: "ext_der e = 0x30 # h @ [0x06] @ 0x0A # ext_tail (oid_der (ext_oid e)) (ext_value e)" "length h \<le> 3"
    using assms(3,4) by (rule ext_der_split)
  show ?thesis
    using absent_sep [OF before_tail [OF assms(1,2) h(2)] assms(5)] fleet_oid_facts [OF assms(2)] by (simp add: h(1))
qed

lemma other_head:
  assumes "oid \<in> set fleet_oids" "oid' \<in> set fleet_oids" "oid \<noteq> oid'" "length l \<le> 3"
  shows "absent oid (oid' @ 0x04 # l)"
proof -
  have "l = [] \<or> (\<exists>a. l = [a]) \<or> (\<exists>a b. l = [a, b]) \<or> (\<exists>a b c. l = [a, b, c])"
    using assms(4) by (auto simp: le_Suc_eq length_Suc_conv numeral_3_eq_3)
  then show ?thesis using assms(1-3)
    by (auto simp: absent_def FLEETOS_ROLE_OID_BYTES_def FLEETOS_DEGRADED_OID_BYTES_def FLEETOS_ORDINAL_OID_BYTES_def)
qed

lemma absent_degraded:
  assumes "absent oid xs" "oid \<in> set fleet_oids" "oid \<noteq> FLEETOS_DEGRADED_OID_BYTES"
  shows "absent oid (xs @ ext_der (degraded_extension b))"
proof -
  have "ext_tail FLEETOS_DEGRADED_OID_BYTES (ext_value (degraded_extension b)) =
      FLEETOS_DEGRADED_OID_BYTES @ [0x04, 0x03, 0x01, 0x01, if b then 0xFF else 0x00]"
    by (simp add: ext_tail_def degraded_extension_def der_len_prefix_def)
  then have "absent oid (ext_tail FLEETOS_DEGRADED_OID_BYTES (ext_value (degraded_extension b)))"
    using assms(2,3) by (cases b)
      (auto simp: absent_def FLEETOS_ROLE_OID_BYTES_def FLEETOS_DEGRADED_OID_BYTES_def FLEETOS_ORDINAL_OID_BYTES_def)
  then show ?thesis using absent_ext [OF assms(1,2)] by (simp add: stamp_oids)
qed

text \<open>A role is UTF-8 text, in which the identifiers' byte 0x84 cannot follow 0x01.\<close>

lemma absent_text:
  assumes "role_ok r" "oid \<in> set fleet_oids" "length l \<le> 3"
  shows "absent oid (l @ as_bytes r)"
  unfolding absent_iff [OF fleet_oid_facts(1) [OF assms(2)]]
proof (intro allI notI)
  fix us vs assume eq: "l @ as_bytes r = us @ oid @ vs"
  obtain rest where "oid = [0x2B, 0x06, 0x01, 0x04] @ 0x01 # 0x84 # rest" using fleet_oid_facts(6) [OF assms(2)] by blast
  then have "l @ as_bytes r = (us @ [0x2B, 0x06, 0x01, 0x04]) @ 0x01 # 0x84 # rest @ vs" using eq by simp
  moreover have "length l < length (us @ [0x2B, 0x06, 0x01, 0x04 :: u8])" using assms(3) by simp
  ultimately obtain ws where "as_bytes r = ws @ 0x01 # 0x84 # rest @ vs"
    by (auto simp: append_eq_append_conv2 simp del: append_assoc)
  moreover have "utf8_valid (as_bytes r)" using assms(1) by (simp add: role_ok_def is_rust_str_def)
  ultimately show False using utf8_no_stray [where zs = "as_bytes r" and b = "0x01" and c = "0x84"] by (simp add: utf8_cont_def)
qed

lemma absent_role:
  assumes "absent oid xs" "oid \<in> set fleet_oids" "oid \<noteq> FLEETOS_ROLE_OID_BYTES" "role_ok r"
  shows "absent oid (xs @ ext_der (role_extension r))"
proof -
  let ?v = "ext_value (role_extension r)"
  have "ext_tail FLEETOS_ROLE_OID_BYTES ?v = (FLEETOS_ROLE_OID_BYTES @ 0x04 # der_len_prefix (length ?v)) @
      0x0C # der_len_prefix (length (as_bytes r)) @ as_bytes r"
    by (simp add: ext_tail_def role_extension_def Let_def)
  moreover have "absent oid \<dots>"
    using assms(2-4) fleet_oid_facts [OF assms(2)] length_der_len_prefix(2)
    by (intro absent_sep other_head absent_text) auto
  ultimately show ?thesis using absent_ext [OF assms(1,2)] by (simp add: stamp_oids)
qed

lemma absent_ordinal:
  assumes "absent FLEETOS_ROLE_OID_BYTES xs"
  shows "absent FLEETOS_ROLE_OID_BYTES (xs @ ext_der (ordinal_extension w))"
proof -
  let ?v = "ext_value (ordinal_extension w)"
  obtain c where c: "?v = 0x02 # c" "length c \<le> 6"
  proof -
    have "length ?v \<le> 7" "hd ?v = 0x02" "?v \<noteq> []" by (auto simp: ordinal_extension_def Let_def)
    then show ?thesis using that [of "tl ?v"] by (cases ?v) auto
  qed
  then have "ext_tail FLEETOS_ORDINAL_OID_BYTES ?v = (FLEETOS_ORDINAL_OID_BYTES @ 0x04 # der_len_prefix (length ?v)) @ 0x02 # c"
    by (simp add: ext_tail_def)
  moreover have "absent FLEETOS_ROLE_OID_BYTES \<dots>"
    using c(2) length_der_len_prefix(2)
    by (intro absent_sep other_head absent_short) (auto simp: FLEETOS_ROLE_OID_BYTES_def FLEETOS_ORDINAL_OID_BYTES_def)
  ultimately show ?thesis using absent_ext [OF assms] by (simp add: stamp_oids)
qed

text \<open>An extension laid out behind bytes without its identifier is the first hit of the scan.\<close>

lemma laid_out_hit:
  assumes "absent (oid_der (ext_oid e)) pre" "\<not> ext_critical e" "oid_der (ext_oid e) \<in> set fleet_oids"
  obtains front where "pre @ ext_der e @ post = front @ ext_tail (oid_der (ext_oid e)) (ext_value e) @ post"
    "no_earlier_hit (oid_der (ext_oid e)) front (ext_tail (oid_der (ext_oid e)) (ext_value e) @ post)"
proof -
  obtain h where h: "ext_der e = 0x30 # h @ [0x06] @ 0x0A # ext_tail (oid_der (ext_oid e)) (ext_value e)" "length h \<le> 3"
    using assms(2,3) by (rule ext_der_split)
  show ?thesis
    using that [of "(pre @ 0x30 # h @ [0x06]) @ [0x0A]"] no_hit_sep [OF before_tail [OF assms(1,3) h(2)]]
      fleet_oid_facts [OF assms(3)] by (simp add: h(1))
qed

end
