(* ===== verification/Svid_Ca.thy ===== *)
theory Svid_Ca
  imports Der_Ext
begin

text \<open>
  SVID validation and delegated renewal (\<open>spiffe.rs\<close>, second half, as compiled with the
  \<open>ca\<close> feature): the identity in a certificate, validation against a trust bundle, the
  certificate request and the renewal under a delegated signing key. The certificate
  parser, the TLS verifier, the certificate generator and the base64 and time crates are
  the fields of three records; what is relied on of them is named where a theorem needs it.
\<close>

section \<open>Identity of a certificate\<close>

text \<open>What the code reads of a parsed certificate: its extensions, and the general names of a
  subject alternative name.\<close>

datatype general_name = GN_URI string | GN_Other bytes

datatype parsed_extension = SubjectAlternativeName "general_name list" | OtherExtension

fun is_san :: "parsed_extension \<Rightarrow> bool" where
  "is_san (SubjectAlternativeName _) = True"
| "is_san OtherExtension = False"

definition starts_with :: "string \<Rightarrow> string \<Rightarrow> bool" where
  "starts_with p s \<longleftrightarrow> take (length p) s = p"

text \<open>The loop over the general names, leaving at the first \<open>spiffe://\<close> URI.\<close>

fun first_spiffe_uri :: "general_name list \<Rightarrow> string option" where
  "first_spiffe_uri [] = None"
| "first_spiffe_uri (GN_URI uri # rest) =
     (if starts_with ''spiffe://'' uri then Some uri else first_spiffe_uri rest)"
| "first_spiffe_uri (GN_Other _ # rest) = first_spiffe_uri rest"

definition parse_id :: "string \<Rightarrow> svid_error + spiffe_id" where
  "parse_id uri = (case SpiffeId_from_str uri of Inl _ \<Rightarrow> Inl InvalidFormat | Inr i \<Rightarrow> Inr i)"

definition extract_spiffe_id ::
    "(bytes \<Rightarrow> parsed_extension list option) \<Rightarrow> bytes \<Rightarrow> svid_error + spiffe_id" where
  "extract_spiffe_id parse_x509 cert_der =
     rbind (ok_or InvalidFormat (parse_x509 cert_der)) (\<lambda>extensions.
     rbind (ok_or InvalidFormat (List.find is_san extensions)) (\<lambda>san_ext.
     rbind (case san_ext of SubjectAlternativeName san \<Rightarrow> Inr san | _ \<Rightarrow> Inl InvalidFormat) (\<lambda>san.
     rbind (ok_or InvalidFormat (first_spiffe_uri san)) parse_id)))"

text \<open>Without the \<open>ca\<close> feature the function is a stub.\<close>

definition extract_spiffe_id_without_ca :: "bytes \<Rightarrow> svid_error + spiffe_id" where
  "extract_spiffe_id_without_ca cert_der = Inl Unimplemented"

section \<open>Trust bundle\<close>

record trust_bundle =
  tb_trust_domain :: string
  tb_roots :: "bytes list"

record ('store, 'verifier) tls_lib =
  store_empty :: 'store
  store_add :: "'store \<Rightarrow> bytes \<Rightarrow> 'store option"
  verifier_build :: "'store \<Rightarrow> 'verifier option"
  verify_client_cert :: "'verifier \<Rightarrow> bytes \<Rightarrow> nat \<Rightarrow> bool"

fun add_roots :: "('store, 'verifier) tls_lib \<Rightarrow> 'store \<Rightarrow> bytes list \<Rightarrow> svid_error + 'store" where
  "add_roots T root_store [] = Inr root_store"
| "add_roots T root_store (root # rest) =
     rbind (ok_or ValidationFailed (store_add T root_store root)) (\<lambda>root_store. add_roots T root_store rest)"

text \<open>The clock is the signed distance from the epoch; \<open>unwrap_or_default\<close> maps a clock before
  the epoch to 0.\<close>

definition unix_now :: "int \<Rightarrow> nat" where
  "unix_now clock = (if clock < 0 then 0 else nat clock)"

definition validate_svid ::
    "(bytes \<Rightarrow> parsed_extension list option) \<Rightarrow> ('store, 'verifier) tls_lib \<Rightarrow> int \<Rightarrow> bytes \<Rightarrow> trust_bundle \<Rightarrow>
     svid_error + spiffe_id" where
  "validate_svid parse_x509 T clock cert_der bundle =
     rbind (add_roots T (store_empty T) (tb_roots bundle)) (\<lambda>root_store.
     rbind (ok_or ValidationFailed (verifier_build T root_store)) (\<lambda>verifier.
     let now = unix_now clock in
     if \<not> verify_client_cert T verifier cert_der now then Inl ValidationFailed else
     rbind (extract_spiffe_id parse_x509 cert_der) (\<lambda>spiffe_id.
       if si_trust_domain spiffe_id \<noteq> tb_trust_domain bundle then Inl ValidationFailed
       else Inr spiffe_id)))"

definition validate_svid_without_ca :: "bytes \<Rightarrow> trust_bundle \<Rightarrow> svid_error + spiffe_id" where
  "validate_svid_without_ca cert_der trust_bundle = Inl Unimplemented"

section \<open>Delegated renewal\<close>

record delegated_signing_key =
  dk_node_id :: spiffe_id
  dk_target_svid_id :: spiffe_id
  dk_target_ordinal :: "u32 option"
  dk_issued_at_unix :: u64
  dk_expires_at_unix :: u64
  dk_signing_key :: bytes
  dk_intermediate_cert_der :: bytes
  dk_target_role :: "workload_role option"

record csr =
  csr_der :: bytes

text \<open>The certificate parameters of \<open>rcgen\<close> the code reads or writes.\<close>

datatype san_type = San_URI string | San_Other bytes

datatype dn_type = CommonName | OtherDn string

datatype key_usage = DigitalSignature | KeyCertSign | CrlSign | OtherUsage string

datatype extended_key_usage = ClientAuth | ServerAuth | OtherEku string

datatype basic_constraints = Unconstrained | Constrained u8

datatype is_ca = NoCa | ExplicitNoCa | Ca basic_constraints

record cert_params =
  cp_subject_alt_names :: "san_type list"
  cp_distinguished_name :: "(dn_type \<times> string) list"
  cp_key_usages :: "key_usage list"
  cp_extended_key_usages :: "extended_key_usage list"
  cp_is_ca :: is_ca
  cp_custom_extensions :: "custom_extension list"
  cp_not_before :: int
  cp_not_after :: int

record ('kp, 'pk, 'iss) rcgen_lib =
  params_new :: "string list \<Rightarrow> cert_params option"
  ia5_string :: "string \<Rightarrow> string option"
  serialize_request :: "cert_params \<Rightarrow> 'kp \<Rightarrow> bytes option"
  csr_from_der :: "bytes \<Rightarrow> (cert_params \<times> 'pk) option"
  timestamp_ok :: "int \<Rightarrow> bool"
  base64_encode :: "bytes \<Rightarrow> string"
  keypair_from_pem :: "string \<Rightarrow> 'kp option"
  issuer_from_ca_cert_der :: "bytes \<Rightarrow> 'kp \<Rightarrow> 'iss option"
  signed_by :: "cert_params \<Rightarrow> 'pk \<Rightarrow> 'iss \<Rightarrow> bytes option"

definition build_csr :: "('kp, 'pk, 'iss) rcgen_lib \<Rightarrow> spiffe_id \<Rightarrow> 'kp \<Rightarrow> svid_error + csr" where
  "build_csr R sid keypair =
     rbind (ok_or InvalidFormat (params_new R [])) (\<lambda>params.
     rbind (ok_or InvalidFormat (ia5_string R (SpiffeId_to_string sid))) (\<lambda>spiffe_uri.
     let params = params\<lparr>cp_subject_alt_names := cp_subject_alt_names params @ [San_URI spiffe_uri]\<rparr>;
         dn = [(CommonName, SpiffeId_to_string sid)];
         params = params\<lparr>cp_distinguished_name := dn\<rparr>;
         params = params\<lparr>cp_key_usages := [DigitalSignature]\<rparr>;
         params = params\<lparr>cp_extended_key_usages := [ClientAuth, ServerAuth]\<rparr>;
         params = params\<lparr>cp_is_ca := NoCa\<rparr>
     in rbind (ok_or InvalidFormat (serialize_request R params keypair)) (\<lambda>der.
          Inr \<lparr>csr_der = der\<rparr>)))"

text \<open>\<open>chunks(64)\<close>, and the loop that writes one line for each chunk.\<close>

function chunks :: "nat \<Rightarrow> 'a list \<Rightarrow> 'a list list" where
  "chunks n xs = (if xs = [] \<or> n = 0 then [] else take n xs # chunks n (drop n xs))"
  by auto
termination
  by (relation "measure (\<lambda>(n, xs). length xs)") auto

declare chunks.simps [simp del]

fun push_lines :: "string \<Rightarrow> bytes list \<Rightarrow> string outcome" where
  "push_lines pem [] = Returns pem"
| "push_lines pem (chunk # rest) =
     (case from_utf8 chunk of None \<Rightarrow> Panics | Some s \<Rightarrow> push_lines (pem @ s @ [CHR 0x0A]) rest)"

definition der_to_pem :: "('kp, 'pk, 'iss) rcgen_lib \<Rightarrow> bytes \<Rightarrow> string \<Rightarrow> string outcome" where
  "der_to_pem R der label =
     (let b64 = base64_encode R der
      in obind (push_lines (''-----BEGIN '' @ label @ ''-----'' @ [CHR 0x0A]) (chunks 64 (as_bytes b64))) (\<lambda>pem.
           Returns (pem @ ''-----END '' @ label @ ''-----'' @ [CHR 0x0A])))"

text \<open>Step 6: the stamps, all from the key.\<close>

definition stamp :: "delegated_signing_key \<Rightarrow> cert_params \<Rightarrow> cert_params" where
  "stamp key p =
     (let p = p\<lparr>cp_custom_extensions := cp_custom_extensions p @ [degraded_extension True]\<rparr>;
          p = (case dk_target_role key of None \<Rightarrow> p
               | Some role \<Rightarrow> p\<lparr>cp_custom_extensions := cp_custom_extensions p @ [role_extension (role_as_str role)]\<rparr>);
          p = (case dk_target_ordinal key of None \<Rightarrow> p
               | Some ordinal \<Rightarrow> p\<lparr>cp_custom_extensions := cp_custom_extensions p @ [ordinal_extension ordinal]\<rparr>)
      in p)"

text \<open>The tail of the renewal: key material, issuer, signature.\<close>

definition sign_leaf ::
    "('kp, 'pk, 'iss) rcgen_lib \<Rightarrow> delegated_signing_key \<Rightarrow> cert_params \<Rightarrow> 'pk \<Rightarrow> (svid_error + bytes) outcome" where
  "sign_leaf R key final_params public_key =
     obind (der_to_pem R (dk_signing_key key) ''PRIVATE KEY'') (\<lambda>delegated_key_pem.
     Returns (
       rbind (ok_or ValidationFailed (keypair_from_pem R delegated_key_pem)) (\<lambda>delegated_key.
       rbind (ok_or ValidationFailed (issuer_from_ca_cert_der R (dk_intermediate_cert_der key) delegated_key)) (\<lambda>issuer.
         ok_or ValidationFailed (signed_by R final_params public_key issuer)))))"

definition sign_svid_delegated ::
    "('kp, 'pk, 'iss) rcgen_lib \<Rightarrow> delegated_signing_key \<Rightarrow> bytes \<Rightarrow> duration \<Rightarrow> u64 \<Rightarrow>
     (svid_error + bytes) outcome" where
  "sign_svid_delegated R key der new_validity current_unix_time =
     (if dk_expires_at_unix key \<le> current_unix_time then Returns (Inl DelegationKeyExpired) else
      case csr_from_der R der of None \<Rightarrow> Returns (Inl InvalidFormat)
      | Some (params, public_key) \<Rightarrow>
        if length (cp_subject_alt_names params) \<noteq> 1 then Returns (Inl InvalidFormat) else
        (case cp_subject_alt_names params ! 0 of
           San_Other _ \<Rightarrow> Returns (Inl InvalidFormat)
         | San_URI csr_uri \<Rightarrow>
           if \<not> starts_with ''spiffe://'' csr_uri then Returns (Inl InvalidFormat) else
           (case parse_id csr_uri of
              Inl e \<Rightarrow> Returns (Inl e)
            | Inr csr_spiffe_id \<Rightarrow>
              if csr_spiffe_id \<noteq> dk_target_svid_id key then Returns (Inl TargetSvidMismatch) else
              let remaining_window = dk_expires_at_unix key - current_unix_time
              in if dur_secs new_validity > remaining_window then Returns (Inl ValidityOverrun) else
                 let validity_secs = min (dur_secs new_validity) remaining_window;
                     final_params = stamp key params
                 in if \<not> timestamp_ok R (sint current_unix_time) then Returns (Inl InvalidFormat) else
                    let not_before = sint current_unix_time;
                        not_after = not_before + sint validity_secs
                    in if \<not> timestamp_ok R not_after then Panics else
                       sign_leaf R key (final_params\<lparr>cp_not_before := not_before, cp_not_after := not_after\<rparr>) public_key)))"

section \<open>Lemmas\<close>

lemma starts_with_spiffe: "starts_with ''spiffe://'' (SpiffeId_to_string i)"
  by (simp add: starts_with_def SpiffeId_to_string_def)

lemma parse_id_Inr: "parse_id uri = Inr i \<longleftrightarrow> uri = SpiffeId_to_string i \<and> spiffe_wf i"
  using SpiffeId_from_str_iff [of uri i] by (cases "SpiffeId_from_str uri") (auto simp: parse_id_def)

lemma parse_id_Inl: "parse_id uri = Inl e \<Longrightarrow> e = InvalidFormat"
  by (auto simp: parse_id_def split: sum.splits)

lemma extract_Inl: "extract_spiffe_id P d = Inl e \<Longrightarrow> e = InvalidFormat"
  by (auto simp: extract_spiffe_id_def rbind_eq_Inl ok_or_def dest: parse_id_Inl
      split: option.splits parsed_extension.splits)

lemma extract_Inr:
  "extract_spiffe_id P d = Inr i \<longleftrightarrow> (\<exists>exts san. P d = Some exts \<and>
     List.find is_san exts = Some (SubjectAlternativeName san) \<and>
     first_spiffe_uri san = Some (SpiffeId_to_string i) \<and> spiffe_wf i)"
proof (cases "P d")
  case None
  then show ?thesis by (simp add: extract_spiffe_id_def)
next
  case (Some exts)
  show ?thesis
  proof (cases "List.find is_san exts")
    case None
    then show ?thesis using Some by (simp add: extract_spiffe_id_def)
  next
    case (Some e)
    then show ?thesis using \<open>P d = Some exts\<close>
      by (cases e) (simp_all add: extract_spiffe_id_def rbind_eq_Inr parse_id_Inr)
  qed
qed

lemma add_roots_Inl: "add_roots T s rs = Inl e \<Longrightarrow> e = ValidationFailed"
  by (induction rs arbitrary: s) (auto simp: rbind_eq_Inl ok_or_def split: option.splits)

lemma push_lines_ok:
  "\<forall>c \<in> set cs. utf8_valid c \<Longrightarrow>
     push_lines pem cs = Returns (pem @ concat (map (\<lambda>c. of_bytes c @ [CHR 0x0A]) cs))"
  by (induction cs arbitrary: pem) (simp_all add: from_utf8_def)

lemma concat_chunks: "0 < n \<Longrightarrow> concat (chunks n xs) = xs"
  by (induction n xs rule: chunks.induct) (subst chunks.simps, simp)

lemma chunks_bounds: "c \<in> set (chunks n xs) \<Longrightarrow> c \<noteq> [] \<and> length c \<le> n \<and> set c \<subseteq> set xs"
proof (induction n xs rule: chunks.induct)
  case (1 n xs)
  then show ?case
    by (subst (asm) (2) chunks.simps) (auto split: if_splits dest: in_set_takeD in_set_dropD)
qed

definition base64_ascii :: "('kp, 'pk, 'iss) rcgen_lib \<Rightarrow> bool" where
  "base64_ascii R \<longleftrightarrow> (\<forall>d. \<forall>b \<in> set (as_bytes (base64_encode R d)). b < 0x80)"

lemma der_to_pem_ok:
  assumes "base64_ascii R"
  shows "der_to_pem R der label = Returns (''-----BEGIN '' @ label @ ''-----'' @ [CHR 0x0A] @
    concat (map (\<lambda>c. of_bytes c @ [CHR 0x0A]) (chunks 64 (as_bytes (base64_encode R der)))) @
    ''-----END '' @ label @ ''-----'' @ [CHR 0x0A])"
proof -
  have "\<forall>c \<in> set (chunks 64 (as_bytes (base64_encode R der))). utf8_valid c"
    using assms chunks_bounds by (intro ballI utf8_valid_ascii) (force simp: base64_ascii_def)
  from push_lines_ok [OF this] show ?thesis unfolding der_to_pem_def Let_def by simp
qed

definition stamps :: "delegated_signing_key \<Rightarrow> custom_extension list" where
  "stamps key = [degraded_extension True] @
     (case dk_target_role key of None \<Rightarrow> [] | Some role \<Rightarrow> [role_extension (role_as_str role)]) @
     (case dk_target_ordinal key of None \<Rightarrow> [] | Some ordinal \<Rightarrow> [ordinal_extension ordinal])"

lemma stamp_eq: "stamp key p = p\<lparr>cp_custom_extensions := cp_custom_extensions p @ stamps key\<rparr>"
  by (simp add: stamp_def stamps_def Let_def split: option.splits)

text \<open>The certificate the renewal asks the library to sign.\<close>

definition renewed :: "delegated_signing_key \<Rightarrow> duration \<Rightarrow> u64 \<Rightarrow> cert_params \<Rightarrow> cert_params" where
  "renewed key d now p = p\<lparr>cp_custom_extensions := cp_custom_extensions p @ stamps key,
     cp_not_before := sint now, cp_not_after := sint now + sint (dur_secs d)\<rparr>"

text \<open>What the checks before the signature amount to.\<close>

definition renewal_granted :: "delegated_signing_key \<Rightarrow> duration \<Rightarrow> u64 \<Rightarrow> cert_params \<Rightarrow> bool" where
  "renewal_granted key d now p \<longleftrightarrow> now < dk_expires_at_unix key \<and>
     cp_subject_alt_names p = [San_URI (SpiffeId_to_string (dk_target_svid_id key))] \<and>
     spiffe_wf (dk_target_svid_id key) \<and> dur_secs d \<le> dk_expires_at_unix key - now"

lemma sign_svid_delegated_granted:
  assumes "csr_from_der R der = Some (p, pk)" "renewal_granted key d now p"
    and "timestamp_ok R (sint now)" "timestamp_ok R (sint now + sint (dur_secs d))"
  shows "sign_svid_delegated R key der d now = sign_leaf R key (renewed key d now p) pk"
proof -
  let ?t = "dk_target_svid_id key"
  have "parse_id (SpiffeId_to_string ?t) = Inr ?t"
    using assms(2) by (simp add: parse_id_Inr renewal_granted_def)
  moreover have "min (dur_secs d) (dk_expires_at_unix key - now) = dur_secs d"
    using assms(2) by (simp add: renewal_granted_def)
  moreover have "\<not> dk_expires_at_unix key \<le> now" "\<not> dk_expires_at_unix key - now < dur_secs d"
    "cp_subject_alt_names p = [San_URI (SpiffeId_to_string ?t)]"
    using assms(2) by (auto simp: renewal_granted_def)
  ultimately show ?thesis
    using assms(1,3,4) starts_with_spiffe [of ?t]
    by (simp add: sign_svid_delegated_def stamp_eq renewed_def Let_def)
qed

lemma sign_svid_delegated_checks:
  assumes "sign_svid_delegated R key der d now = Returns (Inr cert)"
  obtains p pk where "csr_from_der R der = Some (p, pk)" "renewal_granted key d now p"
    "timestamp_ok R (sint now)" "timestamp_ok R (sint now + sint (dur_secs d))"
proof -
  from assms obtain p pk uri where p: "csr_from_der R der = Some (p, pk)"
      "dk_expires_at_unix key > now" "length (cp_subject_alt_names p) = 1"
      "cp_subject_alt_names p ! 0 = San_URI uri" "parse_id uri = Inr (dk_target_svid_id key)"
      "dur_secs d \<le> dk_expires_at_unix key - now" "timestamp_ok R (sint now)"
      "timestamp_ok R (sint now + sint (min (dur_secs d) (dk_expires_at_unix key - now)))"
    by (auto simp: sign_svid_delegated_def Let_def not_le not_less
        split: if_splits option.splits san_type.splits sum.splits)
  then have "cp_subject_alt_names p = [San_URI uri]"
    by (cases "cp_subject_alt_names p") auto
  then show ?thesis using that p by (simp add: renewal_granted_def parse_id_Inr)
qed

lemma sub_le_uint:
  assumes "(a :: u64) \<le> b - c" "c < b"
  shows "uint c + uint a \<le> uint b"
proof -
  have "c \<le> b" using assms(2) by simp
  then have "uint (b - c) = uint b - uint c" by (simp only: uint_minus_simple_alt)
  then show ?thesis using assms(1) by (simp add: word_le_def)
qed

lemma sint_small:
  assumes "uint (w :: u64) < 2 ^ 63"
  shows "sint w = uint w"
proof -
  have "- (2 ^ 63) \<le> uint w" by (rule order_trans [OF _ uint_ge_0]) simp
  then have "signed_take_bit 63 (uint w) = uint w" using assms by (rule signed_take_bit_int_eq_self)
  then show ?thesis by (simp add: sint_uint)
qed

section \<open>Properties\<close>

text \<open>The identity of a certificate is the first \<open>spiffe://\<close> URI of its first subject
  alternative name extension, and only if that URI is the printed form of a well-formed
  identity; a later URI is never tried. Every other certificate is \<open>InvalidFormat\<close>.\<close>

theorem extract_spiffe_id_exact:
  "(extract_spiffe_id parse_x509 der = Inr i \<longleftrightarrow>
     (\<exists>exts san. parse_x509 der = Some exts \<and> List.find is_san exts = Some (SubjectAlternativeName san) \<and>
       first_spiffe_uri san = Some (SpiffeId_to_string i) \<and> spiffe_wf i)) \<and>
   ((\<nexists>j. extract_spiffe_id parse_x509 der = Inr j) \<longleftrightarrow> extract_spiffe_id parse_x509 der = Inl InvalidFormat)"
  using extract_Inr [of parse_x509 der i] extract_Inl [of parse_x509 der]
  by (cases "extract_spiffe_id parse_x509 der") auto

text \<open>What validation decides, without the functions that decide it. The verifier is built from
  the store that results from adding every root of the bundle in turn, each of them with
  success; the identity is the first \<open>spiffe://\<close> URI of the first subject alternative name.\<close>

definition trusts_chain :: "('store, 'verifier) tls_lib \<Rightarrow> bytes list \<Rightarrow> bytes \<Rightarrow> nat \<Rightarrow> bool" where
  "trusts_chain T roots der time \<longleftrightarrow> (\<exists>stores v. length stores = Suc (length roots) \<and> stores ! 0 = store_empty T \<and>
     (\<forall>k < length roots. store_add T (stores ! k) (roots ! k) = Some (stores ! Suc k)) \<and>
     verifier_build T (stores ! length roots) = Some v \<and> verify_client_cert T v der time)"

definition shows_identity :: "(bytes \<Rightarrow> parsed_extension list option) \<Rightarrow> bytes \<Rightarrow> spiffe_id \<Rightarrow> bool" where
  "shows_identity parse_x509 der i \<longleftrightarrow> spiffe_wf i \<and> (\<exists>before after front rest.
     parse_x509 der = Some (before @ SubjectAlternativeName (front @ GN_URI (SpiffeId_to_string i) # rest) # after) \<and>
     set before \<subseteq> {OtherExtension} \<and> (\<forall>u. GN_URI (''spiffe://'' @ u) \<notin> set front))"

lemma add_roots_chain:
  "add_roots T s roots = Inr s' \<longleftrightarrow> (\<exists>stores. length stores = Suc (length roots) \<and> stores ! 0 = s \<and>
     (\<forall>k < length roots. store_add T (stores ! k) (roots ! k) = Some (stores ! Suc k)) \<and> stores ! length roots = s')"
proof (induction roots arbitrary: s)
  case Nil
  show ?case by (auto intro: exI [of _ "[s]"])
next
  case (Cons r rs)
  show ?case (is "?L \<longleftrightarrow> ?R")
  proof
    assume ?L
    then obtain s1 stores where "store_add T s r = Some s1" "length stores = Suc (length rs)" "stores ! 0 = s1"
        "\<forall>k < length rs. store_add T (stores ! k) (rs ! k) = Some (stores ! Suc k)" "stores ! length rs = s'"
      by (auto simp: rbind_eq_Inr ok_or_def Cons.IH split: option.splits)
    then show ?R by (intro exI [of _ "s # stores"]) (auto simp: nth_Cons split: nat.splits)
  next
    assume ?R
    then obtain stores where st: "length stores = Suc (Suc (length rs))" "stores ! 0 = s"
        "\<forall>k < Suc (length rs). store_add T (stores ! k) ((r # rs) ! k) = Some (stores ! Suc k)"
        "stores ! Suc (length rs) = s'" by auto
    then obtain t ss where ss: "stores = t # ss" by (cases stores) auto
    have "add_roots T (ss ! 0) rs = Inr s'" unfolding Cons.IH using st ss by (intro exI [of _ ss]) fastforce
    moreover have "store_add T s r = Some (ss ! 0)" using st ss by fastforce
    ultimately show ?L by (simp add: ok_or_def)
  qed
qed

lemma starts_with_iff: "starts_with p x \<longleftrightarrow> (\<exists>u. x = p @ u)"
  by (metis append_take_drop_id append_eq_conv_conj starts_with_def)

lemma first_uri_Some:
  "first_spiffe_uri san = Some uri \<Longrightarrow> \<exists>front rest. san = front @ GN_URI uri # rest \<and> starts_with ''spiffe://'' uri \<and>
     (\<forall>u. GN_URI (''spiffe://'' @ u) \<notin> set front)"
proof (induction san rule: first_spiffe_uri.induct)
  case (2 x rest)
  show ?case
  proof (cases "starts_with ''spiffe://'' x")
    case True
    then show ?thesis using 2 by (intro exI [of _ "[]"] exI [of _ rest]) simp
  next
    case False
    then obtain front r where "rest = front @ GN_URI uri # r" "starts_with ''spiffe://'' uri"
        "\<forall>u. GN_URI (''spiffe://'' @ u) \<notin> set front" using 2 by auto
    then show ?thesis using False by (intro exI [of _ "GN_URI x # front"] exI [of _ r]) (auto simp: starts_with_iff)
  qed
next
  case (3 b rest)
  then obtain front r where "rest = front @ GN_URI uri # r" "starts_with ''spiffe://'' uri"
      "\<forall>u. GN_URI (''spiffe://'' @ u) \<notin> set front" by auto
  then show ?case by (intro exI [of _ "GN_Other b # front"] exI [of _ r]) simp
qed simp

lemma first_uri_skip:
  "\<forall>u. GN_URI (''spiffe://'' @ u) \<notin> set front \<Longrightarrow> first_spiffe_uri (front @ san) = first_spiffe_uri san"
  by (induction front rule: first_spiffe_uri.induct) (auto simp: starts_with_iff)

lemma first_uri_iff:
  "first_spiffe_uri san = Some uri \<longleftrightarrow> (\<exists>front rest. san = front @ GN_URI uri # rest \<and> starts_with ''spiffe://'' uri \<and>
     (\<forall>u. GN_URI (''spiffe://'' @ u) \<notin> set front))"
proof
  assume "\<exists>front rest. san = front @ GN_URI uri # rest \<and> starts_with ''spiffe://'' uri \<and>
     (\<forall>u. GN_URI (''spiffe://'' @ u) \<notin> set front)"
  then show "first_spiffe_uri san = Some uri" by (elim exE conjE) (simp add: first_uri_skip)
qed (rule first_uri_Some)

lemma find_san_iff:
  "List.find is_san exts = Some e \<longleftrightarrow> (\<exists>before after san. exts = before @ SubjectAlternativeName san # after \<and>
     e = SubjectAlternativeName san \<and> set before \<subseteq> {OtherExtension})"
proof (induction exts)
  case (Cons x exts)
  show ?case
  proof (cases x)
    case (SubjectAlternativeName san)
    then show ?thesis by (auto simp: Cons_eq_append_conv intro: exI [of _ "[]"])
  next
    case OtherExtension
    then show ?thesis using Cons.IH by (fastforce simp: Cons_eq_append_conv)
  qed
qed simp

lemma extract_shows: "extract_spiffe_id P d = Inr i \<longleftrightarrow> shows_identity P d i"
  unfolding extract_Inr find_san_iff first_uri_iff shows_identity_def using starts_with_spiffe [of i] by auto

lemma trusts_add_roots:
  "trusts_chain T roots der time \<longleftrightarrow> (\<exists>store v. add_roots T (store_empty T) roots = Inr store \<and>
     verifier_build T store = Some v \<and> verify_client_cert T v der time)"
  unfolding trusts_chain_def add_roots_chain by blast

text \<open>C14. Validation, exactly. It returns an identity if and only if every root of the bundle is
  admitted to the store (none is skipped), the verifier built from that store accepts the
  certificate at the current time (0 for a clock before the epoch), the certificate shows that
  well-formed identity as the first \<open>spiffe://\<close> URI of its first subject alternative name, and
  the identity's trust domain is the bundle's. It is \<open>InvalidFormat\<close> exactly for a trusted
  certificate that shows no identity, and \<open>ValidationFailed\<close> exactly for one that is not
  trusted or whose identity has another trust domain.\<close>

theorem validate_svid_exact:
  "(validate_svid parse_x509 T clock der bundle = Inr i \<longleftrightarrow>
     trusts_chain T (tb_roots bundle) der (nat clock) \<and> shows_identity parse_x509 der i \<and>
     si_trust_domain i = tb_trust_domain bundle) \<and>
   (validate_svid parse_x509 T clock der bundle = Inl InvalidFormat \<longleftrightarrow>
     trusts_chain T (tb_roots bundle) der (nat clock) \<and> (\<nexists>j. shows_identity parse_x509 der j)) \<and>
   (validate_svid parse_x509 T clock der bundle = Inl ValidationFailed \<longleftrightarrow>
     (if trusts_chain T (tb_roots bundle) der (nat clock)
      then \<exists>j. shows_identity parse_x509 der j \<and> si_trust_domain j \<noteq> tb_trust_domain bundle else True))"
proof -
  have now: "unix_now clock = nat clock" by (simp add: unix_now_def)
  have untrusted: "validate_svid parse_x509 T clock der bundle = Inl ValidationFailed"
    if "\<not> trusts_chain T (tb_roots bundle) der (nat clock)"
    using that unfolding trusts_add_roots validate_svid_def now
    by (cases "add_roots T (store_empty T) (tb_roots bundle)") (auto simp: ok_or_def Let_def dest: add_roots_Inl split: option.splits)
  have trusted: "validate_svid parse_x509 T clock der bundle = rbind (extract_spiffe_id parse_x509 der) (\<lambda>j.
      if si_trust_domain j \<noteq> tb_trust_domain bundle then Inl ValidationFailed else Inr j)"
    if "trusts_chain T (tb_roots bundle) der (nat clock)"
    using that unfolding trusts_add_roots validate_svid_def now by (auto simp: ok_or_def)
  show ?thesis
  proof (cases "trusts_chain T (tb_roots bundle) der (nat clock)")
    case True
    show ?thesis
    proof (cases "extract_spiffe_id parse_x509 der")
      case (Inl e)
      then have "e = InvalidFormat" "\<nexists>j. shows_identity parse_x509 der j" using extract_Inl [OF Inl] by (auto simp flip: extract_shows)
      then show ?thesis using True trusted Inl by simp
    next
      case (Inr k)
      then have "shows_identity parse_x509 der j \<longleftrightarrow> j = k" for j by (auto simp flip: extract_shows)
      then show ?thesis using True trusted Inr by auto
    qed
  qed (use untrusted in simp)
qed

text \<open>C2. A renewed certificate stays inside the delegation. If a certificate comes out, the
  key was not expired; the request's only name was, byte for byte, the target identity;
  the certificate signed is the request's parameters with the stamps of the key appended
  to the extensions and with a new validity window; now and the requested seconds together
  reach no further than the key's expiry, and where that expiry is below 2^63 seconds, so
  that the casts to signed seconds are exact, the window starts now and ends no later than the
  key. Nothing else of the request is changed: its subject goes into the certificate as the
  caller wrote it.\<close>

theorem delegated_renewal_scope:
  assumes "sign_svid_delegated R key der d now = Returns (Inr cert)"
  shows "\<exists>p pk pem kp iss. csr_from_der R der = Some (p, pk) \<and>
     now < dk_expires_at_unix key \<and>
     cp_subject_alt_names p = [San_URI (SpiffeId_to_string (dk_target_svid_id key))] \<and>
     keypair_from_pem R pem = Some kp \<and> issuer_from_ca_cert_der R (dk_intermediate_cert_der key) kp = Some iss \<and>
     signed_by R (renewed key d now p) pk iss = Some cert \<and>
     uint now + uint (dur_secs d) \<le> uint (dk_expires_at_unix key) \<and>
     (uint (dk_expires_at_unix key) < 2 ^ 63 \<longrightarrow>
        cp_not_before (renewed key d now p) = uint now \<and>
        cp_not_after (renewed key d now p) \<le> uint (dk_expires_at_unix key))"
proof -
  obtain p pk where g: "csr_from_der R der = Some (p, pk)" "renewal_granted key d now p"
    "timestamp_ok R (sint now)" "timestamp_ok R (sint now + sint (dur_secs d))"
    using assms by (rule sign_svid_delegated_checks)
  with assms have "sign_leaf R key (renewed key d now p) pk = Returns (Inr cert)"
    by (simp only: sign_svid_delegated_granted)
  then obtain pem kp iss where s: "keypair_from_pem R pem = Some kp"
      "issuer_from_ca_cert_der R (dk_intermediate_cert_der key) kp = Some iss"
      "signed_by R (renewed key d now p) pk iss = Some cert"
    by (auto simp: sign_leaf_def obind_eq_Returns rbind_eq_Inr)
  have w: "uint now + uint (dur_secs d) \<le> uint (dk_expires_at_unix key)"
    using g(2) by (intro sub_le_uint) (simp_all add: renewal_granted_def)
  then have "uint (dk_expires_at_unix key) < 2 ^ 63 \<Longrightarrow>
      sint now = uint now \<and> sint (dur_secs d) = uint (dur_secs d)"
    using sint_small [of now] sint_small [of "dur_secs d"] uint_ge_0 [of now] uint_ge_0 [of "dur_secs d"]
    by linarith
  then show ?thesis using g s w by (auto simp: renewal_granted_def renewed_def)
qed

text \<open>A concrete library and key, for the applications below: requests and certificates are the
  parameters' names only, and every time is representable.\<close>

definition toy_params :: cert_params where
  "toy_params = \<lparr>cp_subject_alt_names = [], cp_distinguished_name = [], cp_key_usages = [],
     cp_extended_key_usages = [], cp_is_ca = NoCa, cp_custom_extensions = [], cp_not_before = 0, cp_not_after = 0\<rparr>"

definition toy_san_bytes :: "cert_params \<Rightarrow> bytes" where
  "toy_san_bytes p = (case cp_subject_alt_names p of [San_URI u] \<Rightarrow> as_bytes u | _ \<Rightarrow> [])"

definition toy_lib :: "(unit, unit, unit) rcgen_lib" where
  "toy_lib = \<lparr>params_new = (\<lambda>_. Some toy_params), ia5_string = Some,
     serialize_request = (\<lambda>p _. Some (toy_san_bytes p)),
     csr_from_der = (\<lambda>d. Some (toy_params\<lparr>cp_subject_alt_names := [San_URI (of_bytes d)]\<rparr>, ())),
     timestamp_ok = (\<lambda>_. True), base64_encode = (\<lambda>d. map (\<lambda>_. CHR ''A'') d), keypair_from_pem = (\<lambda>_. Some ()),
     issuer_from_ca_cert_der = (\<lambda>_ _. Some ()), signed_by = (\<lambda>p _ _. Some (toy_san_bytes p))\<rparr>"

definition toy_key :: delegated_signing_key where
  "toy_key = \<lparr>dk_node_id = SpiffeId_new ''d'' ''t'' Node ''n'', dk_target_svid_id = SpiffeId_new ''d'' ''t'' Sa ''x'',
     dk_target_ordinal = Some 3, dk_issued_at_unix = 0, dk_expires_at_unix = 100, dk_signing_key = [],
     dk_intermediate_cert_der = [], dk_target_role = None\<rparr>"

lemma toy_wf: "spiffe_wf (dk_target_svid_id toy_key)"
  by (rule spiffe_wfI) (simp_all add: toy_key_def SpiffeId_new_def)

lemma toy_ascii: "base64_ascii toy_lib"
  by (auto simp: base64_ascii_def toy_lib_def as_bytes_def byte_of_char_def)

lemma toy_renewal:
  "sign_svid_delegated toy_lib toy_key (as_bytes (SpiffeId_to_string (dk_target_svid_id toy_key)))
     \<lparr>dur_secs = 50, dur_nanos = 0\<rparr> 40 = Returns (Inr (as_bytes (SpiffeId_to_string (dk_target_svid_id toy_key))))"
proof -
  let ?p = "toy_params\<lparr>cp_subject_alt_names := [San_URI (SpiffeId_to_string (dk_target_svid_id toy_key))]\<rparr>"
  have "renewal_granted toy_key \<lparr>dur_secs = 50, dur_nanos = 0\<rparr> 40 ?p"
    using toy_wf by (simp add: renewal_granted_def) (simp add: toy_key_def)
  then have "sign_svid_delegated toy_lib toy_key (as_bytes (SpiffeId_to_string (dk_target_svid_id toy_key)))
      \<lparr>dur_secs = 50, dur_nanos = 0\<rparr> 40 = sign_leaf toy_lib toy_key (renewed toy_key \<lparr>dur_secs = 50, dur_nanos = 0\<rparr> 40 ?p) ()"
    by (intro sign_svid_delegated_granted) (simp_all add: toy_lib_def)
  then show ?thesis
    using der_to_pem_ok [OF toy_ascii] by (simp add: sign_leaf_def renewed_def) (simp add: toy_lib_def toy_san_bytes_def)
qed

theorem delegated_renewal_scope_witness:
  "cp_not_after (renewed toy_key \<lparr>dur_secs = 50, dur_nanos = 0\<rparr> 40 toy_params) \<le> 100"
  using delegated_renewal_scope [OF toy_renewal] by (auto simp: renewed_def toy_key_def)

definition csr_names_survive :: "('kp, 'pk, 'iss) rcgen_lib \<Rightarrow> bool" where
  "csr_names_survive R \<longleftrightarrow>
     (\<forall>p u kp der. cp_subject_alt_names p = [San_URI u] \<longrightarrow> serialize_request R p kp = Some der \<longrightarrow>
        (\<exists>q pk. csr_from_der R der = Some (q, pk) \<and> cp_subject_alt_names q = [San_URI u])) \<and>
     (\<forall>p. params_new R [] = Some p \<longrightarrow> cp_subject_alt_names p = []) \<and>
     (\<forall>s t. ia5_string R s = Some t \<longrightarrow> t = s)"

definition key_signs :: "('kp, 'pk, 'iss) rcgen_lib \<Rightarrow> delegated_signing_key \<Rightarrow> bool" where
  "key_signs R key \<longleftrightarrow> (\<forall>pem. der_to_pem R (dk_signing_key key) ''PRIVATE KEY'' = Returns pem \<longrightarrow>
     (\<exists>kp iss. keypair_from_pem R pem = Some kp \<and>
        issuer_from_ca_cert_der R (dk_intermediate_cert_der key) kp = Some iss \<and>
        (\<forall>p pk. signed_by R p pk iss \<noteq> None)))"

lemma build_csr_names:
  assumes "build_csr R sid kp = Inr c" "csr_names_survive R"
  obtains p pk where "csr_from_der R (csr_der c) = Some (p, pk)" "cp_subject_alt_names p = [San_URI (SpiffeId_to_string sid)]"
proof -
  obtain p uri q where b: "params_new R [] = Some p" "ia5_string R (SpiffeId_to_string sid) = Some uri"
      "cp_subject_alt_names q = cp_subject_alt_names p @ [San_URI uri]" "serialize_request R q kp = Some (csr_der c)"
    using assms(1) unfolding build_csr_def Let_def
    by (elim rbind_InrE) (auto simp: rbind_eq_Inr intro!: that)
  then have "cp_subject_alt_names q = [San_URI (SpiffeId_to_string sid)]"
    using assms(2) by (auto simp: csr_names_survive_def)
  then show ?thesis using assms(2) b(4) that unfolding csr_names_survive_def by blast
qed

lemma sign_leaf_signs:
  assumes "base64_ascii R" "key_signs R key"
  shows "\<exists>cert. sign_leaf R key q pk = Returns (Inr cert)"
proof -
  obtain pem where pem: "der_to_pem R (dk_signing_key key) ''PRIVATE KEY'' = Returns pem"
    using der_to_pem_ok [OF assms(1)] by blast
  then obtain kp iss where k: "keypair_from_pem R pem = Some kp"
      "issuer_from_ca_cert_der R (dk_intermediate_cert_der key) kp = Some iss" "signed_by R q pk iss \<noteq> None"
    using assms(2) unfolding key_signs_def by blast
  then show ?thesis by (auto simp: sign_leaf_def pem)
qed

lemma sign_leaf_certificate:
  assumes "sign_leaf R key q pk = Returns (Inr cert)"
  obtains iss where "signed_by R q pk iss = Some cert"
  using assms by (auto simp: sign_leaf_def obind_eq_Returns rbind_eq_Inr)

text \<open>Renewal completes for the requests the crate itself builds: if requests read back
  with the names they were written with, the base64 text is ASCII and the key material
  signs, then a request built by \<open>build_csr\<close> for the delegated identity gets a certificate
  whenever the key is not expired and the validity fits.\<close>

theorem built_request_is_renewed:
  assumes "csr_names_survive R" "base64_ascii R" "key_signs R key"
    and "build_csr R (dk_target_svid_id key) kp = Inr c" "spiffe_wf (dk_target_svid_id key)"
    and "now < dk_expires_at_unix key" "dur_secs d \<le> dk_expires_at_unix key - now"
    and "timestamp_ok R (sint now)" "timestamp_ok R (sint now + sint (dur_secs d))"
  shows "\<exists>cert. sign_svid_delegated R key (csr_der c) d now = Returns (Inr cert)"
proof -
  obtain p pk where p: "csr_from_der R (csr_der c) = Some (p, pk)"
    "cp_subject_alt_names p = [San_URI (SpiffeId_to_string (dk_target_svid_id key))]"
    using assms(4,1) by (rule build_csr_names)
  then have "sign_svid_delegated R key (csr_der c) d now = sign_leaf R key (renewed key d now p) pk"
    using assms(5-9) by (intro sign_svid_delegated_granted) (simp_all add: renewal_granted_def)
  then show ?thesis using sign_leaf_signs [OF assms(2,3)] by simp
qed

theorem built_request_is_renewed_witness:
  "\<exists>cert. sign_svid_delegated toy_lib toy_key (as_bytes (SpiffeId_to_string (dk_target_svid_id toy_key)))
     \<lparr>dur_secs = 50, dur_nanos = 0\<rparr> 40 = Returns (Inr cert)"
proof -
  let ?c = "\<lparr>csr_der = as_bytes (SpiffeId_to_string (dk_target_svid_id toy_key))\<rparr>"
  have "csr_names_survive toy_lib"
    by (simp add: csr_names_survive_def toy_lib_def toy_params_def toy_san_bytes_def)
  moreover have "key_signs toy_lib toy_key" by (simp add: key_signs_def toy_lib_def)
  moreover have "build_csr toy_lib (dk_target_svid_id toy_key) () = Inr ?c"
    by (simp add: build_csr_def toy_lib_def toy_san_bytes_def toy_params_def)
  moreover have "(40 :: u64) < dk_expires_at_unix toy_key" "50 \<le> dk_expires_at_unix toy_key - 40"
    by (simp_all add: toy_key_def)
  ultimately show ?thesis
    using built_request_is_renewed [of toy_lib toy_key "()" ?c 40 "\<lparr>dur_secs = 50, dur_nanos = 0\<rparr>"] toy_wf toy_ascii
    by (simp add: toy_lib_def)
qed

end
