(* ===== verification/Attest_Core.thy ===== *)
theory Attest_Core
  imports Hex_Id Spiffe_Id
begin

text \<open>
  The attestation contracts (\<open>attestation.rs\<close>): quote and policy data, the PCR policy
  check, activation proofs, constant-time comparison and EK fingerprints. The functions
  of \<open>blake3\<close> and of the certificate parser (\<open>x509_cert\<close>, \<open>der\<close>) are parameters. The
  traits \<open>HardwareAttestor\<close> and \<open>QuoteVerifier\<close> declare methods and have no body here.
\<close>

section \<open>Data\<close>

datatype attest_error = QuoteGenerationFailed | VerificationFailed | PolicyMismatch | InvalidJoinToken

datatype attestation_quote_type = Tpm2 | AppleSe | Vsock | DevMock

datatype join_token = JoinToken string

datatype recipient_pubkey = RecipientX25519Pubkey (recipient_bytes: bytes)

record attestation_quote =
  aq_quote_type :: attestation_quote_type
  aq_raw_quote :: bytes
  aq_raw_signature :: bytes
  aq_join_token :: "join_token option"
  aq_agent_x25519_pubkey :: recipient_pubkey

record pcr_value =
  pcr_index :: u8
  pcr_hash_algorithm :: u16
  pcr_digest :: bytes

record pcr_policy =
  expected_pcrs :: "pcr_value list"

record attested_identity =
  ai_claimed_id :: spiffe_id
  ai_quote_type :: attestation_quote_type
  ai_pcr_digest :: "bytes option"
  ai_verified_at :: u64

text \<open>The two traits are interfaces without an implementation in the crate: the methods are fields,
  and an implementation may keep a state of its own.\<close>

record 'w hardware_attestor =
  ha_quote_type :: "'w \<Rightarrow> attestation_quote_type"
  ha_generate_quote :: "nonce \<Rightarrow> 'w \<Rightarrow> (attest_error + attestation_quote) \<times> 'w"

record 'w quote_verifier =
  qv_verify :: "attestation_quote \<Rightarrow> nonce \<Rightarrow> pcr_policy \<Rightarrow> 'w \<Rightarrow> (attest_error + attested_identity) \<times> 'w"

section \<open>Constant-time comparison\<close>

definition ct_eq :: "bytes \<Rightarrow> bytes \<Rightarrow> bool" where
  "ct_eq a b =
     (if length a \<noteq> length b then False
      else foldl (\<lambda>acc (x, y). acc OR (x XOR y)) 0 (zip a b) = 0)"

section \<open>PCR policy\<close>

definition same_register :: "pcr_value \<Rightarrow> pcr_value \<Rightarrow> bool" where
  "same_register expected p \<longleftrightarrow>
     pcr_index p = pcr_index expected \<and> pcr_hash_algorithm p = pcr_hash_algorithm expected"

fun verify_pcrs :: "pcr_value list \<Rightarrow> pcr_value list \<Rightarrow> attest_error + unit" where
  "verify_pcrs submitted [] = Inr ()"
| "verify_pcrs submitted (expected # rest) =
     rbind (ok_or PolicyMismatch (List.find (same_register expected) submitted)) (\<lambda>found.
       if \<not> ct_eq (pcr_digest found) (pcr_digest expected) then Inl PolicyMismatch
       else verify_pcrs submitted rest)"

definition verify_pcr_policy :: "pcr_value list \<Rightarrow> pcr_policy \<Rightarrow> attest_error + unit" where
  "verify_pcr_policy submitted policy = verify_pcrs submitted (expected_pcrs policy)"

section \<open>Activation proof\<close>

definition compute_activation_proof :: "(bytes \<Rightarrow> bytes \<Rightarrow> bytes) \<Rightarrow> bytes \<Rightarrow> bytes \<Rightarrow> bytes" where
  "compute_activation_proof keyed_hash secret server_nonce = keyed_hash secret server_nonce"

definition verify_activation_proof ::
    "(bytes \<Rightarrow> bytes \<Rightarrow> bytes) \<Rightarrow> bytes \<Rightarrow> bytes \<Rightarrow> bytes \<Rightarrow> bool" where
  "verify_activation_proof keyed_hash secret server_nonce proof =
     (let expected = compute_activation_proof keyed_hash secret server_nonce
      in ct_eq expected proof)"

section \<open>EK fingerprint\<close>

datatype ek_fingerprint = EkFingerprint (ek_as_bytes: bytes)

datatype ek_extraction_error = EmptyInput | MalformedDer | MissingSpki

definition ek_preimage :: "bytes \<Rightarrow> bytes" where
  "ek_preimage ek_pub = as_bytes ''FleetOS v1 EkFingerprint'' @ [0x00] @ ek_pub"

definition of_ek_pub :: "(bytes \<Rightarrow> bytes) \<Rightarrow> bytes \<Rightarrow> ek_fingerprint" where
  "of_ek_pub blake3 ek_pub = EkFingerprint (trunc16 blake3 (ek_preimage ek_pub))"

definition of_ek_cert ::
    "(bytes \<Rightarrow> bytes) \<Rightarrow> (bytes \<Rightarrow> 'cert option) \<Rightarrow> ('cert \<Rightarrow> bytes option) \<Rightarrow> bytes \<Rightarrow>
     ek_extraction_error + ek_fingerprint" where
  "of_ek_cert blake3 from_der spki_to_der ek_cert_der =
     (if ek_cert_der = [] then Inl EmptyInput
      else rbind (ok_or MalformedDer (from_der ek_cert_der)) (\<lambda>cert.
           rbind (ok_or MissingSpki (spki_to_der cert)) (\<lambda>spki_der.
           Inr (of_ek_pub blake3 spki_der))))"

definition ek_to_hex :: "ek_fingerprint \<Rightarrow> string" where
  "ek_to_hex self = hex_encode (ek_as_bytes self)"

definition ek_from_hex :: "string \<Rightarrow> ek_fingerprint option" where
  "ek_from_hex s = map_option EkFingerprint (hex_decode16 s)"

definition ek_fmt :: "ek_fingerprint \<Rightarrow> string" where
  "ek_fmt self = ek_to_hex self"

definition ek_from_str :: "string \<Rightarrow> string + ek_fingerprint" where
  "ek_from_str s = ok_or ''invalid EkFingerprint hex'' (ek_from_hex s)"

section \<open>Lemmas\<close>

lemma or_eq_0_iff: "a OR b = 0 \<longleftrightarrow> a = 0 \<and> b = (0 :: u8)"
  by (auto simp: bit_eq_iff bit_simps)

lemma xor_eq_0_iff: "a XOR b = 0 \<longleftrightarrow> a = (b :: u8)"
  by (auto simp: bit_eq_iff bit_simps)

lemma ct_fold_zero:
  "foldl (\<lambda>acc (x, y). acc OR (x XOR y)) (a :: u8) ps = 0 \<longleftrightarrow> a = 0 \<and> (\<forall>(x, y) \<in> set ps. x = y)"
proof (induction ps arbitrary: a)
  case Nil
  then show ?case by simp
next
  case (Cons p ps)
  obtain x y where "p = (x, y)" by (cases p)
  then show ?case using Cons [of "a OR (x XOR y)"] by (auto simp: or_eq_0_iff xor_eq_0_iff)
qed

lemma zip_all_eq: "length a = length b \<Longrightarrow> (\<forall>(x, y) \<in> set (zip a b). x = y) \<longleftrightarrow> a = b"
  by (induction a b rule: list_induct2) auto

lemma ct_eq_iff [simp]: "ct_eq a b \<longleftrightarrow> a = b"
  using zip_all_eq [of a b] by (auto simp: ct_eq_def ct_fold_zero)

definition register_ok :: "pcr_value list \<Rightarrow> pcr_value \<Rightarrow> bool" where
  "register_ok submitted e \<longleftrightarrow>
     (case List.find (same_register e) submitted of None \<Rightarrow> False
      | Some f \<Rightarrow> pcr_digest f = pcr_digest e)"

lemma verify_pcrs_result:
  "verify_pcrs submitted es = (if list_all (register_ok submitted) es then Inr () else Inl PolicyMismatch)"
proof (induction es)
  case Nil
  then show ?case by simp
next
  case (Cons e es)
  then show ?case by (cases "List.find (same_register e) submitted") (simp_all add: register_ok_def)
qed

interpretation ek_hex: hex_id EkFingerprint ek_as_bytes ek_to_hex ek_from_hex
  by unfold_locales (simp_all add: ek_to_hex_def ek_from_hex_def)

interpretation ek_id: content_id EkFingerprint ek_preimage of_ek_pub "\<lambda>p. p" "\<lambda>_. True"
  by unfold_locales (simp_all add: of_ek_pub_def ek_preimage_def)

section \<open>Properties\<close>

text \<open>C3. The PCR policy check decides exactly this: every register the policy mandates is
  submitted (the first entry with its index and algorithm counts) with the mandated
  digest. Anything else is \<open>PolicyMismatch\<close>, never another error and never success.\<close>

theorem pcr_policy_fail_closed:
  "verify_pcr_policy submitted policy =
     (if \<forall>e. e \<notin> set (expected_pcrs policy) \<or>
           (\<exists>f. List.find (same_register e) submitted = Some f \<and> pcr_digest f = pcr_digest e)
      then Inr () else Inl PolicyMismatch)"
proof -
  have "list_all (register_ok submitted) (expected_pcrs policy) \<longleftrightarrow>
      (\<forall>e. e \<notin> set (expected_pcrs policy) \<or>
           (\<exists>f. List.find (same_register e) submitted = Some f \<and> pcr_digest f = pcr_digest e))"
    by (auto simp: list_all_iff register_ok_def split: option.splits)
  then show ?thesis by (simp add: verify_pcr_policy_def verify_pcrs_result)
qed

theorem pcr_policy_fail_closed_witness:
  "verify_pcr_policy [\<lparr>pcr_index = 7, pcr_hash_algorithm = 0x000B, pcr_digest = [1]\<rparr>]
     \<lparr>expected_pcrs = [\<lparr>pcr_index = 7, pcr_hash_algorithm = 0x000B, pcr_digest = [2]\<rparr>]\<rparr>
   = Inl PolicyMismatch"
  by (subst pcr_policy_fail_closed) (simp add: same_register_def)

text \<open>The accumulator loop of \<open>ct_eq\<close> computes equality of byte strings.\<close>

theorem ct_eq_is_equality: "ct_eq a b \<longleftrightarrow> a = b"
  by (rule ct_eq_iff)

text \<open>The activation-proof check accepts exactly the proof computed from the same secret
  and the same server nonce.\<close>

theorem activation_proof_exact:
  "verify_activation_proof keyed_hash secret server_nonce proof \<longleftrightarrow>
     proof = compute_activation_proof keyed_hash secret server_nonce"
  by (auto simp: verify_activation_proof_def)

text \<open>Two endorsement keys have the same fingerprint only if they are the same bytes, or
  the truncated hash collides on their two preimages; and a certificate yields the
  fingerprint of the public key embedded in it, so that both presentation forms of one
  key converge.\<close>

theorem ek_fingerprint_content_and_convergence:
  "(of_ek_pub blake3 a = of_ek_pub blake3 b \<longleftrightarrow>
      a = b \<or> collides blake3 (ek_preimage a) (ek_preimage b)) \<and>
   (cert_der \<noteq> [] \<longrightarrow> from_der cert_der = Some cert \<longrightarrow> spki_to_der cert = Some a \<longrightarrow>
      of_ek_cert blake3 from_der spki_to_der cert_der = Inr (of_ek_pub blake3 a))"
  using ek_id.ident_eq_iff [where c = a and d = b and H = blake3] by (simp add: of_ek_cert_def)

theorem ek_fingerprint_content_and_convergence_witness:
  "of_ek_cert (\<lambda>x. x) (\<lambda>d. if d = [] then None else Some (tl d)) Some [0x30, 0x07]
     = Inr (of_ek_pub (\<lambda>x. x) [0x07])"
  using ek_fingerprint_content_and_convergence
    [of "\<lambda>x. x" "[0x07]" "[0x07]" "[0x30, 0x07]" "\<lambda>d. if d = [] then None else Some (tl d)"
        "[0x07]" Some]
  by simp

text \<open>Hex wire form of EK fingerprints: printing then parsing gives the fingerprint back,
  and whatever parses has 16 bytes and prints as the lowercase of the text.\<close>

theorem ek_hex_roundtrip:
  "(length (ek_as_bytes x) = 16 \<longrightarrow> ek_from_hex (ek_to_hex x) = Some x) \<and>
   (ek_from_hex s = Some y \<longrightarrow> length (ek_as_bytes y) = 16 \<and> ek_to_hex y = to_ascii_lowercase s)"
  using ek_hex.hex_roundtrip ek_hex.parsed_canonical by blast

theorem ek_hex_roundtrip_witness:
  "ek_from_hex (ek_to_hex (EkFingerprint (replicate 16 0x2a))) = Some (EkFingerprint (replicate 16 0x2a))"
  using ek_hex_roundtrip [of "EkFingerprint (replicate 16 0x2a)"] by simp

end
