(* ===== verification/Quote_Verify.thy ===== *)
theory Quote_Verify
  imports Attest_Core
begin

text \<open>
  Quote verification (\<open>attestation/quote.rs\<close>): the structural check, the bounds-checked
  reader, the walk over a marshaled \<open>TPMT_PUBLIC\<close>, the software signature check and the
  binding of submitted PCR values to the signed quote. The locale \<open>reader\<close> is the
  contract of one reading step; it is interpreted for every step of the reader, and
  composed once for the size-prefixed blocks (\<open>TPM2B\<close>) both walks consist of. The
  signature schemes of the crates \<open>rsa\<close> and \<open>p256\<close> and the hashes of \<open>sha2\<close> are
  parameters.
\<close>

section \<open>Data\<close>

record tpm_quote =
  tq_quote_bytes :: bytes
  tq_signature :: bytes
  tq_nonce :: bytes
  tq_pcr_selection :: "pcr_value list"
  tq_attestation_key_pub :: bytes

definition TPM_GENERATED_MAGIC :: bytes where
  "TPM_GENERATED_MAGIC = [0xff, 0x54, 0x43, 0x47]"

definition TPM_ALG_RSA :: u16 where "TPM_ALG_RSA = 0x0001"
definition TPM_ALG_ECC :: u16 where "TPM_ALG_ECC = 0x0023"
definition TPM_ALG_NULL :: u16 where "TPM_ALG_NULL = 0x0010"
definition TPM_ALG_OAEP :: u16 where "TPM_ALG_OAEP = 0x0017"
definition TPM_ALG_ECDAA :: u16 where "TPM_ALG_ECDAA = 0x001A"
definition TPM_ST_ATTEST_QUOTE :: u16 where "TPM_ST_ATTEST_QUOTE = 0x8018"
definition TPM_ALG_SHA256 :: u16 where "TPM_ALG_SHA256 = 0x000B"
definition TPM_ALG_SHA384 :: u16 where "TPM_ALG_SHA384 = 0x000C"
definition TPM_ALG_SHA512 :: u16 where "TPM_ALG_SHA512 = 0x000D"

lemmas tpm_consts = TPM_ALG_RSA_def TPM_ALG_ECC_def TPM_ALG_NULL_def TPM_ALG_OAEP_def
  TPM_ALG_ECDAA_def TPM_ST_ATTEST_QUOTE_def TPM_ALG_SHA256_def TPM_ALG_SHA384_def
  TPM_ALG_SHA512_def TPM_GENERATED_MAGIC_def

datatype ak_public =
    Rsa (ak_modulus: bytes) (ak_exponent: u32)
  | Ecc (ak_x: bytes) (ak_y: bytes)

datatype hash_kind = Sha256 | Sha384 | Sha512

text \<open>The checks below take the hash as an argument \<open>hash_with\<close>; in the crate it is this dispatch to
  the three digests of the \<open>sha2\<close> package.\<close>

definition hash_with_sha2 ::
    "(bytes \<Rightarrow> bytes) \<Rightarrow> (bytes \<Rightarrow> bytes) \<Rightarrow> (bytes \<Rightarrow> bytes) \<Rightarrow> hash_kind \<Rightarrow> bytes \<Rightarrow> bytes" where
  "hash_with_sha2 sha256 sha384 sha512 kind data =
     (case kind of Sha256 \<Rightarrow> sha256 data | Sha384 \<Rightarrow> sha384 data | Sha512 \<Rightarrow> sha512 data)"

section \<open>Structural check\<close>

definition verify_quote_structure :: "tpm_quote \<Rightarrow> bytes \<Rightarrow> attest_error + unit" where
  "verify_quote_structure quote expected_nonce =
     (if tq_nonce quote \<noteq> expected_nonce then Inl VerificationFailed
      else if length (tq_quote_bytes quote) < length TPM_GENERATED_MAGIC then Inl VerificationFailed
      else if take (length TPM_GENERATED_MAGIC) (tq_quote_bytes quote) \<noteq> TPM_GENERATED_MAGIC
        then Inl VerificationFailed
      else if tq_signature quote = [] then Inl VerificationFailed
      else Inr ())"

section \<open>Reader\<close>

definition r_take :: "nat \<Rightarrow> bytes \<Rightarrow> attest_error + bytes \<times> bytes" where
  "r_take n s = (if length s < n then Inl VerificationFailed else Inr (take n s, drop n s))"

definition r_skip :: "nat \<Rightarrow> bytes \<Rightarrow> attest_error + unit \<times> bytes" where
  "r_skip n s = rbind (r_take n s) (\<lambda>(_, s). Inr ((), s))"

definition r_u8 :: "bytes \<Rightarrow> attest_error + u8 \<times> bytes" where
  "r_u8 s = rbind (r_take 1 s) (\<lambda>(b, s). Inr (b ! 0, s))"

definition r_u16 :: "bytes \<Rightarrow> attest_error + u16 \<times> bytes" where
  "r_u16 s = rbind (r_take 2 s) (\<lambda>(b, s). Inr (from_be [b ! 0, b ! 1], s))"

definition r_u32 :: "bytes \<Rightarrow> attest_error + u32 \<times> bytes" where
  "r_u32 s = rbind (r_take 4 s) (\<lambda>(b, s). Inr (from_be [b ! 0, b ! 1, b ! 2, b ! 3], s))"

section \<open>The attestation key\<close>

definition expect_null_symmetric :: "bytes \<Rightarrow> attest_error + unit \<times> bytes" where
  "expect_null_symmetric s = rbind (r_u16 s) (\<lambda>(alg, s).
     if alg \<noteq> TPM_ALG_NULL then Inl VerificationFailed else Inr ((), s))"

text \<open>The scheme blocks: the selector, then the fields the selector announces.\<close>

definition rsa_scheme :: "bytes \<Rightarrow> attest_error + unit \<times> bytes" where
  "rsa_scheme s = rbind (r_u16 s) (\<lambda>(scheme, s).
     if scheme \<noteq> TPM_ALG_NULL then
       rbind (r_u16 s) (\<lambda>(_, s).
         if scheme = TPM_ALG_OAEP then rbind (r_u16 s) (\<lambda>(label_len, s). r_skip (unat label_len) s)
         else Inr ((), s))
     else Inr ((), s))"

definition ecc_scheme :: "bytes \<Rightarrow> attest_error + unit \<times> bytes" where
  "ecc_scheme s = rbind (r_u16 s) (\<lambda>(scheme, s).
     if scheme \<noteq> TPM_ALG_NULL then
       rbind (r_u16 s) (\<lambda>(_, s).
         if scheme = TPM_ALG_ECDAA then rbind (r_u16 s) (\<lambda>(_, s). Inr ((), s))
         else Inr ((), s))
     else Inr ((), s))"

definition kdf_scheme :: "bytes \<Rightarrow> attest_error + unit \<times> bytes" where
  "kdf_scheme s = rbind (r_u16 s) (\<lambda>(kdf, s).
     if kdf \<noteq> TPM_ALG_NULL then rbind (r_u16 s) (\<lambda>(_, s). Inr ((), s))
     else Inr ((), s))"

text \<open>The two arms of the match on the key type.\<close>

definition rsa_arm :: "bytes \<Rightarrow> attest_error + ak_public" where
  "rsa_arm s =
     rbind (expect_null_symmetric s) (\<lambda>(_, s).
     rbind (rsa_scheme s) (\<lambda>(_, s).
     rbind (r_u16 s) (\<lambda>(_, s).
     rbind (r_u32 s) (\<lambda>(exponent_raw, s).
     rbind (r_u16 s) (\<lambda>(mod_len, s).
     rbind (r_take (unat mod_len) s) (\<lambda>(modulus, s).
       Inr (Rsa modulus (if exponent_raw = 0 then 65537 else exponent_raw))))))))"

definition ecc_arm :: "bytes \<Rightarrow> attest_error + ak_public" where
  "ecc_arm s =
     rbind (expect_null_symmetric s) (\<lambda>(_, s).
     rbind (ecc_scheme s) (\<lambda>(_, s).
     rbind (r_u16 s) (\<lambda>(_, s).
     rbind (kdf_scheme s) (\<lambda>(_, s).
     rbind (r_u16 s) (\<lambda>(x_len, s).
     rbind (r_take (unat x_len) s) (\<lambda>(x, s).
     rbind (r_u16 s) (\<lambda>(y_len, s).
     rbind (r_take (unat y_len) s) (\<lambda>(y, s).
       Inr (Ecc x y)))))))))"

definition parse_ak_public :: "bytes \<Rightarrow> attest_error + ak_public" where
  "parse_ak_public s =
     rbind (r_u16 s) (\<lambda>(typ, s).
     rbind (r_u16 s) (\<lambda>(_, s).
     rbind (r_u32 s) (\<lambda>(_, s).
     rbind (r_u16 s) (\<lambda>(ap_len, s).
     rbind (r_skip (unat ap_len) s) (\<lambda>(_, s).
       if typ = TPM_ALG_RSA then rsa_arm s
       else if typ = TPM_ALG_ECC then ecc_arm s
       else Inl VerificationFailed)))))"

section \<open>Signature check\<close>

text \<open>What the crates \<open>rsa\<close> and \<open>p256\<close> provide; \<open>BigUint::from_bytes_be\<close> is \<open>be_nat\<close>.\<close>

record ('rk, 'rs, 'ek, 'es) sig_lib =
  rsa_public_key_new :: "nat \<Rightarrow> nat \<Rightarrow> 'rk option"
  rsa_signature_try_from :: "bytes \<Rightarrow> 'rs option"
  rsa_verify :: "'rk \<Rightarrow> bytes \<Rightarrow> 'rs \<Rightarrow> bool"
  p256_from_sec1_bytes :: "bytes \<Rightarrow> 'ek option"
  p256_signature_from_slice :: "bytes \<Rightarrow> 'es option"
  p256_verify :: "'ek \<Rightarrow> bytes \<Rightarrow> 'es \<Rightarrow> bool"

definition verify_rsa ::
    "('rk, 'rs, 'ek, 'es) sig_lib \<Rightarrow> bytes \<Rightarrow> u32 \<Rightarrow> bytes \<Rightarrow> bytes \<Rightarrow> attest_error + unit" where
  "verify_rsa L modulus exponent quote_bytes sig =
     rbind (ok_or VerificationFailed (rsa_public_key_new L (be_nat modulus) (unat exponent))) (\<lambda>pubkey.
     rbind (ok_or VerificationFailed (rsa_signature_try_from L sig)) (\<lambda>signature.
       if rsa_verify L pubkey quote_bytes signature then Inr () else Inl VerificationFailed))"

definition verify_ecdsa_p256 ::
    "('rk, 'rs, 'ek, 'es) sig_lib \<Rightarrow> bytes \<Rightarrow> bytes \<Rightarrow> bytes \<Rightarrow> bytes \<Rightarrow> attest_error + unit" where
  "verify_ecdsa_p256 L x y quote_bytes sig =
     (let sec1_bytes = [0x04] @ x @ y in
      rbind (ok_or VerificationFailed (p256_from_sec1_bytes L sec1_bytes)) (\<lambda>vk.
      rbind (ok_or VerificationFailed (p256_signature_from_slice L sig)) (\<lambda>signature.
        if p256_verify L vk quote_bytes signature then Inr () else Inl VerificationFailed)))"

definition verify_quote_signature ::
    "('rk, 'rs, 'ek, 'es) sig_lib \<Rightarrow> tpm_quote \<Rightarrow> attest_error + unit" where
  "verify_quote_signature L quote =
     rbind (parse_ak_public (tq_attestation_key_pub quote)) (\<lambda>ak. case ak of
         Rsa modulus exponent \<Rightarrow>
           verify_rsa L modulus exponent (tq_quote_bytes quote) (tq_signature quote)
       | Ecc x y \<Rightarrow> verify_ecdsa_p256 L x y (tq_quote_bytes quote) (tq_signature quote))"

section \<open>PCR binding\<close>

text \<open>The walk over \<open>TPMS_ATTEST\<close> up to \<open>pcrDigest\<close>: the bank, the bitmap, the digest.\<close>

definition read_quote_info :: "bytes \<Rightarrow> attest_error + u16 \<times> bytes \<times> bytes" where
  "read_quote_info s =
     rbind (r_take 4 s) (\<lambda>(magic, s).
     if magic \<noteq> TPM_GENERATED_MAGIC then Inl VerificationFailed else
     rbind (r_u16 s) (\<lambda>(typ, s).
     if typ \<noteq> TPM_ST_ATTEST_QUOTE then Inl VerificationFailed else
     rbind (r_u16 s) (\<lambda>(qs_len, s).
     rbind (r_skip (unat qs_len) s) (\<lambda>(_, s).
     rbind (r_u16 s) (\<lambda>(ed_len, s).
     rbind (r_skip (unat ed_len) s) (\<lambda>(_, s).
     rbind (r_skip 17 s) (\<lambda>(_, s).
     rbind (r_skip 8 s) (\<lambda>(_, s).
     rbind (r_u32 s) (\<lambda>(count, s).
     if count \<noteq> 1 then Inl VerificationFailed else
     rbind (r_u16 s) (\<lambda>(hash_alg, s).
     rbind (r_u8 s) (\<lambda>(sizeof_select, s).
     if unat sizeof_select = 0 \<or> unat sizeof_select > 4 then Inl VerificationFailed else
     rbind (r_take (unat sizeof_select) s) (\<lambda>(select_bitmap, s).
     rbind (r_u16 s) (\<lambda>(digest_len, s).
     rbind (r_take (unat digest_len) s) (\<lambda>(pcr_digest, s).
       Inr (hash_alg, select_bitmap, pcr_digest)))))))))))))))"

definition hash_of_alg :: "u16 \<Rightarrow> attest_error + nat \<times> hash_kind" where
  "hash_of_alg hash_alg =
     (if hash_alg = TPM_ALG_SHA256 then Inr (32, Sha256)
      else if hash_alg = TPM_ALG_SHA384 then Inr (48, Sha384)
      else if hash_alg = TPM_ALG_SHA512 then Inr (64, Sha512)
      else Inl VerificationFailed)"

definition selected_in :: "nat \<times> u8 \<Rightarrow> u8 list" where
  "selected_in = (\<lambda>(byte_i, bitmap_byte).
     map (\<lambda>k. word_of_nat (byte_i * 8 + k)) (filter (\<lambda>k. bitmap_byte AND push_bit k 1 \<noteq> 0) [0..<8]))"

definition selected_indices :: "bytes \<Rightarrow> u8 list" where
  "selected_indices select_bitmap = concat (map selected_in (enumerate 0 select_bitmap))"

definition is_pcr :: "u8 \<Rightarrow> u16 \<Rightarrow> pcr_value \<Rightarrow> bool" where
  "is_pcr idx hash_alg p \<longleftrightarrow> pcr_index p = idx \<and> pcr_hash_algorithm p = hash_alg"

fun concat_selected :: "pcr_value list \<Rightarrow> u16 \<Rightarrow> nat \<Rightarrow> u8 list \<Rightarrow> attest_error + bytes" where
  "concat_selected submitted hash_alg digest_size [] = Inr []"
| "concat_selected submitted hash_alg digest_size (idx # rest) =
     rbind (ok_or VerificationFailed (List.find (is_pcr idx hash_alg) submitted)) (\<lambda>pv.
       if length (pcr_digest pv) \<noteq> digest_size then Inl VerificationFailed
       else rbind (concat_selected submitted hash_alg digest_size rest) (\<lambda>more.
              Inr (pcr_digest pv @ more)))"

definition verify_pcr_binding ::
    "(hash_kind \<Rightarrow> bytes \<Rightarrow> bytes) \<Rightarrow> bytes \<Rightarrow> pcr_value list \<Rightarrow> attest_error + unit" where
  "verify_pcr_binding hash_with quote_bytes submitted =
     rbind (read_quote_info quote_bytes) (\<lambda>(hash_alg, select_bitmap, pcr_digest).
     rbind (hash_of_alg hash_alg) (\<lambda>(digest_size, kind).
     rbind (concat_selected submitted hash_alg digest_size (selected_indices select_bitmap)) (\<lambda>cat.
       if \<not> ct_eq (hash_with kind cat) pcr_digest then Inl VerificationFailed else Inr ())))"

section \<open>Reference layouts\<close>

text \<open>
  The TPM wire layouts the two walks are written against: a \<open>TPM2B\<close> block, the scheme
  blocks, a signing-only \<open>TPMT_PUBLIC\<close> and a single-bank quote \<open>TPMS_ATTEST\<close>.
\<close>

definition tpm2b :: "bytes \<Rightarrow> bytes" where
  "tpm2b bs = be_bytes 2 (word_of_nat (length bs) :: u16) @ bs"

definition small :: "bytes \<Rightarrow> bool" where
  "small bs \<longleftrightarrow> length bs < 65536"

definition rsa_scheme_bytes :: "u16 \<Rightarrow> u16 \<Rightarrow> bytes \<Rightarrow> bytes" where
  "rsa_scheme_bytes scheme h label = be_bytes 2 scheme @
     (if scheme = TPM_ALG_NULL then []
      else be_bytes 2 h @ (if scheme = TPM_ALG_OAEP then tpm2b label else []))"

definition ecc_scheme_bytes :: "u16 \<Rightarrow> u16 \<Rightarrow> u16 \<Rightarrow> bytes" where
  "ecc_scheme_bytes scheme h count = be_bytes 2 scheme @
     (if scheme = TPM_ALG_NULL then []
      else be_bytes 2 h @ (if scheme = TPM_ALG_ECDAA then be_bytes 2 count else []))"

definition kdf_scheme_bytes :: "u16 \<Rightarrow> u16 \<Rightarrow> bytes" where
  "kdf_scheme_bytes kdf h = be_bytes 2 kdf @ (if kdf = TPM_ALG_NULL then [] else be_bytes 2 h)"

definition public_header :: "u16 \<Rightarrow> u16 \<Rightarrow> u32 \<Rightarrow> bytes \<Rightarrow> bytes" where
  "public_header typ name_alg attrs auth_policy =
     be_bytes 2 typ @ be_bytes 2 name_alg @ be_bytes 4 attrs @ tpm2b auth_policy @
     be_bytes 2 TPM_ALG_NULL"

definition rsa_public_bytes ::
    "u16 \<Rightarrow> u32 \<Rightarrow> bytes \<Rightarrow> u16 \<Rightarrow> u16 \<Rightarrow> bytes \<Rightarrow> u16 \<Rightarrow> u32 \<Rightarrow> bytes \<Rightarrow> bytes" where
  "rsa_public_bytes name_alg attrs auth_policy scheme h label key_bits exponent modulus =
     public_header TPM_ALG_RSA name_alg attrs auth_policy @ rsa_scheme_bytes scheme h label @
     be_bytes 2 key_bits @ be_bytes 4 exponent @ tpm2b modulus"

definition ecc_public_bytes ::
    "u16 \<Rightarrow> u32 \<Rightarrow> bytes \<Rightarrow> u16 \<Rightarrow> u16 \<Rightarrow> u16 \<Rightarrow> u16 \<Rightarrow> u16 \<Rightarrow> u16 \<Rightarrow> bytes \<Rightarrow> bytes \<Rightarrow> bytes" where
  "ecc_public_bytes name_alg attrs auth_policy scheme h count curve kdf kdf_h x y =
     public_header TPM_ALG_ECC name_alg attrs auth_policy @ ecc_scheme_bytes scheme h count @
     be_bytes 2 curve @ kdf_scheme_bytes kdf kdf_h @ tpm2b x @ tpm2b y"

definition attest_bytes ::
    "bytes \<Rightarrow> bytes \<Rightarrow> bytes \<Rightarrow> bytes \<Rightarrow> u16 \<Rightarrow> bytes \<Rightarrow> bytes \<Rightarrow> bytes" where
  "attest_bytes signer extra clock firmware alg bitmap digest =
     TPM_GENERATED_MAGIC @ be_bytes 2 TPM_ST_ATTEST_QUOTE @ tpm2b signer @ tpm2b extra @
     clock @ firmware @ be_bytes 4 (1 :: u32) @ be_bytes 2 alg @ [word_of_nat (length bitmap)] @
     bitmap @ tpm2b digest"

text \<open>The digest a submission holds for a register, and the bitmap's membership test.\<close>

definition submitted_digest :: "pcr_value list \<Rightarrow> u16 \<Rightarrow> u8 \<Rightarrow> bytes option" where
  "submitted_digest submitted alg idx = map_option pcr_digest (List.find (is_pcr idx alg) submitted)"

definition selects :: "bytes \<Rightarrow> u8 \<Rightarrow> bool" where
  "selects bitmap idx \<longleftrightarrow>
     unat idx div 8 < length bitmap \<and> bit (bitmap ! (unat idx div 8)) (unat idx mod 8)"

section \<open>The contract of a reading step\<close>

text \<open>
  A step \<open>rd\<close> reads a value off the front of the input exactly when the input starts with
  an encoding of the value (\<open>lang a b\<close>: the bytes \<open>b\<close> encode \<open>a\<close>), leaves the rest, and
  fails with \<open>VerificationFailed\<close> only.
\<close>

locale reader =
  fixes rd :: "bytes \<Rightarrow> attest_error + 'a \<times> bytes"
    and lang :: "'a \<Rightarrow> bytes \<Rightarrow> bool"
  assumes rd_iff: "rd s = Inr (a, r) \<longleftrightarrow> (\<exists>b. lang a b \<and> s = b @ r)"
    and rd_err: "rd s = Inl e \<Longrightarrow> e = VerificationFailed"
begin

lemma rd_front: "lang a b \<Longrightarrow> rd (b @ r) = Inr (a, r)"
  by (auto simp: rd_iff)

lemma lang_prefix_free: "lang a b \<Longrightarrow> lang c d \<Longrightarrow> b @ r = d @ s \<Longrightarrow> a = c \<and> b = d \<and> r = s"
  using rd_front [of a b r] rd_front [of c d s] by auto

lemma rd_total: "rd s = Inl VerificationFailed \<or> (\<exists>a b r. lang a b \<and> s = b @ r \<and> rd s = Inr (a, r))"
proof (cases "rd s")
  case (Inl e)
  then show ?thesis using rd_err by blast
next
  case (Inr p)
  then show ?thesis using rd_iff by (cases p) blast
qed

end

lemma rbind_pair_Inr [result_simps]:
  "rbind m (case_prod f) = Inr b \<longleftrightarrow> (\<exists>a s. m = Inr (a, s) \<and> f a s = Inr b)"
  by (cases m) auto

text \<open>Results whose only error is \<open>VerificationFailed\<close>, closed under \<open>?\<close> and conditionals.\<close>

definition fails_closed :: "attest_error + 'a \<Rightarrow> bool" where
  "fails_closed m \<longleftrightarrow> (\<forall>e. m = Inl e \<longrightarrow> e = VerificationFailed)"

named_theorems closed_intros \<open>results that fail with \<open>VerificationFailed\<close> only\<close>

lemma fails_closedD: "fails_closed m \<Longrightarrow> m = Inl e \<Longrightarrow> e = VerificationFailed"
  by (simp add: fails_closed_def)

lemma fails_closed_base [closed_intros]: "fails_closed (Inl VerificationFailed)" "fails_closed (Inr a)"
  "fails_closed (ok_or VerificationFailed z)"
  by (cases z; simp add: fails_closed_def)+

lemma fails_closed_rbind [closed_intros]:
  "fails_closed m \<Longrightarrow> (\<And>a. fails_closed (f a)) \<Longrightarrow> fails_closed (rbind m f)"
  by (cases m) (auto simp: fails_closed_def)

lemma fails_closed_if [closed_intros]:
  "fails_closed a \<Longrightarrow> fails_closed b \<Longrightarrow> fails_closed (if c then a else b)"
  by simp

lemma fails_closed_pair [closed_intros]: "(\<And>a b. fails_closed (f a b)) \<Longrightarrow> fails_closed (case_prod f p)"
  by (cases p) simp

lemma fails_closed_reads [closed_intros]:
  "fails_closed (r_take n s)" "fails_closed (r_skip n s)" "fails_closed (r_u8 s)"
  "fails_closed (r_u16 s)" "fails_closed (r_u32 s)"
proof -
  show take: "fails_closed (r_take n s)" for n
    by (auto simp: r_take_def fails_closed_def)
  show "fails_closed (r_skip n s)" "fails_closed (r_u8 s)" "fails_closed (r_u16 s)" "fails_closed (r_u32 s)"
    unfolding r_skip_def r_u8_def r_u16_def r_u32_def by (intro closed_intros take)+
qed

lemma fails_closed_schemes [closed_intros]:
  "fails_closed (expect_null_symmetric s)" "fails_closed (rsa_scheme s)"
  "fails_closed (ecc_scheme s)" "fails_closed (kdf_scheme s)"
  unfolding expect_null_symmetric_def rsa_scheme_def ecc_scheme_def kdf_scheme_def
  by (intro closed_intros)+

section \<open>The reading steps meet the contract\<close>

lemma r_take_iff: "r_take n s = Inr (b, r) \<longleftrightarrow> length b = n \<and> s = b @ r"
proof -
  have "r_take n s = Inr (b, r) \<longleftrightarrow> n \<le> length s \<and> b = take n s \<and> r = drop n s"
    by (auto simp: r_take_def)
  also have "\<dots> \<longleftrightarrow> length b = n \<and> s = b @ r"
    by auto
  finally show ?thesis .
qed

interpretation take_rd: reader "r_take n" "\<lambda>a b. length a = n \<and> b = a" for n
  by unfold_locales (auto simp: r_take_iff intro: fails_closedD [OF fails_closed_reads(1)])

lemma r_skip_iff: "r_skip n s = Inr (u, r) \<longleftrightarrow> (\<exists>b. length b = n \<and> s = b @ r)"
  by (auto simp: r_skip_def result_simps r_take_iff)

interpretation skip_rd: reader "r_skip n" "\<lambda>_ b. length b = n" for n
  by unfold_locales (auto simp: r_skip_iff intro: fails_closedD [OF fails_closed_reads(2)])

lemma r_u8_iff: "r_u8 s = Inr (w, r) \<longleftrightarrow> s = w # r"
  by (auto simp: r_u8_def result_simps r_take_iff length_Suc_conv)

interpretation u8_rd: reader r_u8 "\<lambda>a b. b = [a]"
  by unfold_locales (auto simp: r_u8_iff intro: fails_closedD [OF fails_closed_reads(3)])

lemma nth_list2: "length b = 2 \<Longrightarrow> [b ! 0, b ! 1] = b"
  by (auto simp: numeral_eq_Suc length_Suc_conv)

lemma nth_list4: "length b = 4 \<Longrightarrow> [b ! 0, b ! 1, b ! 2, b ! 3] = b"
  by (auto simp: numeral_eq_Suc length_Suc_conv)

lemma r_u16_iff: "r_u16 s = Inr (w, r) \<longleftrightarrow> s = be_bytes 2 w @ r"
proof
  assume "r_u16 s = Inr (w, r)"
  then obtain b where "length b = 2" "s = b @ r" "w = from_be [b ! 0, b ! 1]"
    unfolding r_u16_def rbind_pair_Inr r_take_iff by blast
  then show "s = be_bytes 2 w @ r" by (simp only: nth_list2 be_bytes_from_be_u16)
next
  assume s: "s = be_bytes 2 w @ r"
  then have "from_be [be_bytes 2 w ! 0, be_bytes 2 w ! 1] = w"
    by (simp only: nth_list2 length_be_bytes from_be_bytes_u16)
  then show "r_u16 s = Inr (w, r)" by (simp add: s r_u16_def r_take_def)
qed

lemma r_u32_iff: "r_u32 s = Inr (w, r) \<longleftrightarrow> s = be_bytes 4 w @ r"
proof
  assume "r_u32 s = Inr (w, r)"
  then obtain b where "length b = 4" "s = b @ r" "w = from_be [b ! 0, b ! 1, b ! 2, b ! 3]"
    unfolding r_u32_def rbind_pair_Inr r_take_iff by blast
  then show "s = be_bytes 4 w @ r" by (simp only: nth_list4 be_bytes_from_be_u32)
next
  assume s: "s = be_bytes 4 w @ r"
  then have "from_be [be_bytes 4 w ! 0, be_bytes 4 w ! 1, be_bytes 4 w ! 2, be_bytes 4 w ! 3] = w"
    by (simp only: nth_list4 length_be_bytes from_be_bytes_u32)
  then show "r_u32 s = Inr (w, r)" by (simp add: s r_u32_def r_take_def)
qed

interpretation u16_rd: reader r_u16 "\<lambda>a b. b = be_bytes 2 a"
  by unfold_locales (auto simp: r_u16_iff intro: fails_closedD [OF fails_closed_reads(4)])

interpretation u32_rd: reader r_u32 "\<lambda>a b. b = be_bytes 4 a"
  by unfold_locales (auto simp: r_u32_iff intro: fails_closedD [OF fails_closed_reads(5)])

text \<open>A size prefix and the block it announces, read or skipped.\<close>

lemma tpm2b_front:
  "(\<exists>n :: u16. s = be_bytes 2 n @ t \<and> length b = unat n \<and> t = b @ r) \<longleftrightarrow> small b \<and> s = tpm2b b @ r \<and> t = b @ r"
proof
  assume "\<exists>n :: u16. s = be_bytes 2 n @ t \<and> length b = unat n \<and> t = b @ r"
  then obtain n :: u16 where n: "s = be_bytes 2 n @ t" "length b = unat n" "t = b @ r" by blast
  then have "length b < 65536" using unsigned_less [of n] by simp
  then show "small b \<and> s = tpm2b b @ r \<and> t = b @ r" using n by (simp add: small_def tpm2b_def)
next
  assume "small b \<and> s = tpm2b b @ r \<and> t = b @ r"
  then show "\<exists>n :: u16. s = be_bytes 2 n @ t \<and> length b = unat n \<and> t = b @ r"
    by (intro exI [of _ "word_of_nat (length b)"])
      (simp add: small_def tpm2b_def unat_of_nat)
qed

definition r_block :: "bytes \<Rightarrow> attest_error + bytes \<times> bytes" where
  "r_block s = rbind (r_u16 s) (\<lambda>(n, s). r_take (unat n) s)"

definition skip_block :: "bytes \<Rightarrow> attest_error + unit \<times> bytes" where
  "skip_block s = rbind (r_u16 s) (\<lambda>(n, s). r_skip (unat n) s)"

lemma block_folds:
  "rbind (r_u16 s) (\<lambda>(n, s). rbind (r_take (unat n) s) f) = rbind (r_block s) f"
  "rbind (r_u16 s) (\<lambda>(n, s). rbind (r_skip (unat n) s) g) = rbind (skip_block s) g"
  by (simp_all add: r_block_def skip_block_def rbind_assoc case_prod_unfold)

lemma r_block_iff: "r_block s = Inr (b, r) \<longleftrightarrow> small b \<and> s = tpm2b b @ r"
  unfolding r_block_def rbind_pair_Inr r_u16_iff r_take_iff using tpm2b_front [of s] by metis

lemma skip_block_iff: "skip_block s = Inr (u, r) \<longleftrightarrow> (\<exists>b. small b \<and> s = tpm2b b @ r)"
  unfolding skip_block_def rbind_pair_Inr r_u16_iff r_skip_iff using tpm2b_front [of s] by metis

lemma fails_closed_blocks [closed_intros]: "fails_closed (r_block s)" "fails_closed (skip_block s)"
  unfolding r_block_def skip_block_def by (intro closed_intros)+

interpretation block_rd: reader r_block "\<lambda>a b. small a \<and> b = tpm2b a"
  by unfold_locales (auto simp: r_block_iff intro: fails_closedD [OF fails_closed_blocks(1)])

interpretation skip_block_rd: reader skip_block "\<lambda>_ b. \<exists>a. small a \<and> b = tpm2b a"
  by unfold_locales (auto simp: skip_block_iff intro: fails_closedD [OF fails_closed_blocks(2)])

lemma null_symmetric_iff:
  "expect_null_symmetric s = Inr (u, r) \<longleftrightarrow> s = be_bytes 2 TPM_ALG_NULL @ r"
  by (auto simp: expect_null_symmetric_def rbind_pair_Inr r_u16_iff)

lemma u16_front: "r_u16 (be_bytes 2 a @ r) = Inr (a, r)"
  by (rule u16_rd.rd_front) simp

lemma small_Nil [simp]: "small []"
  by (simp add: small_def)

lemma rsa_scheme_iff:
  "rsa_scheme s = Inr (u, r) \<longleftrightarrow> (\<exists>scheme h label. small label \<and> s = rsa_scheme_bytes scheme h label @ r)"
proof
  assume "rsa_scheme s = Inr (u, r)"
  then obtain scheme t where s: "s = be_bytes 2 scheme @ t"
    and t: "(if scheme \<noteq> TPM_ALG_NULL then
       rbind (r_u16 t) (\<lambda>(_, s). if scheme = TPM_ALG_OAEP then skip_block s else Inr ((), s))
     else Inr ((), t)) = Inr (u, r)"
    unfolding rsa_scheme_def skip_block_def [symmetric] rbind_pair_Inr [of "r_u16 s"] r_u16_iff by blast
  show "\<exists>scheme h label. small label \<and> s = rsa_scheme_bytes scheme h label @ r"
  proof (cases "scheme = TPM_ALG_NULL")
    case True
    then show ?thesis using s t
      by (intro exI [of _ scheme] exI [of _ "[]"]) (simp add: rsa_scheme_bytes_def)
  next
    case False
    then obtain h :: u16 and t' where h: "t = be_bytes 2 h @ t'"
      and t': "(if scheme = TPM_ALG_OAEP then skip_block t' else Inr ((), t')) = Inr (u, r)"
      using t by (auto simp: rbind_pair_Inr r_u16_iff)
    then obtain label where "small label" "t' = (if scheme = TPM_ALG_OAEP then tpm2b label else []) @ r"
      using skip_block_iff [of t' u r] small_Nil by (cases "scheme = TPM_ALG_OAEP") (simp, blast, fastforce)
    then show ?thesis using s h False by (auto simp: rsa_scheme_bytes_def)
  qed
next
  assume "\<exists>scheme h label. small label \<and> s = rsa_scheme_bytes scheme h label @ r"
  then obtain scheme h label where "small label" and s: "s = rsa_scheme_bytes scheme h label @ r"
    by blast
  then have "skip_block (tpm2b label @ r) = Inr (u, r)"
    using skip_block_iff by blast
  then show "rsa_scheme s = Inr (u, r)"
    by (simp add: s rsa_scheme_def rsa_scheme_bytes_def u16_front skip_block_def [symmetric])
qed

lemma kdf_scheme_iff: "kdf_scheme s = Inr (u, r) \<longleftrightarrow> (\<exists>kdf h. s = kdf_scheme_bytes kdf h @ r)"
  by (auto simp: kdf_scheme_def rbind_pair_Inr r_u16_iff kdf_scheme_bytes_def)

lemma ecc_scheme_iff:
  "ecc_scheme s = Inr (u, r) \<longleftrightarrow> (\<exists>scheme h count. s = ecc_scheme_bytes scheme h count @ r)"
proof
  assume "ecc_scheme s = Inr (u, r)"
  then obtain scheme t where s: "s = be_bytes 2 scheme @ t"
    and t: "(if scheme \<noteq> TPM_ALG_NULL then
       rbind (r_u16 t) (\<lambda>(_, s).
         if scheme = TPM_ALG_ECDAA then rbind (r_u16 s) (\<lambda>(_, s). Inr ((), s)) else Inr ((), s))
     else Inr ((), t)) = Inr (u, r)"
    unfolding ecc_scheme_def rbind_pair_Inr [of "r_u16 s"] r_u16_iff by blast
  show "\<exists>scheme h count. s = ecc_scheme_bytes scheme h count @ r"
  proof (cases "scheme = TPM_ALG_NULL")
    case True
    then show ?thesis using s t by (intro exI [of _ scheme]) (simp add: ecc_scheme_bytes_def)
  next
    case False
    then obtain h :: u16 and count :: u16 where "t = be_bytes 2 h @ (if scheme = TPM_ALG_ECDAA then be_bytes 2 count else []) @ r"
      using t by (cases "scheme = TPM_ALG_ECDAA") (auto simp: rbind_pair_Inr r_u16_iff)
    then show ?thesis using s False by (auto simp: ecc_scheme_bytes_def)
  qed
next
  assume "\<exists>scheme h count. s = ecc_scheme_bytes scheme h count @ r"
  then show "ecc_scheme s = Inr (u, r)"
    by (auto simp: ecc_scheme_def ecc_scheme_bytes_def u16_front)
qed

text \<open>The composed steps meet the contract of a reading step too.\<close>

interpretation null_symmetric_rd: reader expect_null_symmetric "\<lambda>_ b. b = be_bytes 2 TPM_ALG_NULL"
  by unfold_locales (auto simp: null_symmetric_iff intro: fails_closedD [OF fails_closed_schemes(1)])

interpretation rsa_scheme_rd: reader rsa_scheme
    "\<lambda>_ b. \<exists>scheme h label. small label \<and> b = rsa_scheme_bytes scheme h label"
  by unfold_locales (auto simp: rsa_scheme_iff intro: fails_closedD [OF fails_closed_schemes(2)])

interpretation ecc_scheme_rd: reader ecc_scheme "\<lambda>_ b. \<exists>scheme h count. b = ecc_scheme_bytes scheme h count"
  by unfold_locales (auto simp: ecc_scheme_iff intro: fails_closedD [OF fails_closed_schemes(3)])

interpretation kdf_scheme_rd: reader kdf_scheme "\<lambda>_ b. \<exists>kdf h. b = kdf_scheme_bytes kdf h"
  by unfold_locales (auto simp: kdf_scheme_iff intro: fails_closedD [OF fails_closed_schemes(4)])

text \<open>Each step on an input that starts with what it reads.\<close>

lemma fronts:
  "r_u16 (be_bytes 2 a @ r) = Inr (a, r)"
  "r_u32 (be_bytes 4 b @ r) = Inr (b, r)"
  "length d = n \<Longrightarrow> r_take n (d @ r) = Inr (d, r)"
  "length d = n \<Longrightarrow> r_skip n (d @ r) = Inr ((), r)"
  "small d \<Longrightarrow> r_block (tpm2b d @ r) = Inr (d, r)"
  "small d \<Longrightarrow> skip_block (tpm2b d @ r) = Inr ((), r)"
  "expect_null_symmetric (be_bytes 2 TPM_ALG_NULL @ r) = Inr ((), r)"
  "small d \<Longrightarrow> rsa_scheme (rsa_scheme_bytes sc h d @ r) = Inr ((), r)"
  "ecc_scheme (ecc_scheme_bytes sc h ct @ r) = Inr ((), r)"
  "kdf_scheme (kdf_scheme_bytes kd h @ r) = Inr ((), r)"
  by (rule u16_rd.rd_front u32_rd.rd_front take_rd.rd_front skip_rd.rd_front block_rd.rd_front
      skip_block_rd.rd_front null_symmetric_rd.rd_front rsa_scheme_rd.rd_front
      ecc_scheme_rd.rd_front kdf_scheme_rd.rd_front; blast)+

definition eff_exponent :: "u32 \<Rightarrow> u32" where
  "eff_exponent e = (if e = 0 then 65537 else e)"

lemma rsa_arm_iff:
  "rsa_arm s = Inr ak \<longleftrightarrow> (\<exists>scheme h label kb e m r.
     s = be_bytes 2 TPM_ALG_NULL @ rsa_scheme_bytes scheme h label @ be_bytes 2 (kb :: u16) @ be_bytes 4 e @
       tpm2b m @ r \<and> small label \<and> small m \<and> ak = Rsa m (eff_exponent e))"
  unfolding rsa_arm_def eff_exponent_def [symmetric] block_folds
  unfolding rbind_pair_Inr null_symmetric_iff rsa_scheme_iff r_u16_iff r_u32_iff r_block_iff sum.inject
  by blast

lemma ecc_arm_iff:
  "ecc_arm s = Inr ak \<longleftrightarrow> (\<exists>scheme h count curve kdf kh x y r.
     s = be_bytes 2 TPM_ALG_NULL @ ecc_scheme_bytes scheme h count @ be_bytes 2 (curve :: u16) @
       kdf_scheme_bytes kdf kh @ tpm2b x @ tpm2b y @ r \<and> small x \<and> small y \<and> ak = Ecc x y)"
  (is "_ \<longleftrightarrow> ?R")
proof
  assume "ecc_arm s = Inr ak"
  then show ?R
    unfolding ecc_arm_def block_folds
    unfolding rbind_pair_Inr null_symmetric_iff ecc_scheme_iff kdf_scheme_iff r_u16_iff r_block_iff sum.inject
    by (elim exE conjE, hypsubst, intro exI conjI) (rule refl | assumption)+
next
  assume ?R
  then show "ecc_arm s = Inr ak"
    unfolding ecc_arm_def block_folds
    by (elim exE conjE, hypsubst) (simp only: fronts rbind_Inr split_conv)
qed

definition headed :: "u16 \<Rightarrow> bytes \<Rightarrow> bytes \<Rightarrow> bool" where
  "headed ty s t \<longleftrightarrow> (\<exists>(na :: u16) (attrs :: u32) ap.
     s = be_bytes 2 ty @ be_bytes 2 na @ be_bytes 4 attrs @ tpm2b ap @ t \<and> small ap)"

lemma parse_ak_public_iff:
  "parse_ak_public s = Inr ak \<longleftrightarrow>
     (\<exists>t. headed TPM_ALG_RSA s t \<and> rsa_arm t = Inr ak) \<or> (\<exists>t. headed TPM_ALG_ECC s t \<and> ecc_arm t = Inr ak)"
proof -
  have arms: "(if ty = TPM_ALG_RSA then rsa_arm t else if ty = TPM_ALG_ECC then ecc_arm t
      else Inl VerificationFailed) = Inr ak \<longleftrightarrow>
      ty = TPM_ALG_RSA \<and> rsa_arm t = Inr ak \<or> ty = TPM_ALG_ECC \<and> ecc_arm t = Inr ak" for ty t
    by (simp add: tpm_consts)
  have "parse_ak_public s = Inr ak \<longleftrightarrow> (\<exists>ty t. headed ty s t \<and>
      (ty = TPM_ALG_RSA \<and> rsa_arm t = Inr ak \<or> ty = TPM_ALG_ECC \<and> ecc_arm t = Inr ak))"
    unfolding parse_ak_public_def block_folds headed_def
    unfolding rbind_pair_Inr r_u16_iff r_u32_iff skip_block_iff arms by blast
  then show ?thesis by blast
qed

lemma rsa_public_iff:
  "(\<exists>t. headed TPM_ALG_RSA s t \<and> rsa_arm t = Inr ak) \<longleftrightarrow>
     (\<exists>na attrs ap scheme h label kb e m r.
        s = rsa_public_bytes na attrs ap scheme h label kb e m @ r \<and>
        small ap \<and> small label \<and> small m \<and> ak = Rsa m (eff_exponent e))"
  unfolding headed_def rsa_arm_iff rsa_public_bytes_def public_header_def append_assoc
  by (rule iffI; elim exE conjE; hypsubst; intro exI conjI) (rule refl | assumption)+

lemma ecc_public_iff:
  "(\<exists>t. headed TPM_ALG_ECC s t \<and> ecc_arm t = Inr ak) \<longleftrightarrow>
     (\<exists>na attrs ap scheme h count curve kdf kh x y r.
        s = ecc_public_bytes na attrs ap scheme h count curve kdf kh x y @ r \<and>
        small ap \<and> small x \<and> small y \<and> ak = Ecc x y)"
  unfolding headed_def ecc_arm_iff ecc_public_bytes_def public_header_def append_assoc
  by (rule iffI; elim exE conjE; hypsubst; intro exI conjI) (rule refl | assumption)+

section \<open>The attested quote\<close>

lemma guard_Inr: "(if c then Inl e else m) = Inr z \<longleftrightarrow> \<not> c \<and> m = Inr z"
  by simp

lemma magic_front: "r_take 4 (TPM_GENERATED_MAGIC @ r) = Inr (TPM_GENERATED_MAGIC, r)"
  by (simp add: fronts TPM_GENERATED_MAGIC_def del: append_Cons)

lemma r_u8_front: "r_u8 (w # r) = Inr (w, r)"
  by (simp add: r_u8_iff)

lemma read_quote_info_iff:
  "read_quote_info s = Inr (alg, bm, dg) \<longleftrightarrow> (\<exists>signer extra clock firmware r.
     s = attest_bytes signer extra clock firmware alg bm dg @ r \<and>
     small signer \<and> small extra \<and> length clock = 17 \<and> length firmware = 8 \<and>
     1 \<le> length bm \<and> length bm \<le> 4 \<and> small dg)"
  (is "_ \<longleftrightarrow> ?R")
proof
  assume "read_quote_info s = Inr (alg, bm, dg)"
  then show ?R
    unfolding read_quote_info_def block_folds rbind_pair_Inr guard_Inr not_not r_take_iff r_u8_iff r_u16_iff r_u32_iff
      skip_block_iff r_skip_iff r_block_iff sum.inject prod.inject de_Morgan_disj not_less attest_bytes_def append_assoc append_Cons append_Nil
    by (elim exE conjE, hypsubst, intro exI conjI) (rule refl | assumption | simp)+
next
  assume R: ?R
  then have "unat (word_of_nat (length bm) :: u8) = length bm" by (auto simp: unat_of_nat)
  with R show "read_quote_info s = Inr (alg, bm, dg)"
    unfolding read_quote_info_def block_folds attest_bytes_def
    by (elim exE conjE, hypsubst) (auto simp: fronts magic_front r_u8_front)
qed

lemma concat_selected_iff:
  "concat_selected ps alg n is = Inr out \<longleftrightarrow>
     (\<exists>ds. map (submitted_digest ps alg) is = map Some ds \<and> (\<forall>d \<in> set ds. length d = n) \<and> out = concat ds)"
proof (induction "is" arbitrary: out)
  case Nil
  then show ?case by auto
next
  case (Cons i "is")
  show ?case
  proof (cases "List.find (is_pcr i alg) ps")
    case None
    then show ?thesis by (auto simp: submitted_digest_def)
  next
    case (Some pv)
    then have "submitted_digest ps alg i = Some (pcr_digest pv)" by (simp add: submitted_digest_def)
    moreover have "concat_selected ps alg n (i # is) = Inr out \<longleftrightarrow> length (pcr_digest pv) = n \<and>
        (\<exists>more. concat_selected ps alg n is = Inr more \<and> out = pcr_digest pv @ more)"
      using Some by (auto simp: rbind_eq_Inr)
    ultimately show ?thesis
      unfolding Cons list.map Cons_eq_map_conv by fastforce
  qed
qed

lemma concat_same_width_inj:
  "concat xs = concat ys \<Longrightarrow> length xs = length ys \<Longrightarrow> \<forall>x \<in> set xs. length x = n \<Longrightarrow>
    \<forall>x \<in> set ys. length x = n \<Longrightarrow> xs = ys"
proof (induction xs arbitrary: ys)
  case Nil
  then show ?case by simp
next
  case (Cons x xs)
  then show ?case by (cases ys) auto
qed

lemma bit_mask_iff: "(b :: u8) AND push_bit j 1 \<noteq> 0 \<longleftrightarrow> bit b j"
  by (simp add: bit_iff_and_push_bit_not_eq_0)

lemma selected_in_bits: "selected_in (k, b) = map word_of_nat (filter (\<lambda>i. bit b (i mod 8)) [8 * k..<8 * k + 8])"
proof -
  have "[8 * k..<8 * k + 8] = map (\<lambda>j. k * 8 + j) [0..<8]"
    using map_add_upt [of "8 * k" 8] by (simp add: add.commute mult.commute)
  moreover have "filter (\<lambda>j. bit b (j mod 8)) [0..<8] = filter (bit b) [0..<8]"
    by (rule filter_cong) auto
  moreover from this have "filter (\<lambda>i. bit b (i mod 8)) (map (\<lambda>j. k * 8 + j) [0..<8]) =
      map (\<lambda>j. k * 8 + j) (filter (bit b) [0..<8])"
    by (simp add: filter_map comp_def)
  ultimately show ?thesis
    unfolding selected_in_def split_conv bit_mask_iff by (simp add: comp_def)
qed

lemma selected_indices_upt:
  "selected_indices bm = map word_of_nat (filter (\<lambda>i. bit (bm ! (i div 8)) (i mod 8)) [0..<8 * length bm])"
proof (induction bm rule: rev_induct)
  case Nil
  then show ?case by (simp add: selected_indices_def)
next
  case (snoc b bm)
  have "selected_indices (bm @ [b]) = selected_indices bm @ selected_in (length bm, b)"
    by (simp add: selected_indices_def enumerate_append_eq)
  moreover have "[0..<8 * length (bm @ [b])] = [0..<8 * length bm] @ [8 * length bm..<8 * length bm + 8]"
    using upt_add_eq_append [of 0 "8 * length bm" 8] by (simp add: add.commute)
  moreover have "filter (\<lambda>i. bit ((bm @ [b]) ! (i div 8)) (i mod 8)) [0..<8 * length bm] =
      filter (\<lambda>i. bit (bm ! (i div 8)) (i mod 8)) [0..<8 * length bm]"
    by (rule filter_cong) (auto simp: nth_append less_mult_imp_div_less mult.commute)
  moreover have "filter (\<lambda>i. bit ((bm @ [b]) ! (i div 8)) (i mod 8)) [8 * length bm..<8 * length bm + 8] =
      filter (\<lambda>i. bit b (i mod 8)) [8 * length bm..<8 * length bm + 8]"
    by (rule filter_cong) (auto simp: nth_append less_mult_imp_div_less div_nat_eqI)
  ultimately show ?case using snoc by (simp add: selected_in_bits)
qed

lemma selected_indices_sorted:
  assumes "length bm \<le> 32"
  shows "map unat (selected_indices bm) = filter (\<lambda>i. bit (bm ! (i div 8)) (i mod 8)) [0..<8 * length bm]"
  unfolding selected_indices_upt map_map comp_def
  using assms by (intro map_idI) (auto simp: unsigned_of_nat take_bit_nat_eq_self_iff)

lemma selected_indices_iff:
  assumes "length bm \<le> 32"
  shows "i \<in> set (selected_indices bm) \<longleftrightarrow> selects bm i"
proof -
  have "i \<in> set (selected_indices bm) \<longleftrightarrow> unat i \<in> set (map unat (selected_indices bm))"
    by (auto simp flip: word_unat_eq_iff)
  then show ?thesis
    unfolding selected_indices_sorted [OF assms] by (auto simp: selects_def)
qed

lemma hash_of_alg_closed [closed_intros]: "fails_closed (hash_of_alg a)"
  unfolding hash_of_alg_def by (intro closed_intros)

lemma concat_selected_closed [closed_intros]: "fails_closed (concat_selected ps alg n is)"
proof (induction "is")
  case Nil
  then show ?case by (simp add: closed_intros)
next
  case (Cons i "is")
  then show ?case unfolding concat_selected.simps by (intro closed_intros)
qed

lemma read_quote_info_closed [closed_intros]: "fails_closed (read_quote_info s)"
  unfolding read_quote_info_def by (intro closed_intros)

lemma arms_closed [closed_intros]: "fails_closed (rsa_arm s)" "fails_closed (ecc_arm s)"
  unfolding rsa_arm_def ecc_arm_def by (intro closed_intros)+

lemma parse_ak_public_closed [closed_intros]: "fails_closed (parse_ak_public s)"
  unfolding parse_ak_public_def by (intro closed_intros)

lemma verify_keys_closed [closed_intros]:
  "fails_closed (verify_rsa L m e q sg)" "fails_closed (verify_ecdsa_p256 L x y q sg)"
  unfolding verify_rsa_def verify_ecdsa_p256_def Let_def by (intro closed_intros)+

lemma verify_pcr_binding_closed: "fails_closed (verify_pcr_binding h q ps)"
  unfolding verify_pcr_binding_def by (intro closed_intros)

lemma fails_closed_decides: "fails_closed m \<Longrightarrow> m = (if m = Inr () then Inr () else Inl VerificationFailed)"
  by (cases m) (auto simp: fails_closed_def)

lemma fails_closed_total: "fails_closed m \<Longrightarrow> (\<nexists>k. m = Inr k) \<longleftrightarrow> m = Inl VerificationFailed"
  by (cases m) (auto simp: fails_closed_def)

lemma verify_pcr_binding_iff:
  "verify_pcr_binding h q ps = Inr () \<longleftrightarrow> (\<exists>alg bm dg n kind cat.
     read_quote_info q = Inr (alg, bm, dg) \<and> hash_of_alg alg = Inr (n, kind) \<and>
     concat_selected ps alg n (selected_indices bm) = Inr cat \<and> h kind cat = dg)"
  by (auto simp: verify_pcr_binding_def rbind_eq_Inr split: if_splits prod.splits)

lemma concat_selected_drop:
  assumes "\<forall>i \<in> set is. \<not> is_pcr i alg f"
  shows "concat_selected (f # ps) alg n is = concat_selected ps alg n is"
  using assms
proof (induction "is")
  case Nil
  then show ?case by simp
next
  case (Cons i "is")
  then have "\<not> is_pcr i alg f" "concat_selected (f # ps) alg n is = concat_selected ps alg n is"
    by simp_all
  then show ?case by (simp only: concat_selected.simps find.simps if_False)
qed

lemma selected_concat_agree:
  assumes "concat_selected ps alg n is = Inr x" "concat_selected ps' alg n is = Inr x" "i \<in> set is"
  shows "submitted_digest ps alg i = submitted_digest ps' alg i"
proof -
  obtain ds ds' where ds: "map (submitted_digest ps alg) is = map Some ds" "\<forall>d \<in> set ds. length d = n"
      "map (submitted_digest ps' alg) is = map Some ds'" "\<forall>d \<in> set ds'. length d = n"
      "concat ds = concat ds'"
    using assms(1,2) unfolding concat_selected_iff by auto
  moreover have "length ds = length ds'" using ds(1,3) by (metis length_map)
  ultimately have "ds = ds'" using concat_same_width_inj by blast
  then show ?thesis using ds(1,3) assms(3) map_eq_conv by metis
qed

lemma policy_digest:
  assumes "verify_pcr_policy ps pol = Inr ()" "e \<in> set (expected_pcrs pol)" "pcr_hash_algorithm e = alg"
  shows "submitted_digest ps alg (pcr_index e) = Some (pcr_digest e)"
proof -
  have "register_ok ps e"
    using assms by (auto simp: verify_pcr_policy_def verify_pcrs_result list_all_iff split: if_splits)
  moreover have "same_register e = is_pcr (pcr_index e) alg"
    using assms by (auto simp: same_register_def is_pcr_def)
  ultimately show ?thesis by (auto simp: register_ok_def submitted_digest_def split: option.splits)
qed

text \<open>A concrete single-bank quote that selects register 7, for the applications below.\<close>

definition sample_quote :: bytes where
  "sample_quote = attest_bytes [] [0x07] (replicate 17 0) (replicate 8 0) TPM_ALG_SHA256 [0x80] (replicate 32 0xaa)"

definition sample_pcr :: "u8 \<Rightarrow> pcr_value" where
  "sample_pcr i = \<lparr>pcr_index = i, pcr_hash_algorithm = TPM_ALG_SHA256, pcr_digest = replicate 32 0xaa\<rparr>"

lemma sample_quote_read: "read_quote_info sample_quote = Inr (TPM_ALG_SHA256, [0x80], replicate 32 0xaa)"
  unfolding read_quote_info_iff sample_quote_def
  by (intro exI conjI, rule append_Nil2 [symmetric]) (simp_all add: small_def)

lemma sample_quote_selected: "selected_indices [0x80] = [7]" "filter (\<lambda>i. bit ([0x80 :: u8] ! (i div 8)) (i mod 8)) [0..<8] = [7]"
  by code_simp+

lemma sample_quote_bound: "verify_pcr_binding (\<lambda>_ c. c) sample_quote (sample_pcr 7 # ps) = Inr ()"
  by (simp add: verify_pcr_binding_def sample_quote_read sample_quote_selected hash_of_alg_def
      is_pcr_def sample_pcr_def)

section \<open>Properties\<close>

text \<open>C16. Parsing an attestation key accepts exactly the marshaled signing-only public areas: an
  RSA area (any scheme block, with the label of OAEP) or an ECC area (any scheme and KDF
  block, with the count of ECDAA), followed by anything. It returns the area's own
  modulus and exponent (0 standing for 65537) or its own coordinates; everything else is
  \<open>VerificationFailed\<close>.\<close>

theorem ak_public_parse_exact:
  "(parse_ak_public s = Inr ak \<longleftrightarrow>
     (\<exists>na attrs ap scheme h label kb e m r.
        s = rsa_public_bytes na attrs ap scheme h label kb e m @ r \<and>
        small ap \<and> small label \<and> small m \<and> ak = Rsa m (eff_exponent e)) \<or>
     (\<exists>na attrs ap scheme h count curve kdf kh x y r.
        s = ecc_public_bytes na attrs ap scheme h count curve kdf kh x y @ r \<and>
        small ap \<and> small x \<and> small y \<and> ak = Ecc x y)) \<and>
   ((\<nexists>k. parse_ak_public s = Inr k) \<longleftrightarrow> parse_ak_public s = Inl VerificationFailed)"
  using parse_ak_public_iff [of s ak] rsa_public_iff [of s ak] ecc_public_iff [of s ak]
    fails_closed_total [OF parse_ak_public_closed [of s]]
  by simp

text \<open>C1. The PCR binding succeeds exactly when the signed bytes are a single-bank quote with
  a supported hash, the submission holds a digest of that hash's size for every selected
  register, and the quote's digest is the hash of those digests in ascending order of the
  registers. Every other input gives \<open>VerificationFailed\<close>.\<close>

theorem pcr_binding_exact:
  "verify_pcr_binding hash_with q ps =
     (if \<exists>signer extra clock firmware alg bm dg r n kind ds.
           q = attest_bytes signer extra clock firmware alg bm dg @ r \<and>
           small signer \<and> small extra \<and> length clock = 17 \<and> length firmware = 8 \<and>
           1 \<le> length bm \<and> length bm \<le> 4 \<and> small dg \<and> hash_of_alg alg = Inr (n, kind) \<and>
           map (submitted_digest ps alg)
             (map word_of_nat (filter (\<lambda>i. bit (bm ! (i div 8)) (i mod 8)) [0..<8 * length bm])) = map Some ds \<and>
           (\<forall>d \<in> set ds. length d = n) \<and> hash_with kind (concat ds) = dg
      then Inr () else Inl VerificationFailed)"
proof -
  have "verify_pcr_binding hash_with q ps = Inr () \<longleftrightarrow>
      (\<exists>signer extra clock firmware alg bm dg r n kind ds.
           q = attest_bytes signer extra clock firmware alg bm dg @ r \<and>
           small signer \<and> small extra \<and> length clock = 17 \<and> length firmware = 8 \<and>
           1 \<le> length bm \<and> length bm \<le> 4 \<and> small dg \<and> hash_of_alg alg = Inr (n, kind) \<and>
           map (submitted_digest ps alg) (selected_indices bm) = map Some ds \<and>
           (\<forall>d \<in> set ds. length d = n) \<and> hash_with kind (concat ds) = dg)"
    unfolding verify_pcr_binding_iff read_quote_info_iff concat_selected_iff by blast
  then show ?thesis
    using fails_closed_decides [OF verify_pcr_binding_closed [of hash_with q ps]]
    unfolding selected_indices_upt by presburger
qed

theorem pcr_binding_exact_witness:
  "verify_pcr_binding (\<lambda>_ c. c) sample_quote [sample_pcr 7] = Inr ()"
  unfolding pcr_binding_exact
  by (rule if_P, rule exI [of _ "[]"], rule exI [of _ "[0x07]"], rule exI [of _ "replicate 17 0"],
      rule exI [of _ "replicate 8 0"], rule exI [of _ TPM_ALG_SHA256], rule exI [of _ "[0x80]"],
      rule exI [of _ "replicate 32 0xaa"], rule exI [of _ "[]"], rule exI [of _ 32], rule exI [of _ Sha256],
      rule exI [of _ "[replicate 32 0xaa]"])
    (simp add: sample_quote_def sample_quote_selected small_def hash_of_alg_def submitted_digest_def
      is_pcr_def sample_pcr_def)

text \<open>C13. A quote commits to the selected registers: two submissions accepted for the same
  signed bytes hold the same digest for every register the quote selects, unless the
  hash function collides on the two concatenations that were hashed.\<close>

theorem pcr_binding_commits:
  assumes "verify_pcr_binding hash_with q ps = Inr ()" "verify_pcr_binding hash_with q ps' = Inr ()"
  shows "\<exists>alg bm dg n kind x y. read_quote_info q = Inr (alg, bm, dg) \<and> hash_of_alg alg = Inr (n, kind) \<and>
     concat_selected ps alg n (selected_indices bm) = Inr x \<and>
     concat_selected ps' alg n (selected_indices bm) = Inr y \<and>
     ((\<forall>i. selects bm i \<longrightarrow> submitted_digest ps alg i = submitted_digest ps' alg i) \<or>
      x \<noteq> y \<and> hash_with kind x = hash_with kind y)"
proof -
  obtain alg bm dg n kind x y where r: "read_quote_info q = Inr (alg, bm, dg)"
      "hash_of_alg alg = Inr (n, kind)" "concat_selected ps alg n (selected_indices bm) = Inr x"
      "concat_selected ps' alg n (selected_indices bm) = Inr y" "hash_with kind x = hash_with kind y"
    using assms unfolding verify_pcr_binding_iff by auto
  moreover have "length bm \<le> 32" using r(1) unfolding read_quote_info_iff by auto
  then have "x = y \<Longrightarrow> \<forall>i. selects bm i \<longrightarrow> submitted_digest ps alg i = submitted_digest ps' alg i"
    using selected_concat_agree r(3,4) selected_indices_iff by blast
  ultimately show ?thesis by blast
qed

theorem pcr_binding_commits_witness:
  "\<exists>alg bm dg n kind x y. read_quote_info sample_quote = Inr (alg, bm, dg) \<and> hash_of_alg alg = Inr (n, kind) \<and>
     concat_selected [sample_pcr 7] alg n (selected_indices bm) = Inr x \<and>
     concat_selected [sample_pcr 7, sample_pcr 3] alg n (selected_indices bm) = Inr y \<and>
     ((\<forall>i. selects bm i \<longrightarrow> submitted_digest [sample_pcr 7] alg i = submitted_digest [sample_pcr 7, sample_pcr 3] alg i) \<or>
      x \<noteq> y \<and> (\<lambda>_ c. c) kind x = y)"
  using pcr_binding_commits [OF sample_quote_bound [of "[]"] sample_quote_bound [of "[sample_pcr 3]"]] .

text \<open>C35. What a quote does not select it does not attest. A register the quote does not
  select can be put in front of an accepted submission with any digest: the binding
  answers the same, and a policy that mandates that digest is satisfied. A mandated
  register that is selected is attested: when policy and binding both pass, the quote's
  digest is the hash of a list of digests that holds the mandated one at that register.\<close>

theorem unselected_register_is_unattested:
  assumes "read_quote_info q = Inr (alg, bm, dg)"
  shows "(\<not> selects bm (pcr_index f) \<longrightarrow>
       verify_pcr_binding hash_with q (f # ps) = verify_pcr_binding hash_with q ps \<and>
       verify_pcr_policy (f # ps) \<lparr>expected_pcrs = [f]\<rparr> = Inr ()) \<and>
     (verify_pcr_binding hash_with q ps = Inr () \<longrightarrow> verify_pcr_policy ps pol = Inr () \<longrightarrow>
       e \<in> set (expected_pcrs pol) \<longrightarrow> pcr_hash_algorithm e = alg \<longrightarrow> selects bm (pcr_index e) \<longrightarrow>
       (\<exists>n kind ds k. hash_of_alg alg = Inr (n, kind) \<and> hash_with kind (concat ds) = dg \<and>
          length ds = length (selected_indices bm) \<and> k < length ds \<and>
          selected_indices bm ! k = pcr_index e \<and> ds ! k = pcr_digest e))"
proof (intro conjI impI)
  have bm: "length bm \<le> 32" using assms unfolding read_quote_info_iff by auto
  {
    assume "\<not> selects bm (pcr_index f)"
    with bm have "\<forall>i \<in> set (selected_indices bm). \<not> is_pcr i alg f"
      by (auto simp: selected_indices_iff is_pcr_def)
    then have "concat_selected (f # ps) alg n (selected_indices bm) =
        concat_selected ps alg n (selected_indices bm)" for n
      by (rule concat_selected_drop)
    then show "verify_pcr_binding hash_with q (f # ps) = verify_pcr_binding hash_with q ps"
      by (simp add: verify_pcr_binding_def assms)
    show "verify_pcr_policy (f # ps) \<lparr>expected_pcrs = [f]\<rparr> = Inr ()"
      by (simp add: verify_pcr_policy_def same_register_def)
  next
    assume b: "verify_pcr_binding hash_with q ps = Inr ()"
      and p: "verify_pcr_policy ps pol = Inr ()" "e \<in> set (expected_pcrs pol)" "pcr_hash_algorithm e = alg"
      and "selects bm (pcr_index e)"
    then have "pcr_index e \<in> set (selected_indices bm)" using bm selected_indices_iff by blast
    then obtain k where k: "k < length (selected_indices bm)" "selected_indices bm ! k = pcr_index e"
      by (metis in_set_conv_nth)
    obtain n kind ds where d: "hash_of_alg alg = Inr (n, kind)" "hash_with kind (concat ds) = dg"
        "map (submitted_digest ps alg) (selected_indices bm) = map Some ds"
      using b assms unfolding verify_pcr_binding_iff concat_selected_iff by auto
    then have len: "length ds = length (selected_indices bm)" by (metis length_map)
    then have "Some (ds ! k) = submitted_digest ps alg (pcr_index e)"
      using d(3) k by (metis nth_map)
    also have "\<dots> = Some (pcr_digest e)" using p by (rule policy_digest)
    finally show "\<exists>n kind ds k. hash_of_alg alg = Inr (n, kind) \<and> hash_with kind (concat ds) = dg \<and>
          length ds = length (selected_indices bm) \<and> k < length ds \<and>
          selected_indices bm ! k = pcr_index e \<and> ds ! k = pcr_digest e"
      using d len k by (intro exI [of _ n] exI [of _ kind] exI [of _ ds] exI [of _ k]) simp
  }
qed

theorem unselected_register_is_unattested_witness:
  "verify_pcr_binding (\<lambda>_ c. c) sample_quote (sample_pcr 0 # [sample_pcr 7]) = Inr () \<and>
   verify_pcr_policy (sample_pcr 0 # [sample_pcr 7]) \<lparr>expected_pcrs = [sample_pcr 0]\<rparr> = Inr ()"
proof -
  have "\<not> selects [0x80] (pcr_index (sample_pcr 0))" by (simp add: selects_def sample_pcr_def)
  then show ?thesis
    using unselected_register_is_unattested [OF sample_quote_read, where f = "sample_pcr 0"] sample_quote_bound
    by simp
qed

text \<open>C36. The nonce is compared with a field of the submission, and with nothing that is signed.
  Take a submission accepted for a nonce by the structural check, whose signed bytes pass the
  PCR binding: they are a quote structure with some \<open>extraData\<close>. As it stands the submission
  is refused for every other nonce. But with its nonce field rewritten to a fresh nonce it is
  accepted for the fresh nonce (and refused for the old one), while the signed bytes, their
  \<open>extraData\<close>, the verdict on the signature and the PCR binding are what they were.\<close>

theorem rewritten_nonce_replays_a_quote:
  assumes "verify_quote_structure q n = Inr ()" "verify_pcr_binding hash_with (tq_quote_bytes q) ps = Inr ()"
    and "fresh \<noteq> n" "q' = q\<lparr>tq_nonce := fresh\<rparr>"
  shows "verify_quote_structure q fresh = Inl VerificationFailed \<and>
    verify_quote_structure q' fresh = Inr () \<and> verify_quote_structure q' n = Inl VerificationFailed \<and>
    verify_quote_signature L q' = verify_quote_signature L q \<and>
    verify_pcr_binding hash_with (tq_quote_bytes q') ps = Inr () \<and>
    (\<exists>signer extra clock firmware alg bm dg r.
       tq_quote_bytes q = attest_bytes signer extra clock firmware alg bm dg @ r \<and>
       tq_quote_bytes q' = attest_bytes signer extra clock firmware alg bm dg @ r)"
proof (intro conjI)
  have s: "tq_nonce q = n" "\<not> length (tq_quote_bytes q) < length TPM_GENERATED_MAGIC"
    "take (length TPM_GENERATED_MAGIC) (tq_quote_bytes q) = TPM_GENERATED_MAGIC" "tq_signature q \<noteq> []"
    using assms(1) by (auto simp: verify_quote_structure_def split: if_splits)
  show "verify_quote_structure q fresh = Inl VerificationFailed" "verify_quote_structure q' fresh = Inr ()"
    "verify_quote_structure q' n = Inl VerificationFailed"
    using s assms(3,4) by (simp_all add: verify_quote_structure_def)
  have f: "tq_quote_bytes q' = tq_quote_bytes q" "tq_signature q' = tq_signature q"
    "tq_attestation_key_pub q' = tq_attestation_key_pub q" using assms(4) by simp_all
  show "verify_quote_signature L q' = verify_quote_signature L q" unfolding verify_quote_signature_def f ..
  show "verify_pcr_binding hash_with (tq_quote_bytes q') ps = Inr ()" unfolding f by (rule assms(2))
  obtain signer extra clock firmware alg bm dg r where
    "tq_quote_bytes q = attest_bytes signer extra clock firmware alg bm dg @ r"
    using assms(2) unfolding verify_pcr_binding_iff read_quote_info_iff by blast
  moreover from this have "tq_quote_bytes q' = attest_bytes signer extra clock firmware alg bm dg @ r"
    unfolding f .
  ultimately show "\<exists>signer extra clock firmware alg bm dg r.
       tq_quote_bytes q = attest_bytes signer extra clock firmware alg bm dg @ r \<and>
       tq_quote_bytes q' = attest_bytes signer extra clock firmware alg bm dg @ r" by blast
qed

definition sample_submission :: tpm_quote where
  "sample_submission = \<lparr>tq_quote_bytes = sample_quote, tq_signature = [1], tq_nonce = [0x07], tq_pcr_selection = [sample_pcr 7],
     tq_attestation_key_pub = []\<rparr>"

theorem rewritten_nonce_replays_a_quote_witness:
  "verify_quote_structure sample_submission [0x09] = Inl VerificationFailed \<and>
   verify_quote_structure (sample_submission\<lparr>tq_nonce := [0x09]\<rparr>) [0x09] = Inr () \<and>
   verify_pcr_binding (\<lambda>_ c. c) (tq_quote_bytes (sample_submission\<lparr>tq_nonce := [0x09]\<rparr>)) [sample_pcr 7] = Inr ()"
proof -
  have "verify_quote_structure sample_submission [0x07] = Inr ()"
    by (simp add: verify_quote_structure_def sample_submission_def sample_quote_def attest_bytes_def TPM_GENERATED_MAGIC_def)
  moreover have "verify_pcr_binding (\<lambda>_ c. c) (tq_quote_bytes sample_submission) [sample_pcr 7] = Inr ()"
    using sample_quote_bound by (simp add: sample_submission_def)
  ultimately show ?thesis
    using rewritten_nonce_replays_a_quote [of sample_submission "[0x07]" "\<lambda>_ c. c" "[sample_pcr 7]" "[0x09]" _ undefined, OF _ _ _ refl] by auto
qed

text \<open>C34. The signature check accepts exactly when the key area parses and the library
  accepts the signature over the signed bytes under that key (the RSA key built from the
  modulus and the exponent, the P-256 key from the uncompressed point); every other
  input is \<open>VerificationFailed\<close>, whatever the library does.\<close>

theorem quote_signature_exact:
  "verify_quote_signature L quote =
     (if (\<exists>m e k sg. parse_ak_public (tq_attestation_key_pub quote) = Inr (Rsa m e) \<and>
            rsa_public_key_new L (be_nat m) (unat e) = Some k \<and>
            rsa_signature_try_from L (tq_signature quote) = Some sg \<and> rsa_verify L k (tq_quote_bytes quote) sg) \<or>
         (\<exists>x y k sg. parse_ak_public (tq_attestation_key_pub quote) = Inr (Ecc x y) \<and>
            p256_from_sec1_bytes L (0x04 # x @ y) = Some k \<and>
            p256_signature_from_slice L (tq_signature quote) = Some sg \<and> p256_verify L k (tq_quote_bytes quote) sg)
      then Inr () else Inl VerificationFailed)"
proof (cases "parse_ak_public (tq_attestation_key_pub quote)")
  case (Inl e)
  then have "e = VerificationFailed" using fails_closedD [OF parse_ak_public_closed] by blast
  then show ?thesis using Inl by (simp add: verify_quote_signature_def)
next
  case (Inr ak)
  show ?thesis
  proof (cases ak)
    case (Rsa m e)
    then show ?thesis using Inr
      by (auto simp: verify_quote_signature_def verify_rsa_def rbind_def ok_or_def split: option.splits)
  next
    case (Ecc x y)
    then show ?thesis using Inr
      by (auto simp: verify_quote_signature_def verify_ecdsa_p256_def rbind_def ok_or_def split: option.splits)
  qed
qed

end
