(* ===== verification/Identity_Hash.thy ===== *)
theory Identity_Hash
  imports Hex_Id Spiffe_Id
begin

text \<open>
  Identity fingerprints (\<open>hash.rs\<close>): the byte layouts fed to the hasher by
  \<open>IdentityFingerprint::of\<close> and \<open>of_with_ordinal\<close>, the truncated hash over them, and
  the order. Both layouts are interpreted as \<open>content_id\<close>. \<open>blake3\<close> is a parameter.
\<close>

datatype identity_fingerprint = IdentityFingerprint (fingerprint_bytes: bytes)

definition role_bytes :: "workload_role option \<Rightarrow> bytes" where
  "role_bytes role = (case role of None \<Rightarrow> [] | Some r \<Rightarrow> as_bytes (role_as_str r))"

definition ordinal_bytes :: "u32 option \<Rightarrow> bytes" where
  "ordinal_bytes ordinal = (case ordinal of None \<Rightarrow> [] | Some o' \<Rightarrow> le_bytes 4 o')"

text \<open>The hasher's input after the last \<open>update\<close>, from the empty one of \<open>Hasher::new\<close>.\<close>

definition of_preimage :: "spiffe_id \<times> workload_role option \<Rightarrow> bytes" where
  "of_preimage = (\<lambda>(id, role).
     let hasher = write_uri_bytes id [];
         hasher = hasher @ [0x00];
         hasher = hasher @ role_bytes role
     in hasher)"

definition of_with_ordinal_preimage :: "spiffe_id \<times> workload_role option \<times> u32 option \<Rightarrow> bytes" where
  "of_with_ordinal_preimage = (\<lambda>(id, role, ordinal).
     let hasher = write_uri_bytes id [];
         hasher = hasher @ [0x00];
         hasher = hasher @ role_bytes role;
         hasher = hasher @ [0x00];
         hasher = hasher @ ordinal_bytes ordinal
     in hasher)"

definition IdentityFingerprint_of ::
    "(bytes \<Rightarrow> bytes) \<Rightarrow> spiffe_id \<times> workload_role option \<Rightarrow> identity_fingerprint" where
  "IdentityFingerprint_of blake3 c = IdentityFingerprint (trunc16 blake3 (of_preimage c))"

definition of_with_ordinal ::
    "(bytes \<Rightarrow> bytes) \<Rightarrow> spiffe_id \<times> workload_role option \<times> u32 option \<Rightarrow> identity_fingerprint" where
  "of_with_ordinal blake3 c = IdentityFingerprint (trunc16 blake3 (of_with_ordinal_preimage c))"

definition IdentityFingerprint_cmp :: "identity_fingerprint \<Rightarrow> identity_fingerprint \<Rightarrow> ordering" where
  "IdentityFingerprint_cmp self other = cmp (fingerprint_bytes self) (fingerprint_bytes other)"

section \<open>What a fingerprint identifies\<close>

text \<open>
  The identities of the wire: parseable, with no NUL byte in any field. An absent role
  and the empty role share a layout, so the canonical content holds the role's text.
\<close>

definition wire_id :: "spiffe_id \<Rightarrow> bool" where
  "wire_id i \<longleftrightarrow> spiffe_wf i \<and> CHR 0x00 \<notin> set (SpiffeId_to_string i)"

definition role_opt_wf :: "workload_role option \<Rightarrow> bool" where
  "role_opt_wf role \<longleftrightarrow> (case role of None \<Rightarrow> True | Some r \<Rightarrow> role_wf r)"

definition role_text :: "workload_role option \<Rightarrow> string" where
  "role_text role = (case role of None \<Rightarrow> [] | Some r \<Rightarrow> role_as_str r)"

lemma role_bytes_text: "role_bytes role = as_bytes (role_text role)"
  by (cases role) (simp_all add: role_bytes_def role_text_def)

lemma role_opt_wf_iff: "role_opt_wf role \<longleftrightarrow> CHR 0x00 \<notin> set (role_text role)"
  by (cases role) (simp_all add: role_opt_wf_def role_text_def role_wf_def)

lemma of_preimage_eq:
  "of_preimage (i, role) = as_bytes (SpiffeId_to_string i) @ 0 # as_bytes (role_text role)"
  by (simp add: of_preimage_def write_uri_bytes_to_string role_bytes_text)

lemma of_with_ordinal_preimage_eq:
  "of_with_ordinal_preimage (i, role, n) =
     as_bytes (SpiffeId_to_string i) @ 0 # as_bytes (role_text role) @ 0 # ordinal_bytes n"
  by (simp add: of_with_ordinal_preimage_def write_uri_bytes_to_string role_bytes_text)

lemma ordinal_bytes_inj: "ordinal_bytes a = ordinal_bytes b \<longleftrightarrow> a = b"
  by (cases a; cases b)
    (auto simp: ordinal_bytes_def dest: arg_cong [where f = length])

interpretation id_fp: content_id IdentityFingerprint of_preimage IdentityFingerprint_of
    "\<lambda>(i, role). (i, role_text role)" "\<lambda>(i, role). wire_id i \<and> role_opt_wf role"
proof unfold_locales
  fix c d :: "spiffe_id \<times> workload_role option"
  assume "(\<lambda>(i, role). wire_id i \<and> role_opt_wf role) c" "(\<lambda>(i, role). wire_id i \<and> role_opt_wf role) d"
  moreover obtain i r j q where "c = (i, r)" "d = (j, q)" by (cases c; cases d)
  ultimately show "of_preimage c = of_preimage d \<longleftrightarrow>
      (\<lambda>(i, role). (i, role_text role)) c = (\<lambda>(i, role). (i, role_text role)) d"
    by (auto simp: of_preimage_eq sep_cancel wire_id_def to_string_inj)
qed (simp_all add: IdentityFingerprint_of_def)

interpretation ord_fp: content_id IdentityFingerprint of_with_ordinal_preimage of_with_ordinal
    "\<lambda>(i, role, n). (i, role_text role, n)" "\<lambda>(i, role, n). wire_id i \<and> role_opt_wf role"
proof unfold_locales
  fix c d :: "spiffe_id \<times> workload_role option \<times> u32 option"
  assume "(\<lambda>(i, role, n). wire_id i \<and> role_opt_wf role) c" "(\<lambda>(i, role, n). wire_id i \<and> role_opt_wf role) d"
  moreover obtain i r n j q m where "c = (i, r, n)" "d = (j, q, m)" by (cases c; cases d)
  ultimately show "of_with_ordinal_preimage c = of_with_ordinal_preimage d \<longleftrightarrow>
      (\<lambda>(i, role, n). (i, role_text role, n)) c = (\<lambda>(i, role, n). (i, role_text role, n)) d"
    by (auto simp: of_with_ordinal_preimage_eq sep_cancel wire_id_def role_opt_wf_iff to_string_inj
        ordinal_bytes_inj)
qed (simp_all add: of_with_ordinal_def)

section \<open>Properties\<close>

text \<open>C23. Fingerprints separate identities: for wire identities and valid roles two
  fingerprints agree only for the same identity and role text, and two per-instance
  fingerprints only for the same identity, role text and ordinal, unless the truncated
  hash collides on the two layouts at hand. The two layouts never coincide, whatever the
  ordinal, so a per-instance fingerprint never stands for a role-wide one.\<close>

theorem fingerprints_separate_identities:
  assumes "wire_id i" "wire_id j" "role_opt_wf r" "role_opt_wf q"
  shows "(IdentityFingerprint_of H (i, r) = IdentityFingerprint_of H (j, q) \<longleftrightarrow>
       i = j \<and> role_text r = role_text q \<or> collides H (of_preimage (i, r)) (of_preimage (j, q))) \<and>
     (of_with_ordinal H (i, r, n) = of_with_ordinal H (j, q, m) \<longleftrightarrow>
       i = j \<and> role_text r = role_text q \<and> n = m \<or>
       collides H (of_with_ordinal_preimage (i, r, n)) (of_with_ordinal_preimage (j, q, m))) \<and>
     of_preimage (i, r) \<noteq> of_with_ordinal_preimage (j, q, m)"
proof (intro conjI)
  show "of_preimage (i, r) \<noteq> of_with_ordinal_preimage (j, q, m)"
  proof
    assume "of_preimage (i, r) = of_with_ordinal_preimage (j, q, m)"
    then have "as_bytes (role_text r) = as_bytes (role_text q) @ 0 # ordinal_bytes m"
      using assms by (simp add: of_preimage_eq of_with_ordinal_preimage_eq sep_cancel wire_id_def)
    then have "0 \<in> set (as_bytes (role_text r))" by simp
    then show False using assms by (simp add: role_opt_wf_iff)
  qed
qed (use assms id_fp.ident_eq_iff [of "(i, r)" "(j, q)" H] ord_fp.ident_eq_iff [of "(i, r, n)" "(j, q, m)" H]
  in simp_all)

theorem fingerprints_separate_identities_witness:
  "IdentityFingerprint_of (\<lambda>x. rev x) (SpiffeId_new ''a'' ''t'' Sa ''x'', None) \<noteq>
     IdentityFingerprint_of (\<lambda>x. rev x) (SpiffeId_new ''a'' ''t'' Sa ''y'', None)"
proof -
  have "wire_id (SpiffeId_new ''a'' ''t'' Sa ''x'')" "wire_id (SpiffeId_new ''a'' ''t'' Sa ''y'')"
    by code_simp+
  moreover have "\<not> collides (\<lambda>x. rev x) (of_preimage (SpiffeId_new ''a'' ''t'' Sa ''x'', None))
      (of_preimage (SpiffeId_new ''a'' ''t'' Sa ''y'', None))"
    by code_simp
  ultimately show ?thesis
    using fingerprints_separate_identities [of "SpiffeId_new ''a'' ''t'' Sa ''x''" "SpiffeId_new ''a'' ''t'' Sa ''y''"
      None None "\<lambda>x. rev x"]
    by (simp add: role_opt_wf_def SpiffeId_new_def)
qed

end
