(* ===== verification/Policy_Sag.thy ===== *)
theory Policy_Sag
  imports Identity_Hash
begin

text \<open>
  The service authorization graph (\<open>policy.rs\<close>): patterns, selectors, rules, the builder
  that scopes a rule to a tenant, and the content-derived rule identifier with its hex
  form. The identifier's layout is interpreted as \<open>content_id\<close> for rules that agree on
  which ports are present; the last section shows what happens without that agreement.
\<close>

section \<open>Data\<close>

record service_pattern =
  sp_tenant :: tenant_id
  sp_name :: string

record peer_selector =
  ps_service :: service_pattern
  ps_role :: "workload_role option"
  ps_port :: "u16 option"

datatype sag_rule_id = SagRuleId (SagRuleId_as_bytes: bytes)

datatype sag_action = Allow | Deny

record sag_rule =
  sr_id :: sag_rule_id
  sr_from :: peer_selector
  sr_to :: peer_selector
  sr_action :: sag_action

record service_authorization_graph =
  sag_version :: monotonic_version
  sag_rules :: "sag_rule list"

definition ServiceAuthorizationGraph_default :: service_authorization_graph where
  "ServiceAuthorizationGraph_default = \<lparr>sag_version = MonotonicVersion_default, sag_rules = []\<rparr>"

section \<open>Rule identifiers\<close>

text \<open>The arguments of \<open>of_rule\<close>, in its order.\<close>

record rule_args =
  ra_tenant :: string
  ra_from_service :: string
  ra_from_role :: "workload_role option"
  ra_from_port :: "u16 option"
  ra_to_service :: string
  ra_to_role :: "workload_role option"
  ra_to_port :: "u16 option"
  ra_action :: string

definition port_bytes :: "u16 option \<Rightarrow> bytes" where
  "port_bytes port = (case port of None \<Rightarrow> [] | Some p \<Rightarrow> be_bytes 2 p)"

definition rule_preimage :: "rule_args \<Rightarrow> bytes" where
  "rule_preimage a =
     (let hasher = as_bytes (ra_tenant a) @ [0x00];
          hasher = hasher @ as_bytes (ra_from_service a) @ [0x00];
          hasher = hasher @ role_bytes (ra_from_role a) @ [0x00];
          hasher = hasher @ port_bytes (ra_from_port a) @ [0x00];
          hasher = hasher @ as_bytes (ra_to_service a) @ [0x00];
          hasher = hasher @ role_bytes (ra_to_role a) @ [0x00];
          hasher = hasher @ port_bytes (ra_to_port a) @ [0x00]
      in hasher @ as_bytes (ra_action a))"

definition of_rule :: "(bytes \<Rightarrow> bytes) \<Rightarrow> rule_args \<Rightarrow> sag_rule_id" where
  "of_rule blake3 a = SagRuleId (trunc16 blake3 (rule_preimage a))"

definition SagRuleId_to_hex :: "sag_rule_id \<Rightarrow> string" where
  "SagRuleId_to_hex self = hex_encode (SagRuleId_as_bytes self)"

definition SagRuleId_from_hex :: "string \<Rightarrow> sag_rule_id option" where
  "SagRuleId_from_hex s = map_option SagRuleId (hex_decode16 s)"

section \<open>The builder\<close>




fun action_str :: "sag_action \<Rightarrow> string" where
  "action_str Allow = ''ALLOW''"
| "action_str Deny = ''DENY''"


section \<open>What a rule identifier identifies\<close>

definition rule_args_wf :: "rule_args \<Rightarrow> bool" where
  "rule_args_wf a \<longleftrightarrow> CHR 0x00 \<notin> set (ra_tenant a) \<and> CHR 0x00 \<notin> set (ra_from_service a) \<and>
     CHR 0x00 \<notin> set (ra_to_service a) \<and> role_opt_wf (ra_from_role a) \<and> role_opt_wf (ra_to_role a)"

definition rule_content ::
    "rule_args \<Rightarrow> (string \<times> string \<times> string \<times> u16 option) \<times> (string \<times> string \<times> u16 option) \<times> string" where
  "rule_content a =
     ((ra_tenant a, ra_from_service a, role_text (ra_from_role a), ra_from_port a),
      (ra_to_service a, role_text (ra_to_role a), ra_to_port a), ra_action a)"

text \<open>Which of the two ports are present.\<close>

definition port_shape :: "rule_args \<Rightarrow> bool \<times> bool" where
  "port_shape a = (ra_from_port a \<noteq> None, ra_to_port a \<noteq> None)"

lemma port_bytes_cancel:
  "(p \<noteq> None) = (q \<noteq> None) \<Longrightarrow> port_bytes p @ r = port_bytes q @ s \<longleftrightarrow> p = q \<and> r = s"
  by (cases p; cases q) (simp_all add: port_bytes_def)

lemma rule_preimage_eq:
  "rule_preimage a = as_bytes (ra_tenant a) @ 0 # as_bytes (ra_from_service a) @ 0 #
     as_bytes (role_text (ra_from_role a)) @ 0 # port_bytes (ra_from_port a) @ 0 #
     as_bytes (ra_to_service a) @ 0 # as_bytes (role_text (ra_to_role a)) @ 0 #
     port_bytes (ra_to_port a) @ 0 # as_bytes (ra_action a)"
  by (simp add: rule_preimage_def role_bytes_text)

lemma rule_preimage_inj:
  assumes "rule_args_wf a" "rule_args_wf b" "port_shape a = port_shape b"
  shows "rule_preimage a = rule_preimage b \<longleftrightarrow> rule_content a = rule_content b"
  using assms
  by (auto simp: rule_preimage_eq rule_content_def rule_args_wf_def port_shape_def sep_cancel
      role_opt_wf_iff port_bytes_cancel)

interpretation sag_id: content_id SagRuleId rule_preimage of_rule rule_content
    "\<lambda>a. rule_args_wf a \<and> port_shape a = shape" for shape
  by unfold_locales (auto simp: of_rule_def rule_preimage_inj)

interpretation sag_hex: hex_id SagRuleId SagRuleId_as_bytes SagRuleId_to_hex SagRuleId_from_hex
  by unfold_locales (simp_all add: SagRuleId_to_hex_def SagRuleId_from_hex_def)

section \<open>Properties\<close>

text \<open>C21. Among rules with valid names and roles that name the same ports, a rule identifier
  reflects the full content: two agree only for the same tenant, services, role texts,
  ports and action, unless the truncated hash collides on the two layouts. And the hex
  form of an identifier of a 32-byte hash parses back to it.\<close>

theorem rule_id_reflects_content:
  assumes "rule_args_wf a" "rule_args_wf b" "port_shape a = port_shape b" "hash32 H"
  shows "(of_rule H a = of_rule H b \<longleftrightarrow>
       rule_content a = rule_content b \<or> collides H (rule_preimage a) (rule_preimage b)) \<and>
     SagRuleId_from_hex (SagRuleId_to_hex (of_rule H a)) = Some (of_rule H a)"
proof
  show "of_rule H a = of_rule H b \<longleftrightarrow>
      rule_content a = rule_content b \<or> collides H (rule_preimage a) (rule_preimage b)"
    using assms sag_id.ident_eq_iff by blast
  show "SagRuleId_from_hex (SagRuleId_to_hex (of_rule H a)) = Some (of_rule H a)"
    using assms by (intro sag_hex.hex_roundtrip) (simp add: of_rule_def)
qed

theorem rule_id_reflects_content_witness:
  "SagRuleId_from_hex (SagRuleId_to_hex (of_rule (\<lambda>_. replicate 32 7)
     \<lparr>ra_tenant = ''t'', ra_from_service = ''web'', ra_from_role = None, ra_from_port = None,
      ra_to_service = ''db'', ra_to_role = None, ra_to_port = Some 5432, ra_action = ''ALLOW''\<rparr>)) =
   Some (SagRuleId (replicate 16 7))"
proof -
  let ?a = "\<lparr>ra_tenant = ''t'', ra_from_service = ''web'', ra_from_role = None, ra_from_port = None,
      ra_to_service = ''db'', ra_to_role = None, ra_to_port = Some 5432, ra_action = ''ALLOW''\<rparr>"
  have "rule_args_wf ?a" by (simp add: rule_args_wf_def role_opt_wf_def)
  then show ?thesis
    using rule_id_reflects_content [of ?a ?a "\<lambda>_. replicate 32 7"]
    by (simp add: hash32_def of_rule_def trunc16_def)
qed

text \<open>C22. Across port shapes the layout is ambiguous, because a port is two raw bytes that
  may be zero: a rule from port 80 to a service with a one-byte role and no port has the
  same layout, hence the same identifier for every hash function, as a rule with no from
  port whose target service is the single letter \<open>P\<close>, whose target role is the first
  rule's service and whose target port is the role's byte followed by zero. An absent role
  and an empty role coincide as well.\<close>

theorem rule_id_port_collision:
  "of_rule H \<lparr>ra_tenant = t, ra_from_service = s, ra_from_role = r, ra_from_port = Some 0x0050,
     ra_to_service = n, ra_to_role = Some (WorkloadRole [q]), ra_to_port = None, ra_action = act\<rparr> =
   of_rule H \<lparr>ra_tenant = t, ra_from_service = s, ra_from_role = r, ra_from_port = None,
     ra_to_service = ''P'', ra_to_role = Some (WorkloadRole n),
     ra_to_port = Some (push_bit 8 (ucast (byte_of_char q))), ra_action = act\<rparr> \<and>
   of_rule H (a\<lparr>ra_to_role := None\<rparr>) = of_rule H (a\<lparr>ra_to_role := Some (WorkloadRole [])\<rparr>)"
proof -
  have "ucast (push_bit 8 (ucast (byte_of_char q)) :: u16) = (0 :: u8)"
    "ucast (drop_bit 8 (push_bit 8 (ucast (byte_of_char q)) :: u16)) = byte_of_char q"
    by (rule bit_word_eqI; auto simp: bit_simps dest: bit_imp_le_length)+
  moreover have "as_bytes ''P'' = [0x50]" by (simp add: as_bytes_Cons byte_of_char_def)
  ultimately show ?thesis
    by (simp add: of_rule_def rule_preimage_def role_bytes_def port_bytes_def be_bytes_2 as_bytes_Cons)
qed







lemma action_str_inj [simp]: "action_str a = action_str b \<longleftrightarrow> a = b"
  by (cases a; cases b) simp_all








end
