(* ===== verification/Operator_Grant.thy ===== *)
theory Operator_Grant
  imports Hex_Id
begin

text \<open>
  Operator access grants (\<open>operator.rs\<close>): the canonical layout of a grant, its identifier
  and the hex form. The layout sorts and deduplicates the tenants, so it is interpreted as
  \<open>content_id\<close> with the tenants' set as content.
\<close>

datatype operator_grant_id = OperatorGrantId (OperatorGrantId_as_bytes: bytes)

text \<open>The arguments of \<open>of_grant\<close>, in its order.\<close>

record grant_args =
  ga_operator_id :: string
  ga_granted_by :: string
  ga_granted_at_unix :: u64
  ga_expires_at_unix :: u64
  ga_cluster_admin :: bool
  ga_read_only :: bool
  ga_tenants :: "string list"

definition u8_from :: "bool \<Rightarrow> u8" where
  "u8_from b = (if b then 1 else 0)"

text \<open>\<open>sort_unstable\<close> orders strings byte by byte; \<open>dedup\<close> drops consecutive repetitions.\<close>

definition canonical_tenants :: "string list \<Rightarrow> string list" where
  "canonical_tenants tenants = remdups_adj (sort tenants)"

text \<open>The loop that feeds the tenants, with a separator before all but the first.\<close>

fun feed_tenants :: "nat \<Rightarrow> string list \<Rightarrow> bytes \<Rightarrow> bytes" where
  "feed_tenants i [] hasher = hasher"
| "feed_tenants i (tenant # rest) hasher =
     feed_tenants (i + 1) rest ((if i > 0 then hasher @ [0x00] else hasher) @ as_bytes tenant)"

definition grant_preimage :: "grant_args \<Rightarrow> bytes" where
  "grant_preimage a =
     (let hasher = as_bytes ''FleetOS v1 OperatorGrantId'' @ [0x00];
          hasher = hasher @ as_bytes (ga_operator_id a) @ [0x00];
          hasher = hasher @ as_bytes (ga_granted_by a) @ [0x00];
          hasher = hasher @ le_bytes 8 (ga_granted_at_unix a) @ [0x00];
          hasher = hasher @ le_bytes 8 (ga_expires_at_unix a) @ [0x00];
          hasher = hasher @ [u8_from (ga_cluster_admin a)] @ [0x00];
          hasher = hasher @ [u8_from (ga_read_only a)] @ [0x00]
      in feed_tenants 0 (canonical_tenants (ga_tenants a)) hasher)"

definition of_grant :: "(bytes \<Rightarrow> bytes) \<Rightarrow> grant_args \<Rightarrow> operator_grant_id" where
  "of_grant blake3 a = OperatorGrantId (trunc16 blake3 (grant_preimage a))"

definition OperatorGrantId_to_hex :: "operator_grant_id \<Rightarrow> string" where
  "OperatorGrantId_to_hex self = hex_encode (OperatorGrantId_as_bytes self)"

definition OperatorGrantId_from_hex :: "string \<Rightarrow> operator_grant_id option" where
  "OperatorGrantId_from_hex s = map_option OperatorGrantId (hex_decode16 s)"

definition OperatorGrantId_fmt :: "operator_grant_id \<Rightarrow> string" where
  "OperatorGrantId_fmt self = OperatorGrantId_to_hex self"

definition OperatorGrantId_from_str :: "string \<Rightarrow> string + operator_grant_id" where
  "OperatorGrantId_from_str s = ok_or ''invalid OperatorGrantId hex'' (OperatorGrantId_from_hex s)"

section \<open>What a grant identifier identifies\<close>

definition grant_wf :: "grant_args \<Rightarrow> bool" where
  "grant_wf a \<longleftrightarrow> CHR 0x00 \<notin> set (ga_operator_id a) \<and> CHR 0x00 \<notin> set (ga_granted_by a) \<and>
     list_all (\<lambda>t. t \<noteq> [] \<and> CHR 0x00 \<notin> set t) (ga_tenants a)"

definition grant_content ::
    "grant_args \<Rightarrow> string \<times> string \<times> u64 \<times> u64 \<times> bool \<times> bool \<times> string set" where
  "grant_content a =
     (ga_operator_id a, ga_granted_by a, ga_granted_at_unix a, ga_expires_at_unix a,
      ga_cluster_admin a, ga_read_only a, set (ga_tenants a))"

lemma u8_from_inj [simp]: "u8_from a = u8_from b \<longleftrightarrow> a = b"
  by (simp add: u8_from_def)

lemma distinct_remdups_adj_sort: "sorted xs \<Longrightarrow> distinct (remdups_adj (xs :: 'a::linorder list))"
proof (induction xs rule: remdups_adj.induct)
  case (3 x y xs)
  show ?case
  proof (cases "x = y")
    case True
    then show ?thesis using 3 by simp
  next
    case False
    then have "x \<notin> set (y # xs)" using "3.prems" by auto
    then show ?thesis using False 3 by simp
  qed
qed simp_all

lemma canonical_tenants_set: "canonical_tenants ts = sorted_list_of_set (set ts)"
proof -
  have "sorted (canonical_tenants ts)" "distinct (canonical_tenants ts)" "set (canonical_tenants ts) = set ts"
    by (simp_all add: canonical_tenants_def distinct_remdups_adj_sort)
  then show ?thesis using sorted_list_of_set.idem_if_sorted_distinct by metis
qed

lemma canonical_tenants_eq: "canonical_tenants a = canonical_tenants b \<longleftrightarrow> set a = set b"
  unfolding canonical_tenants_set by (metis List.finite_set sorted_list_of_set.set_sorted_key_list_of_set)

lemma feed_tenants_Suc:
  "i > 0 \<Longrightarrow> feed_tenants i ts h = h @ concat (map (\<lambda>t. 0x00 # as_bytes t) ts)"
  by (induction ts arbitrary: i h) auto

lemma join_with_concat: "join_with c (x # xs) = x @ concat (map ((#) c) xs)"
  by (induction xs arbitrary: x) auto

lemma feed_tenants_join: "feed_tenants 0 ts h = h @ join_with 0x00 (map as_bytes ts)"
  by (cases ts) (simp_all add: feed_tenants_Suc join_with_concat comp_def)

lemma join_with_inj:
  assumes "\<forall>x \<in> set xs. c \<notin> set x \<and> x \<noteq> []" "\<forall>x \<in> set ys. c \<notin> set x \<and> x \<noteq> []"
  shows "join_with c xs = join_with c ys \<longleftrightarrow> xs = ys"
proof
  assume eq: "join_with c xs = join_with c ys"
  have nil: "join_with c zs \<noteq> []" if "zs \<noteq> []" "\<forall>x \<in> set zs. c \<notin> set x \<and> x \<noteq> []" for zs
    using that by (cases zs) (auto simp: join_with_concat)
  show "xs = ys"
  proof (cases "xs = [] \<or> ys = []")
    case True
    then have "join_with c xs = [] \<and> join_with c ys = []" using eq by auto
    then show ?thesis using nil [of xs] nil [of ys] assms by blast
  next
    case False
    then have "split_on c (join_with c xs) = xs" "split_on c (join_with c ys) = ys"
      using assms by (intro split_join; blast)+
    then show ?thesis using eq by metis
  qed
qed simp

lemma tenants_join_inj:
  assumes "list_all (\<lambda>t. t \<noteq> [] \<and> CHR 0x00 \<notin> set t) ts" "list_all (\<lambda>t. t \<noteq> [] \<and> CHR 0x00 \<notin> set t) us"
  shows "join_with 0x00 (map as_bytes (canonical_tenants ts)) = join_with 0x00 (map as_bytes (canonical_tenants us)) \<longleftrightarrow>
    set ts = set us"
proof -
  have "join_with 0x00 (map as_bytes (canonical_tenants ts)) = join_with 0x00 (map as_bytes (canonical_tenants us)) \<longleftrightarrow>
      map as_bytes (canonical_tenants ts) = map as_bytes (canonical_tenants us)"
    using assms by (intro join_with_inj) (auto simp: canonical_tenants_set list_all_iff)
  also have "\<dots> \<longleftrightarrow> canonical_tenants ts = canonical_tenants us"
    by (rule inj_map_eq_map) (simp add: inj_def)
  finally show ?thesis by (simp add: canonical_tenants_eq)
qed

lemma grant_preimage_eq:
  "grant_preimage a = as_bytes ''FleetOS v1 OperatorGrantId'' @ 0 # as_bytes (ga_operator_id a) @ 0 #
     as_bytes (ga_granted_by a) @ 0 # le_bytes 8 (ga_granted_at_unix a) @ 0 #
     le_bytes 8 (ga_expires_at_unix a) @ 0 # u8_from (ga_cluster_admin a) # 0 #
     u8_from (ga_read_only a) # 0 # join_with 0 (map as_bytes (canonical_tenants (ga_tenants a)))"
  unfolding grant_preimage_def Let_def feed_tenants_join by simp

lemma grant_preimage_inj:
  assumes "grant_wf a" "grant_wf b"
  shows "grant_preimage a = grant_preimage b \<longleftrightarrow> grant_content a = grant_content b"
  using assms tenants_join_inj [of "ga_tenants a" "ga_tenants b"]
  by (auto simp: grant_preimage_eq grant_content_def grant_wf_def sep_cancel)

interpretation grant_id: content_id OperatorGrantId grant_preimage of_grant grant_content grant_wf
  by unfold_locales (simp_all add: of_grant_def grant_preimage_inj)

interpretation grant_hex: hex_id OperatorGrantId OperatorGrantId_as_bytes OperatorGrantId_to_hex
    OperatorGrantId_from_hex
  by unfold_locales (simp_all add: OperatorGrantId_to_hex_def OperatorGrantId_from_hex_def)

section \<open>Properties\<close>

text \<open>C24. A grant identifier is a function of what the grant says and separates grants: with
  NUL-free names and non-empty tenant names, two identifiers agree exactly for the same
  operator, grantor, times, flags and set of tenants, whatever the order and repetition of
  the tenants, unless the truncated hash collides on the two layouts.\<close>

theorem grant_id_reflects_content:
  assumes "grant_wf a" "grant_wf b"
  shows "of_grant H a = of_grant H b \<longleftrightarrow>
     grant_content a = grant_content b \<or> collides H (grant_preimage a) (grant_preimage b)"
  using assms by (rule grant_id.ident_eq_iff)

theorem grant_id_reflects_content_witness:
  "of_grant (\<lambda>x. x) \<lparr>ga_operator_id = ''alice'', ga_granted_by = ''bob'', ga_granted_at_unix = 1,
      ga_expires_at_unix = 9, ga_cluster_admin = False, ga_read_only = True, ga_tenants = [''b'', ''a'', ''b'']\<rparr> =
   of_grant (\<lambda>x. x) \<lparr>ga_operator_id = ''alice'', ga_granted_by = ''bob'', ga_granted_at_unix = 1,
      ga_expires_at_unix = 9, ga_cluster_admin = False, ga_read_only = True, ga_tenants = [''a'', ''b'']\<rparr>"
  by (subst grant_id_reflects_content) (auto simp: grant_wf_def grant_content_def)

text \<open>Text round trip of grant identifiers: what \<open>Display\<close> prints for an identifier of a
  32-byte hash \<open>FromStr\<close> reads back, and text it accepts is the printed form up to the
  case of the letters; everything that has not 32 characters is refused.\<close>

theorem grant_id_text_roundtrip:
  assumes "hash32 H"
  shows "OperatorGrantId_from_str (OperatorGrantId_fmt (of_grant H a)) = Inr (of_grant H a) \<and>
     (OperatorGrantId_from_str s = Inr x \<longrightarrow> OperatorGrantId_fmt x = to_ascii_lowercase s) \<and>
     (length s \<noteq> 32 \<longrightarrow> OperatorGrantId_from_str s = Inl ''invalid OperatorGrantId hex'')"
  using assms grant_hex.hex_roundtrip [of "of_grant H a"] grant_hex.parsed_canonical [of s x]
    grant_hex.wrong_length_rejected [of s]
  by (simp add: OperatorGrantId_from_str_def OperatorGrantId_fmt_def of_grant_def)

theorem grant_id_text_roundtrip_witness:
  "OperatorGrantId_from_str ''abc'' = Inl ''invalid OperatorGrantId hex''"
  using grant_id_text_roundtrip [of "\<lambda>_. replicate 32 0" _ "''abc''"] by (simp add: hash32_def)

end
