(* ===== verification/Secret_Seal.thy ===== *)
theory Secret_Seal
  imports Attest_Core
begin

text \<open>
  Secret sealing (\<open>crypto.rs\<close>). X25519, the \<open>blake3\<close> key derivation and ChaCha20Poly1305
  are the fields of a record the functions take; the randomness of \<open>seal\<close> and of
  \<open>generate_sealing_keypair\<close> (the ephemeral or static secret, the nonce) is an argument.
  What is relied on is named: Diffie-Hellman agreement, and that decryption inverts
  encryption and refuses other associated data.
\<close>

datatype crypto_error = DecryptionFailed | InvalidPublicKeyLength

datatype secret_sequence = SecretSequence (sequence_get: u64)

record sealed_secret =
  ss_sealed_for_svid_version :: u64
  ss_sequence :: secret_sequence
  ss_ephemeral_pubkey :: bytes
  ss_ciphertext :: bytes

record seal_lib =
  x25519_public :: "bytes \<Rightarrow> bytes"
  x25519_dh :: "bytes \<Rightarrow> bytes \<Rightarrow> bytes"
  blake3_derive_key :: "string \<Rightarrow> bytes \<Rightarrow> bytes"
  aead_encrypt :: "bytes \<Rightarrow> bytes \<Rightarrow> bytes \<Rightarrow> bytes \<Rightarrow> bytes option"
  aead_decrypt :: "bytes \<Rightarrow> bytes \<Rightarrow> bytes \<Rightarrow> bytes \<Rightarrow> bytes option"

section \<open>Operations\<close>

definition from_slice :: "bytes \<Rightarrow> crypto_error + recipient_pubkey" where
  "from_slice sl =
     (if length sl \<noteq> 32 then Inl InvalidPublicKeyLength else Inr (RecipientX25519Pubkey sl))"

definition generate_sealing_keypair :: "seal_lib \<Rightarrow> bytes \<Rightarrow> bytes \<times> recipient_pubkey" where
  "generate_sealing_keypair L secret = (secret, RecipientX25519Pubkey (x25519_public L secret))"

definition SEAL_CONTEXT :: string where
  "SEAL_CONTEXT = ''FleetOS v1 SecretSealing Context''"

definition seal_ad :: "u64 \<Rightarrow> secret_sequence \<Rightarrow> bytes" where
  "seal_ad svid_version sequence = le_bytes 8 svid_version @ le_bytes 8 (sequence_get sequence)"

definition seal ::
    "seal_lib \<Rightarrow> bytes \<Rightarrow> bytes \<Rightarrow> recipient_pubkey \<Rightarrow> bytes \<Rightarrow> u64 \<Rightarrow> secret_sequence \<Rightarrow>
     crypto_error + sealed_secret" where
  "seal L eph_secret nonce_bytes recipient_pubkey plaintext svid_version sequence =
     (let eph_pubkey = x25519_public L eph_secret;
          shared_secret = x25519_dh L eph_secret (recipient_bytes recipient_pubkey);
          key = blake3_derive_key L SEAL_CONTEXT shared_secret;
          ad = seal_ad svid_version sequence
      in rbind (ok_or DecryptionFailed (aead_encrypt L key nonce_bytes plaintext ad)) (\<lambda>encrypted_payload.
           Inr \<lparr>ss_sealed_for_svid_version = svid_version, ss_sequence = sequence,
                ss_ephemeral_pubkey = eph_pubkey, ss_ciphertext = nonce_bytes @ encrypted_payload\<rparr>))"

definition unseal :: "seal_lib \<Rightarrow> bytes \<Rightarrow> sealed_secret \<Rightarrow> crypto_error + bytes" where
  "unseal L recipient_privkey sealed =
     (let shared_secret = x25519_dh L recipient_privkey (ss_ephemeral_pubkey sealed);
          key = blake3_derive_key L SEAL_CONTEXT shared_secret
      in if length (ss_ciphertext sealed) < 12 then Inl DecryptionFailed
         else
           let nonce_bytes = take 12 (ss_ciphertext sealed);
               encrypted_payload = drop 12 (ss_ciphertext sealed);
               ad = seal_ad (ss_sealed_for_svid_version sealed) (ss_sequence sealed)
           in ok_or DecryptionFailed (aead_decrypt L key nonce_bytes encrypted_payload ad))"

section \<open>What the primitives promise\<close>

definition dh_agrees :: "seal_lib \<Rightarrow> bool" where
  "dh_agrees L \<longleftrightarrow> (\<forall>a b. x25519_dh L a (x25519_public L b) = x25519_dh L b (x25519_public L a))"

definition aead_inverts :: "seal_lib \<Rightarrow> bool" where
  "aead_inverts L \<longleftrightarrow>
     (\<forall>k n m a c. aead_encrypt L k n m a = Some c \<longrightarrow> aead_decrypt L k n c a = Some m)"

definition aead_binds_ad :: "seal_lib \<Rightarrow> bool" where
  "aead_binds_ad L \<longleftrightarrow>
     (\<forall>k n m a b c. aead_encrypt L k n m a = Some c \<longrightarrow> b \<noteq> a \<longrightarrow> aead_decrypt L k n c b = None)"

text \<open>A concrete instance of the promises, for the applications below.\<close>

definition tagged :: "bytes \<Rightarrow> bytes" where
  "tagged a = replicate (length a) 1 @ 0 # a"

definition plain_lib :: seal_lib where
  "plain_lib = \<lparr>x25519_public = (\<lambda>s. s), x25519_dh = (\<lambda>a b. map2 (XOR) a b),
     blake3_derive_key = (\<lambda>_ s. s),
     aead_encrypt = (\<lambda>k n m a. Some (tagged a @ m)),
     aead_decrypt = (\<lambda>k n c a. strip_prefix (tagged a) c)\<rparr>"

section \<open>Lemmas\<close>

lemma seal_ad_inj: "seal_ad v s = seal_ad w t \<longleftrightarrow> v = w \<and> s = t"
  by (auto simp: seal_ad_def secret_sequence.expand)

lemma tagged_prefix_free: "tagged a @ r = tagged b @ s \<longleftrightarrow> a = b \<and> r = s"
proof -
  have "tagged a @ r = tagged b @ s \<longleftrightarrow> length a = length b \<and> a @ r = b @ s"
    by (simp add: tagged_def sep_cancel)
  then show ?thesis by auto
qed

lemma plain_lib_ok: "dh_agrees plain_lib" "aead_inverts plain_lib" "aead_binds_ad plain_lib"
proof -
  have "map2 (XOR) a b = map2 (XOR) b (a :: bytes)" for a b
    by (subst zip_commute) (auto simp: xor.commute)
  then show "dh_agrees plain_lib" by (simp add: dh_agrees_def plain_lib_def)
  show "aead_inverts plain_lib" by (simp add: aead_inverts_def plain_lib_def)
  show "aead_binds_ad plain_lib"
    by (auto simp: aead_binds_ad_def plain_lib_def strip_prefix_None tagged_prefix_free)
qed

section \<open>Properties\<close>

text \<open>C25. What is sealed for a key pair's public half, with a 12-byte nonce, is opened by its
  private half and gives the plaintext back.\<close>

theorem seal_unseal_roundtrip:
  assumes "dh_agrees L" "aead_inverts L" "length nonce = 12"
    and "generate_sealing_keypair L secret = (priv, pubkey)"
    and "seal L eph nonce pubkey plaintext v sq = Inr sealed"
  shows "unseal L priv sealed = Inr plaintext"
proof -
  have k: "priv = secret" "recipient_bytes pubkey = x25519_public L secret"
    using assms(4) by (auto simp: generate_sealing_keypair_def)
  have "x25519_dh L secret (x25519_public L eph) = x25519_dh L eph (x25519_public L secret)"
    using assms(1) by (simp add: dh_agrees_def)
  then show ?thesis
    using assms(2,3,5) by (auto simp: seal_def unseal_def Let_def k rbind_eq_Inr aead_inverts_def)
qed

theorem seal_unseal_roundtrip_witness:
  "\<exists>sealed. seal plain_lib [1] (replicate 12 5) (RecipientX25519Pubkey [2]) [42] 1 (SecretSequence 7) = Inr sealed \<and>
     unseal plain_lib [2] sealed = Inr [42]"
proof -
  obtain sealed where s: "seal plain_lib [1] (replicate 12 5) (RecipientX25519Pubkey [2]) [42] 1 (SecretSequence 7) = Inr sealed"
    by (auto simp: seal_def plain_lib_def)
  have "generate_sealing_keypair plain_lib [2] = ([2], RecipientX25519Pubkey [2])"
    by (simp add: generate_sealing_keypair_def plain_lib_def)
  from seal_unseal_roundtrip [OF plain_lib_ok(1,2) _ this s] s show ?thesis by auto
qed

text \<open>The SVID version and the sequence number are bound to the ciphertext: presenting a
  sealed secret under another version or another sequence number fails to decrypt, and so
  does a ciphertext too short to hold the nonce.\<close>

theorem unseal_binds_context:
  assumes "dh_agrees L" "aead_binds_ad L" "length nonce = 12"
    and "seal L eph nonce (RecipientX25519Pubkey (x25519_public L secret)) plaintext v sq = Inr sealed"
  shows "(v' \<noteq> v \<or> sq' \<noteq> sq \<longrightarrow>
       unseal L secret (sealed\<lparr>ss_sealed_for_svid_version := v', ss_sequence := sq'\<rparr>) = Inl DecryptionFailed) \<and>
     unseal L secret (sealed\<lparr>ss_ciphertext := take 11 c\<rparr>) = Inl DecryptionFailed"
proof -
  have "x25519_dh L secret (x25519_public L eph) = x25519_dh L eph (x25519_public L secret)"
    using assms(1) by (simp add: dh_agrees_def)
  moreover have "v' \<noteq> v \<or> sq' \<noteq> sq \<Longrightarrow> seal_ad v' sq' \<noteq> seal_ad v sq" by (auto simp: seal_ad_inj)
  ultimately show ?thesis
    using assms(2,3,4)
    by (auto simp: seal_def unseal_def Let_def rbind_eq_Inr aead_binds_ad_def)
qed

theorem unseal_binds_context_witness:
  "\<exists>sealed. seal plain_lib [1] (replicate 12 5) (RecipientX25519Pubkey [2]) [42] 1 (SecretSequence 7) = Inr sealed \<and>
     unseal plain_lib [2] (sealed\<lparr>ss_sealed_for_svid_version := 1, ss_sequence := SecretSequence 8\<rparr>) = Inl DecryptionFailed"
proof -
  obtain sealed where s: "seal plain_lib [1] (replicate 12 5) (RecipientX25519Pubkey [2]) [42] 1 (SecretSequence 7) = Inr sealed"
    by (auto simp: seal_def plain_lib_def)
  moreover have "x25519_public plain_lib [2] = [2]" by (simp add: plain_lib_def)
  ultimately show ?thesis
    using unseal_binds_context [OF plain_lib_ok(1,3), of "replicate 12 5" "[1]" "[2]" "[42]" 1 "SecretSequence 7" sealed
      1 "SecretSequence 8"]
    by simp
qed

end
