(* ===== verification/Id_Header.thy ===== *)
theory Id_Header
  imports Rust_Str
begin

text \<open>
  The identity header that prefixes gRPC frames (\<open>proto.rs\<close>, module \<open>identity_header\<close>).
  The reader's cursor is the second component of its result; a read past the end of the
  buffer (\<open>get_u8\<close>, \<open>get_u16\<close>, a slice) panics, as in the crate \<open>bytes\<close> and in slicing.
\<close>

section \<open>Writer\<close>

definition write_header :: "string \<Rightarrow> string option \<Rightarrow> bytes" where
  "write_header svid role =
     (let svid_bytes = as_bytes svid;
          role_bytes = (case role of None \<Rightarrow> [] | Some r \<Rightarrow> as_bytes r);
          header_len = 1 + 2 + length svid_bytes + 1 + length role_bytes;
          buf = be_bytes 4 (word_of_nat header_len :: u32);
          buf = buf @ [1];
          buf = buf @ be_bytes 2 (word_of_nat (length svid_bytes) :: u16);
          buf = buf @ svid_bytes;
          buf = buf @ [word_of_nat (length role_bytes)];
          buf = buf @ role_bytes
      in buf)"

section \<open>Reader\<close>

definition get_u8 :: "bytes \<Rightarrow> (u8 \<times> bytes) outcome" where
  "get_u8 buf = (case buf of [] \<Rightarrow> Panics | b # r \<Rightarrow> Returns (b, r))"

definition get_u16 :: "bytes \<Rightarrow> (u16 \<times> bytes) outcome" where
  "get_u16 buf = (if length buf < 2 then Panics else Returns (from_be (take 2 buf), drop 2 buf))"

definition slice_to :: "nat \<Rightarrow> bytes \<Rightarrow> bytes outcome" where
  "slice_to n buf = (if n > length buf then Panics else Returns (take n buf))"

definition read_role ::
    "string \<Rightarrow> bytes \<Rightarrow> ((string \<times> string option) option \<times> bytes) outcome" where
  "read_role svid buf =
     obind (get_u8 buf) (\<lambda>(role_len, buf).
       if unat role_len > 0 then
         obind (slice_to (unat role_len) buf) (\<lambda>role_bytes.
           case from_utf8 role_bytes of None \<Rightarrow> Returns (None, buf)
           | Some r \<Rightarrow> Returns (Some (svid, Some r), drop (unat role_len) buf))
       else Returns (Some (svid, None), buf))"

definition read_header :: "bytes \<Rightarrow> ((string \<times> string option) option \<times> bytes) outcome" where
  "read_header buf =
     (if length buf < 4 then Returns (None, buf)
      else
        let len = unat (from_be (take 4 buf) :: u32)
        in if length buf < 4 + len then Returns (None, buf)
           else
             let buf = drop 4 buf
             in obind (get_u8 buf) (\<lambda>(_, buf).
                obind (get_u16 buf) (\<lambda>(svid_len, buf).
                obind (slice_to (unat svid_len) buf) (\<lambda>svid_bytes.
                  case from_utf8 svid_bytes of None \<Rightarrow> Returns (None, buf)
                  | Some svid \<Rightarrow> read_role svid (drop (unat svid_len) buf)))))"

section \<open>Lemmas\<close>

lemma get_u8_Cons [simp]: "get_u8 (b # r) = Returns (b, r)"
  by (simp add: get_u8_def)

lemma get_u16_front [simp]: "get_u16 (be_bytes 2 w @ r) = Returns (w, r)"
  by (simp add: get_u16_def)

lemma slice_to_front [simp]: "n = length b \<Longrightarrow> slice_to n (b @ r) = Returns b"
  by (simp add: slice_to_def)

lemma read_role_front:
  assumes "is_rust_str r" "r \<noteq> []" "length r < 256"
  shows "read_role svid (word_of_nat (length r) # as_bytes r @ rest) = Returns (Some (svid, Some r), rest)"
  using assms by (simp add: read_role_def unat_of_nat)

lemma read_role_none: "read_role svid (0 # rest) = Returns (Some (svid, None), rest)"
  by (simp add: read_role_def)

lemma obind_eq_Panics: "obind m f = Panics \<longleftrightarrow> m = Panics \<or> (\<exists>a. m = Returns a \<and> f a = Panics)"
  by (cases m) auto

lemma read_role_panics:
  "read_role svid buf = Panics \<longleftrightarrow> buf = [] \<or> length (tl buf) < unat (hd buf)"
  by (cases buf) (auto simp: read_role_def get_u8_def slice_to_def split: option.splits)

lemma read_header_body:
  assumes "4 + unat (from_be (take 4 buf) :: u32) \<le> length buf" "drop 4 buf = v # be_bytes 2 (n :: u16) @ s"
  shows "read_header buf = obind (slice_to (unat n) s) (\<lambda>svid_bytes.
     case from_utf8 svid_bytes of None \<Rightarrow> Returns (None, s)
     | Some svid \<Rightarrow> read_role svid (drop (unat n) s))"
  using assms by (simp add: read_header_def Let_def)

definition read_svid :: "nat \<Rightarrow> bytes \<Rightarrow> ((string \<times> string option) option \<times> bytes) outcome" where
  "read_svid n s = obind (slice_to n s) (\<lambda>svid_bytes.
     case from_utf8 svid_bytes of None \<Rightarrow> Returns (None, s)
     | Some svid \<Rightarrow> read_role svid (drop n s))"

lemma read_svid_panics:
  "read_svid n s = Panics \<longleftrightarrow> length s < n \<or>
     utf8_valid (take n s) \<and> (length s = n \<or> length s < n + 1 + unat (s ! n))"
proof (cases "length s < n")
  case True
  then show ?thesis by (simp add: read_svid_def slice_to_def)
next
  case False
  then have "read_svid n s = Panics \<longleftrightarrow> utf8_valid (take n s) \<and> read_role (of_bytes (take n s)) (drop n s) = Panics"
    by (simp add: read_svid_def slice_to_def from_utf8_def)
  also have "\<dots> \<longleftrightarrow> utf8_valid (take n s) \<and> (length s = n \<or> length s < n + 1 + unat (s ! n))"
    using False by (cases "length s = n") (auto simp: read_role_panics hd_drop_conv_nth)
  finally show ?thesis using False by simp
qed

section \<open>Properties\<close>

text \<open>C31. The header round trip: for an SVID of less than 65536 bytes and a role that is
  absent or has 1 to 255 bytes, reading what was written gives both back and leaves the
  cursor exactly at the frame that follows.\<close>

theorem header_roundtrip:
  assumes "is_rust_str svid" "length svid < 65536"
    and "case role of None \<Rightarrow> True | Some r \<Rightarrow> is_rust_str r \<and> r \<noteq> [] \<and> length r < 256"
  shows "read_header (write_header svid role @ frame) = Returns (Some (svid, role), frame)"
proof -
  define rb where "rb = (case role of None \<Rightarrow> [] | Some r \<Rightarrow> as_bytes r)"
  define n where "n = 1 + 2 + length svid + 1 + length rb"
  have rb: "length rb < 256" using assms(3) by (auto simp: rb_def split: option.splits)
  let ?buf = "be_bytes 4 (word_of_nat n :: u32) @ 1 # be_bytes 2 (word_of_nat (length svid) :: u16) @
    as_bytes svid @ word_of_nat (length rb) # rb @ frame"
  have w: "write_header svid role @ frame = ?buf"
    by (simp add: write_header_def Let_def rb_def n_def)
  have "n < 2 ^ 32" using assms(2) rb by (simp add: n_def)
  then have "unat (from_be (take 4 ?buf) :: u32) = n" by (simp add: unat_of_nat)
  then have "4 + unat (from_be (take 4 ?buf) :: u32) \<le> length ?buf"
    by (simp only: n_def length_append list.size length_be_bytes length_as_bytes)
  moreover have "drop 4 ?buf = 1 # be_bytes 2 (word_of_nat (length svid) :: u16) @
      as_bytes svid @ word_of_nat (length rb) # rb @ frame"
    by simp
  ultimately have "read_header ?buf = obind (slice_to (unat (word_of_nat (length svid) :: u16))
       (as_bytes svid @ word_of_nat (length rb) # rb @ frame)) (\<lambda>svid_bytes.
     case from_utf8 svid_bytes of None \<Rightarrow> Returns (None, as_bytes svid @ word_of_nat (length rb) # rb @ frame)
     | Some s \<Rightarrow> read_role s (drop (unat (word_of_nat (length svid) :: u16))
         (as_bytes svid @ word_of_nat (length rb) # rb @ frame)))"
    by (rule read_header_body)
  also have "unat (word_of_nat (length svid) :: u16) = length svid"
    using assms(2) by (simp add: unat_of_nat)
  finally have "read_header ?buf = read_role svid (word_of_nat (length rb) # rb @ frame)"
    using assms(1) by simp
  also have "\<dots> = Returns (Some (svid, role), frame)"
    using assms(3) by (cases role) (simp_all add: rb_def read_role_none read_role_front)
  finally show ?thesis by (simp only: w)
qed

theorem header_roundtrip_witness:
  "read_header (write_header ''spiffe://d/ns/t/sa/x'' (Some ''db'') @ [9]) =
     Returns (Some (''spiffe://d/ns/t/sa/x'', Some ''db''), [9])"
proof (rule header_roundtrip)
  have "is_rust_str ''db''" by code_simp
  then show "case Some ''db'' of None \<Rightarrow> True | Some r \<Rightarrow> is_rust_str r \<and> r \<noteq> [] \<and> length r < 256"
    by simp
  show "is_rust_str ''spiffe://d/ns/t/sa/x''" by code_simp
  show "length ''spiffe://d/ns/t/sa/x'' < 65536" by simp
qed

text \<open>C32. When reading panics, exactly: the announced length is present, but the buffer has
  no room for the version and the SVID length, or for the SVID, or (the SVID being valid
  UTF-8) for the role length or the role. The announced length is compared with the
  buffer only, never with the inner lengths, so a peer can choose such an input; the
  four zero bytes are one.\<close>

theorem read_header_panics_exactly:
  "(read_header buf = Panics \<longleftrightarrow>
     4 \<le> length buf \<and> 4 + unat (from_be (take 4 buf) :: u32) \<le> length buf \<and>
     (length buf < 7 \<or>
      (\<exists>n body. n = unat (from_be (take 2 (drop 5 buf)) :: u16) \<and> body = drop 7 buf \<and>
         (length body < n \<or>
          utf8_valid (take n body) \<and>
            (length body = n \<or> length body < n + 1 + unat (body ! n)))))) \<and>
   read_header [0, 0, 0, 0] = Panics"
proof
  show "read_header [0, 0, 0, 0] = Panics"
    by (simp add: read_header_def from_be_def get_u8_def)
  show "read_header buf = Panics \<longleftrightarrow>
     4 \<le> length buf \<and> 4 + unat (from_be (take 4 buf) :: u32) \<le> length buf \<and>
     (length buf < 7 \<or>
      (\<exists>n body. n = unat (from_be (take 2 (drop 5 buf)) :: u16) \<and> body = drop 7 buf \<and>
         (length body < n \<or>
          utf8_valid (take n body) \<and>
            (length body = n \<or> length body < n + 1 + unat (body ! n)))))"
  proof (cases "7 \<le> length buf")
    case True
    then have "drop 4 buf = buf ! 4 # drop 5 buf" using Cons_nth_drop_Suc [of 4 buf] by simp
    moreover have "\<not> length buf - 5 < 2" using True by simp
    ultimately have "read_header buf = Panics \<longleftrightarrow> 4 + unat (from_be (take 4 buf) :: u32) \<le> length buf \<and>
        read_svid (unat (from_be (take 2 (drop 5 buf)) :: u16)) (drop 7 buf) = Panics"
      using True by (simp add: read_header_def Let_def get_u16_def read_svid_def)
    then show ?thesis using True unfolding read_svid_panics by auto
  next
    case False
    then have "length r < 2" if "drop 4 buf = v # r" for v r
      using arg_cong [OF that, of length] by simp
    then show ?thesis using False
      by (auto simp: read_header_def Let_def get_u8_def get_u16_def split: list.splits)
  qed
qed

end
