(* ===== verification/Vsock_Frame.thy ===== *)
theory Vsock_Frame
  imports Prelude
begin

text \<open>
  The vsock wire protocol (\<open>vsock_proto.rs\<close>): constants, messages and the framing helpers.
  The serializer \<open>postcard\<close> is a pair of parameters; its error type and the value
  \<open>SerializeBufferFull\<close> are parameters too. \<open>unframe\<close> is the reading side the comment of
  \<open>decode_msg\<close> leaves to the I/O layer, written as a reference definition.
\<close>

section \<open>Constants and messages\<close>

definition PROTOCOL_VERSION :: u32 where "PROTOCOL_VERSION = 1"
definition MAX_MESSAGE_BYTES :: nat where "MAX_MESSAGE_BYTES = 16 * 1024 * 1024"
definition VSOCK_PORT :: u32 where "VSOCK_PORT = 0x4649"
definition HOST_CID :: u32 where "HOST_CID = 2"
definition QUOTE_TYPE_TPM2 :: u8 where "QUOTE_TYPE_TPM2 = 0"
definition QUOTE_TYPE_SEV_SNP :: u8 where "QUOTE_TYPE_SEV_SNP = 1"
definition QUOTE_TYPE_TDX :: u8 where "QUOTE_TYPE_TDX = 2"
definition QUOTE_TYPE_HOST_MEASURED :: u8 where "QUOTE_TYPE_HOST_MEASURED = 3"
definition QUOTE_TYPE_DEV_SOFTWARE :: u8 where "QUOTE_TYPE_DEV_SOFTWARE = 0xFF"

record vsock_attestation_challenge =
  vc_protocol_version :: u32
  vc_nonce :: bytes

record vsock_attestation_proof =
  vp_quote_type :: u8
  vp_raw_quote :: bytes
  vp_guest_x25519_pubkey :: bytes

record agent_attest_result =
  ar_accepted :: bool
  ar_reason :: string

record volume_mount_config =
  vm_name :: string
  vm_mount_path :: string
  vm_read_only :: bool

record dummy_ip_route_config =
  dr_dummy_ip :: bytes
  dr_service :: string
  dr_role :: string
  dr_tenant :: string

record workload_config =
  wc_svid_cert_chain_der :: "bytes list"
  wc_svid_private_key_der :: bytes
  wc_env_vars :: "(string \<times> string) list"
  wc_volume_mounts :: "volume_mount_config list"
  wc_dummy_ip_routes :: "dummy_ip_route_config list"
  wc_workload_binary_path :: string
  wc_workload_args :: "string list"
  wc_trust_domain :: string
  wc_tenant_id :: string
  wc_service_name :: string
  wc_role :: string
  wc_guest_ip :: bytes
  wc_netmask :: bytes
  wc_gateway :: bytes

section \<open>Framing\<close>

definition frame_msg :: "('m \<Rightarrow> 'e + bytes) \<Rightarrow> 'e \<Rightarrow> 'm \<Rightarrow> 'e + bytes" where
  "frame_msg to_allocvec buffer_full msg =
     rbind (to_allocvec msg) (\<lambda>payload.
       if length payload > MAX_MESSAGE_BYTES then Inl buffer_full
       else (let len = le_bytes 4 (word_of_nat (length payload) :: u32)
             in Inr (len @ payload)))"

definition decode_msg :: "(bytes \<Rightarrow> 'e + 'm) \<Rightarrow> bytes \<Rightarrow> 'e + 'm" where
  "decode_msg from_bytes payload = from_bytes payload"

text \<open>Reference reader: the length prefix, then that many bytes.\<close>

definition le_nat :: "bytes \<Rightarrow> nat" where
  "le_nat bs = be_nat (rev bs)"

definition unframe :: "bytes \<Rightarrow> (bytes \<times> bytes) option" where
  "unframe s =
     (if length s < 4 \<or> length s < 4 + le_nat (take 4 s) then None
      else Some (take (le_nat (take 4 s)) (drop 4 s), drop (4 + le_nat (take 4 s)) s))"

function unframe_all :: "bytes \<Rightarrow> bytes list" where
  "unframe_all s = (case unframe s of None \<Rightarrow> [] | Some (p, r) \<Rightarrow> p # unframe_all r)"
  by auto
termination
  by (relation "measure length") (auto simp: unframe_def split: if_splits)

declare unframe_all.simps [simp del]

text \<open>Documented behaviour of the serializer: reading what was written gives the message.\<close>

definition postcard_roundtrip :: "('m \<Rightarrow> 'e + bytes) \<Rightarrow> (bytes \<Rightarrow> 'e + 'm) \<Rightarrow> bool" where
  "postcard_roundtrip to_allocvec from_bytes \<longleftrightarrow>
     (\<forall>m p. to_allocvec m = Inr p \<longrightarrow> from_bytes p = Inr m)"

section \<open>Lemmas\<close>

lemma be_nat_be_bytes: "be_nat (be_bytes n w) = unat w mod 256 ^ n"
proof (induction n arbitrary: w)
  case 0
  then show ?case by (simp add: be_bytes_def be_nat_def)
next
  case (Suc n)
  have "unat (drop_bit 8 w) = unat w div 256"
    unfolding unat_drop_bit_eq by (simp add: drop_bit_eq_div)
  then have "be_nat (be_bytes (Suc n) w) = 256 * (unat w div 256 mod 256 ^ n) + unat w mod 256"
    by (simp add: be_bytes_Suc be_nat_snoc Suc unsigned_ucast_eq take_bit_eq_mod)
  also have "\<dots> = unat w mod 256 ^ Suc n" by (simp add: mod_mult2_eq)
  finally show ?case .
qed

lemma le_nat_le_bytes: "n < 2 ^ 32 \<Longrightarrow> le_nat (le_bytes 4 (word_of_nat n :: u32)) = n"
  using be_nat_be_bytes [of 4 "word_of_nat n :: u32"]
  by (simp add: le_nat_def be_bytes_def unat_of_nat)

lemma frame_msg_Inr:
  "frame_msg ser full m = Inr f \<longleftrightarrow> (\<exists>p. ser m = Inr p \<and> length p \<le> MAX_MESSAGE_BYTES \<and>
     f = le_bytes 4 (word_of_nat (length p) :: u32) @ p)"
  by (cases "ser m") (auto simp: frame_msg_def)

lemma unframe_frame:
  assumes "frame_msg ser full m = Inr f"
  obtains p where "ser m = Inr p" "\<And>r. unframe (f @ r) = Some (p, r)" "length f \<le> 4 + MAX_MESSAGE_BYTES"
proof -
  obtain p where p: "ser m = Inr p" "length p \<le> MAX_MESSAGE_BYTES"
    "f = le_bytes 4 (word_of_nat (length p) :: u32) @ p"
    using assms unfolding frame_msg_Inr by blast
  then have "le_nat (le_bytes 4 (word_of_nat (length p) :: u32)) = length p"
    by (intro le_nat_le_bytes) (simp add: MAX_MESSAGE_BYTES_def)
  then have "unframe (f @ r) = Some (p, r)" for r
    unfolding p(3) unframe_def by simp
  then show ?thesis using that p by simp
qed

section \<open>Properties\<close>

text \<open>C33. Framing is self-delimiting: with a serializer that reads back what it writes, every
  frame is at most 4 bytes longer than the largest payload, and a stream of frames of any
  messages, followed by a tail that is not itself a frame, splits into payloads that
  decode to exactly those messages in order. A message whose payload is over the limit is
  refused, never truncated.\<close>

theorem framing_stream_roundtrip:
  assumes "postcard_roundtrip ser de" "unframe tail = None"
    and "list_all2 (\<lambda>m f. frame_msg ser full m = Inr f) ms fs"
  shows "map (decode_msg de) (unframe_all (concat fs @ tail)) = map Inr ms \<and>
     list_all (\<lambda>f. length f \<le> 4 + MAX_MESSAGE_BYTES) fs \<and>
     (ser m = Inr p \<longrightarrow> MAX_MESSAGE_BYTES < length p \<longrightarrow> frame_msg ser full m = Inl full)"
proof (intro conjI)
  show "ser m = Inr p \<longrightarrow> MAX_MESSAGE_BYTES < length p \<longrightarrow> frame_msg ser full m = Inl full"
    by (simp add: frame_msg_def)
  show "list_all (\<lambda>f. length f \<le> 4 + MAX_MESSAGE_BYTES) fs"
    using assms(3) by (induction rule: list_all2_induct) (auto elim: unframe_frame)
  show "map (decode_msg de) (unframe_all (concat fs @ tail)) = map Inr ms"
    using assms(3)
  proof (induction rule: list_all2_induct)
    case Nil
    then show ?case using assms(2) by (simp add: unframe_all.simps)
  next
    case (Cons m ms f fs)
    then obtain p where "ser m = Inr p" "unframe (f @ concat fs @ tail) = Some (p, concat fs @ tail)"
      using unframe_frame by metis
    then show ?case
      using Cons assms(1) by (simp add: unframe_all.simps [of "f @ concat fs @ tail"] decode_msg_def postcard_roundtrip_def)
  qed
qed

theorem framing_stream_roundtrip_witness:
  "map (decode_msg (\<lambda>b. Inr b)) (unframe_all (concat [le_bytes 4 (1 :: u32) @ [7], le_bytes 4 (0 :: u32)] @ [])) =
     map (Inr :: _ \<Rightarrow> unit + _) [[7], []]"
proof -
  have "list_all2 (\<lambda>m f. frame_msg (\<lambda>b. Inr b) () m = Inr f) [[7], []] [le_bytes 4 (1 :: u32) @ [7], le_bytes 4 (0 :: u32)]"
    by (simp add: frame_msg_def MAX_MESSAGE_BYTES_def)
  moreover have "unframe [] = None" by (simp add: unframe_def)
  moreover have "postcard_roundtrip (\<lambda>b. Inr b) (\<lambda>b. Inr b :: unit + _)" by (simp add: postcard_roundtrip_def)
  ultimately show ?thesis
    using framing_stream_roundtrip [of "\<lambda>b. Inr b" "\<lambda>b. Inr b" "[]" "()" "[[7], []]"] by blast
qed

end
