(* ===== verification/Naming.thy ===== *)
theory Naming
  imports Rust_Str
begin

text \<open>
  Canonical hostnames (\<open>naming.rs\<close>): label validation and \<open>dummy_ip_hostname\<close>, with the
  errors in the order the code raises them.
\<close>

datatype naming_error = EmptyLabel | UnsafeLabel string | LabelTooLong string

definition is_ascii_lowercase :: "char \<Rightarrow> bool" where
  "is_ascii_lowercase c \<longleftrightarrow> 0x61 \<le> byte_of_char c \<and> byte_of_char c \<le> 0x7a"

definition is_ascii_digit :: "char \<Rightarrow> bool" where
  "is_ascii_digit c \<longleftrightarrow> 0x30 \<le> byte_of_char c \<and> byte_of_char c \<le> 0x39"

definition label_safe :: "string \<Rightarrow> bool" where
  "label_safe label \<longleftrightarrow>
     list_all (\<lambda>c. is_ascii_lowercase c \<or> is_ascii_digit c \<or> c = CHR ''-'') label \<and>
     \<not> (label \<noteq> [] \<and> hd label = CHR ''-'') \<and> \<not> (label \<noteq> [] \<and> last label = CHR ''-'')"

definition validate_label :: "string \<Rightarrow> naming_error + unit" where
  "validate_label label =
     (if label = [] then Inl EmptyLabel
      else if length label > 63 then Inl (LabelTooLong label)
      else if \<not> label_safe label then Inl (UnsafeLabel label)
      else Inr ())"

fun validate_labels :: "string list \<Rightarrow> naming_error + unit" where
  "validate_labels [] = Inr ()"
| "validate_labels (part # rest) = rbind (validate_label part) (\<lambda>_. validate_labels rest)"

definition dummy_ip_hostname :: "string \<Rightarrow> string \<Rightarrow> string \<Rightarrow> string \<Rightarrow> naming_error + string" where
  "dummy_ip_hostname service role tenant trust_domain =
     (let service = to_ascii_lowercase service;
          role = to_ascii_lowercase role;
          tenant = to_ascii_lowercase tenant;
          trust_domain = to_ascii_lowercase trust_domain
      in rbind (validate_label service) (\<lambda>_.
         rbind (validate_label role) (\<lambda>_.
         rbind (validate_label tenant) (\<lambda>_.
         if trust_domain = [] then Inl EmptyLabel else
         rbind (validate_labels (split_on (CHR ''.'') trust_domain)) (\<lambda>_.
           Inr (service @ ''.'' @ role @ ''.'' @ tenant @ ''.svc.'' @ trust_domain))))))"

section \<open>Lemmas\<close>

definition label_ok :: "string \<Rightarrow> bool" where
  "label_ok l \<longleftrightarrow> l \<noteq> [] \<and> length l \<le> 63 \<and> label_safe l"

lemma validate_label_Inr: "validate_label l = Inr u \<longleftrightarrow> label_ok l"
  by (auto simp: validate_label_def label_ok_def)

lemma validate_labels_Inr: "validate_labels ls = Inr u \<longleftrightarrow> list_all label_ok ls"
  by (induction ls) (auto simp: rbind_eq_Inr validate_label_Inr)

lemma dot_not_in_label: "label_ok l \<Longrightarrow> CHR ''.'' \<notin> set l"
  by (auto simp: label_ok_def label_safe_def list_all_iff is_ascii_lowercase_def is_ascii_digit_def
      byte_of_char_def)

lemma dummy_ip_hostname_iff:
  "dummy_ip_hostname s r t d = Inr h \<longleftrightarrow>
     label_ok (to_ascii_lowercase s) \<and> label_ok (to_ascii_lowercase r) \<and> label_ok (to_ascii_lowercase t) \<and>
     to_ascii_lowercase d \<noteq> [] \<and> list_all label_ok (split_on (CHR ''.'') (to_ascii_lowercase d)) \<and>
     h = to_ascii_lowercase s @ ''.'' @ to_ascii_lowercase r @ ''.'' @ to_ascii_lowercase t @ ''.svc.'' @
       to_ascii_lowercase d"
  by (auto simp: dummy_ip_hostname_def Let_def rbind_eq_Inr validate_label_Inr validate_labels_Inr
      split: if_splits)

lemma svc_split: "''.svc.'' @ d = CHR ''.'' # ''svc'' @ CHR ''.'' # d"
  by simp

lemma label_ok_svc: "label_ok ''svc''"
  by code_simp

lemma hostname_labels:
  assumes "dummy_ip_hostname s r t d = Inr h"
  shows "split_on (CHR ''.'') h = to_ascii_lowercase s # to_ascii_lowercase r # to_ascii_lowercase t # ''svc'' #
    split_on (CHR ''.'') (to_ascii_lowercase d)"
proof -
  let ?s = "to_ascii_lowercase s" and ?r = "to_ascii_lowercase r"
  let ?t = "to_ascii_lowercase t" and ?d = "to_ascii_lowercase d"
  have ok: "label_ok ?s" "label_ok ?r" "label_ok ?t"
    and h: "h = ?s @ CHR ''.'' # ?r @ CHR ''.'' # ?t @ CHR ''.'' # ''svc'' @ CHR ''.'' # ?d"
    using assms by (auto simp: dummy_ip_hostname_iff)
  show ?thesis unfolding h
    by (simp only: split_on_append dot_not_in_label [OF ok(1)] dot_not_in_label [OF ok(2)]
        dot_not_in_label [OF ok(3)] dot_not_in_label [OF label_ok_svc] not_False_eq_True)
qed

section \<open>Properties\<close>

text \<open>The hostname convention is canonical and reversible. A call succeeds exactly when
  the lowercased service, role and tenant and every dot-separated piece of the lowercased
  trust domain are DNS labels (1 to 63 of \<open>a-z 0-9 -\<close>, no hyphen at either end). The labels
  of the result are then all valid, and two calls give the same hostname only if their
  service, role, tenant and trust domain agree up to ASCII case.\<close>

theorem hostname_canonical:
  "((\<exists>h. dummy_ip_hostname s r t d = Inr h) \<longleftrightarrow>
      list_all label_ok ([to_ascii_lowercase s, to_ascii_lowercase r, to_ascii_lowercase t] @
        split_on (CHR ''.'') (to_ascii_lowercase d))) \<and>
   (dummy_ip_hostname s r t d = Inr h \<longrightarrow>
      list_all label_ok (split_on (CHR ''.'') h) \<and>
      (dummy_ip_hostname s' r' t' d' = Inr h \<longrightarrow>
         map to_ascii_lowercase [s, r, t, d] = map to_ascii_lowercase [s', r', t', d']))"
proof (intro conjI impI)
  have "label_ok [] = False" by (simp add: label_ok_def)
  then have "list_all label_ok (split_on (CHR ''.'') x) \<Longrightarrow> x \<noteq> []" for x by auto
  then show "(\<exists>h. dummy_ip_hostname s r t d = Inr h) \<longleftrightarrow>
      list_all label_ok ([to_ascii_lowercase s, to_ascii_lowercase r, to_ascii_lowercase t] @
        split_on (CHR ''.'') (to_ascii_lowercase d))"
    by (auto simp: dummy_ip_hostname_iff)
next
  assume h: "dummy_ip_hostname s r t d = Inr h"
  then show "list_all label_ok (split_on (CHR ''.'') h)"
    unfolding hostname_labels [OF h] using label_ok_svc by (simp add: dummy_ip_hostname_iff)
  assume h': "dummy_ip_hostname s' r' t' d' = Inr h"
  then have "split_on (CHR ''.'') (to_ascii_lowercase d) = split_on (CHR ''.'') (to_ascii_lowercase d')"
    and "map to_ascii_lowercase [s, r, t] = map to_ascii_lowercase [s', r', t']"
    using hostname_labels [OF h] hostname_labels [OF h'] by simp_all
  moreover from this(1) have "to_ascii_lowercase d = to_ascii_lowercase d'"
    by (metis join_split)
  ultimately show "map to_ascii_lowercase [s, r, t, d] = map to_ascii_lowercase [s', r', t', d']"
    by simp
qed

theorem hostname_canonical_witness:
  "\<exists>h. dummy_ip_hostname ''DB'' ''Replica'' ''acme'' ''fleet.example'' = Inr h"
proof -
  have "list_all label_ok ([to_ascii_lowercase ''DB'', to_ascii_lowercase ''Replica'', to_ascii_lowercase ''acme''] @
      split_on (CHR ''.'') (to_ascii_lowercase ''fleet.example''))"
    by code_simp
  then show ?thesis using hostname_canonical [of "''DB''" "''Replica''" "''acme''" "''fleet.example''"] by blast
qed

end
