(* ===== verification/Tpm_Pure.thy ===== *)
theory Tpm_Pure
  imports Der_Ext Quote_Verify
begin

text \<open>
  The device-free part of the TPM client (\<open>attestation/tpm.rs\<close>): endpoints, the name of an
  attestation key, the two directions of the RSA public key (\<open>rsa_public_to_spki\<close>,
  \<open>parse_rsa_public_key\<close>), PCR slots, the key templates and the marshaled signature. The
  structures of \<open>tss_esapi\<close> the code builds are datatypes with the fields the code sets;
  the crate's fallible conversions into its buffer types, the SPKI parser and the hashes
  are fields of a record. A slice or an index out of range panics.
\<close>

section \<open>Errors, endpoints, text\<close>

datatype tss_error = Esapi string | InvalidEk string | InvalidAk string

datatype tpm_endpoint =
    Device (ep_path: string)
  | Swtpm (ep_host: string) (ep_port: u16)
  | Mssim (ep_host: string) (ep_port: u16)

text \<open>\<open>{}\<close> of an unsigned integer and \<open>{:04X}\<close> of a \<open>u16\<close>.\<close>

fun dec :: "nat \<Rightarrow> string" where
  "dec n = (if n < 10 then [char_of (48 + n)] else dec (n div 10) @ [char_of (48 + n mod 10)])"

declare dec.simps [simp del]

definition hex4 :: "u16 \<Rightarrow> string" where
  "hex4 w = map (\<lambda>k. ''0123456789ABCDEF'' ! unat (drop_bit k w AND 0x0f)) [12, 8, 4, 0]"

definition tcti_str :: "tpm_endpoint \<Rightarrow> string" where
  "tcti_str endpoint = (case endpoint of
       Device path \<Rightarrow> ''device:'' @ path
     | Swtpm host port \<Rightarrow> ''swtpm:host='' @ host @ '',port='' @ dec (unat port)
     | Mssim host port \<Rightarrow> ''mssim:host='' @ host @ '',port='' @ dec (unat port))"

section \<open>Structures of the TPM library\<close>

record object_attrs =
  oa_fixed_tpm :: bool
  oa_fixed_parent :: bool
  oa_sensitive_data_origin :: bool
  oa_user_with_auth :: bool
  oa_admin_with_policy :: bool
  oa_restricted :: bool
  oa_decrypt :: bool
  oa_sign_encrypt :: bool

text \<open>\<open>ObjectAttributes::builder()\<close> starts with no attribute set.\<close>

definition no_attrs :: object_attrs where
  "no_attrs = \<lparr>oa_fixed_tpm = False, oa_fixed_parent = False, oa_sensitive_data_origin = False,
     oa_user_with_auth = False, oa_admin_with_policy = False, oa_restricted = False, oa_decrypt = False,
     oa_sign_encrypt = False\<rparr>"

datatype sym_def = SymNull | Aes128Cfb

datatype rsa_key_bits = Rsa2048 | Rsa3072

datatype rsa_scheme_sel = RsaSchemeNull | RsaSchemeOther

datatype ecc_scheme_sel = EcDsaSha256 | EccSchemeOther

datatype ecc_curve = NistP256 | EccCurveOther

datatype kdf_sel = KdfNull | KdfOther

datatype keyed_hash_sel = KeyedHashNull | KeyedHashOther

datatype tpm_public =
    PublicRsa object_attrs hash_kind bytes sym_def rsa_scheme_sel rsa_key_bits u32 bytes
  | PublicEcc object_attrs hash_kind bytes sym_def ecc_scheme_sel ecc_curve kdf_sel "bytes \<times> bytes"
  | PublicKeyedHash hash_kind object_attrs bytes keyed_hash_sel bytes
  | PublicOther

datatype tpm_signature = EcDsa bytes bytes | RsaSsa bytes | SigOther

datatype buffer_kind =
  BDigest | BName | BIdObject | BEncryptedSecret | BData | BSensitiveData | BPrivate | BPublicKeyRsa

text \<open>
  Conversions of the library: \<open>Some e\<close> is the display of the error. \<open>spki_from_der\<close> gives the
  algorithm's object identifier and the raw bytes of the key.
\<close>

record tss_types =
  tcti_from_str :: "string \<Rightarrow> string option"
  attrs_build :: "object_attrs \<Rightarrow> string option"
  buffer_try_from :: "buffer_kind \<Rightarrow> bytes \<Rightarrow> string option"
  exponent_try_from :: "u32 \<Rightarrow> string option"
  selection_build :: "nat list \<Rightarrow> string option"
  spki_from_der :: "bytes \<Rightarrow> string + nat list \<times> bytes"

definition conv :: "string option \<Rightarrow> (string \<Rightarrow> tss_error) \<Rightarrow> 'a \<Rightarrow> tss_error + 'a" where
  "conv r err a = (case r of Some e \<Rightarrow> Inl (err e) | None \<Rightarrow> Inr a)"

definition build_tcti_name_conf :: "tss_types \<Rightarrow> tpm_endpoint \<Rightarrow> tss_error + string" where
  "build_tcti_name_conf Y endpoint =
     conv (tcti_from_str Y (tcti_str endpoint)) (\<lambda>e. Esapi (''TCTI parse failed: '' @ e)) (tcti_str endpoint)"

section \<open>Name of an attestation key\<close>

definition compute_ak_name ::
    "tss_types \<Rightarrow> (hash_kind \<Rightarrow> bytes \<Rightarrow> bytes) \<Rightarrow> bytes \<Rightarrow> tss_error + bytes" where
  "compute_ak_name Y sha2 tpmt_public =
     (if length tpmt_public < 4 then Inl (InvalidAk ''TPMT_PUBLIC too short to contain nameAlg'')
      else
        let name_alg = from_be [tpmt_public ! 2, tpmt_public ! 3] :: u16
        in rbind (if name_alg = 0x000B then Inr (sha2 Sha256 tpmt_public)
                  else if name_alg = 0x000C then Inr (sha2 Sha384 tpmt_public)
                  else if name_alg = 0x000D then Inr (sha2 Sha512 tpmt_public)
                  else if name_alg = 0x0004 then
                    Inl (InvalidAk ''unsupported nameAlg SHA-1 (0x0004): fleet requires a SHA-2 nameAlg'')
                  else Inl (InvalidAk (''unsupported or unknown nameAlg 0x'' @ hex4 name_alg)))
             (\<lambda>digest.
               let name = be_bytes 2 name_alg @ digest
               in conv (buffer_try_from Y BName name) (\<lambda>e. InvalidAk (''AK name: '' @ e)) name))"

section \<open>RSA public key, reading\<close>

definition tpm_parse_der_length :: "bytes \<Rightarrow> tss_error + nat \<times> nat" where
  "tpm_parse_der_length bs =
     (case bs of [] \<Rightarrow> Inl (InvalidEk ''unexpected end of DER'')
      | b # rest \<Rightarrow>
          if b < 0x80 then Inr (unat b, 1)
          else (let n = unat (b AND 0x7f)
                in if n = 0 \<or> n > 4 \<or> length bs < 1 + n then Inl (InvalidEk ''invalid DER length'')
                   else Inr (be_nat (take n rest), 1 + n)))"

definition slice_range :: "nat \<Rightarrow> nat \<Rightarrow> bytes \<Rightarrow> bytes outcome" where
  "slice_range from len bs = (if from + len > length bs then Panics else Returns (take len (drop from bs)))"

text \<open>\<open>?\<close> inside a function that may panic.\<close>

definition try_out :: "'e + 'a \<Rightarrow> ('a \<Rightarrow> ('e + 'b) outcome) \<Rightarrow> ('e + 'b) outcome" where
  "try_out m f = (case m of Inl e \<Rightarrow> Returns (Inl e) | Inr a \<Rightarrow> f a)"

definition strip_sign :: "bytes \<Rightarrow> bytes" where
  "strip_sign modulus = (if length modulus > 1 \<and> modulus ! 0 = 0 then tl modulus else modulus)"

definition parse_rsa_public_key :: "bytes \<Rightarrow> (tss_error + bytes \<times> u32) outcome" where
  "parse_rsa_public_key der =
     (if der = [] \<or> der ! 0 \<noteq> 0x30 then Returns (Inl (InvalidEk ''expected SEQUENCE'')) else
      try_out (tpm_parse_der_length (drop 1 der)) (\<lambda>(_, offset).
      let offset = offset + 1 in
      if length der \<le> offset \<or> der ! offset \<noteq> 0x02 then Returns (Inl (InvalidEk ''expected INTEGER for modulus'')) else
      try_out (tpm_parse_der_length (drop (offset + 1) der)) (\<lambda>(mod_len, mod_len_bytes).
      let offset = offset + (1 + mod_len_bytes) in
      obind (slice_range offset mod_len der) (\<lambda>modulus.
      let modulus = strip_sign modulus; offset = offset + mod_len in
      if length der \<le> offset \<or> der ! offset \<noteq> 0x02 then Returns (Inl (InvalidEk ''expected INTEGER for exponent'')) else
      try_out (tpm_parse_der_length (drop (offset + 1) der)) (\<lambda>(exp_len, exp_len_bytes).
      let offset = offset + (1 + exp_len_bytes) in
      obind (slice_range offset exp_len der) (\<lambda>exp_bytes.
      let exponent = from_be exp_bytes :: u32
      in Returns (Inr (modulus, if exponent = 65537 then 0 else exponent))))))))"

section \<open>RSA public key, writing\<close>

text \<open>The loop of \<open>der_len\<close>: the bytes of a length, most significant first.\<close>

fun len_bytes :: "nat \<Rightarrow> bytes" where
  "len_bytes l = (if l = 0 then [] else len_bytes (l div 256) @ [word_of_nat (l mod 256)])"

declare len_bytes.simps [simp del]

definition der_len :: "nat \<Rightarrow> bytes" where
  "der_len len =
     (if len < 0x80 then [word_of_nat len]
      else let bs = len_bytes len in (0x80 OR word_of_nat (length bs)) # bs)"

fun strip_zeros :: "bytes \<Rightarrow> bytes" where
  "strip_zeros (a # b # v) = (if a = 0 then strip_zeros (b # v) else a # b # v)"
| "strip_zeros v = v"

definition der_integer :: "bytes \<Rightarrow> bytes outcome" where
  "der_integer v =
     (let v = strip_zeros v
      in if v = [] then Panics
         else let body = (if v ! 0 AND 0x80 \<noteq> 0 then [0] else []) @ v
              in Returns ([0x02] @ der_len (length body) @ body))"

definition der_seq :: "bytes \<Rightarrow> bytes" where
  "der_seq body = [0x30] @ der_len (length body) @ body"

definition der_bitstring :: "bytes \<Rightarrow> bytes" where
  "der_bitstring body = [0x03] @ der_len (length body + 1) @ [0] @ body"

definition RSA_ALG :: bytes where
  "RSA_ALG = [0x06, 0x09, 0x2a, 0x86, 0x48, 0x86, 0xf7, 0x0d, 0x01, 0x01, 0x01] @ [0x05, 0x00]"

definition rsa_seq :: "bytes \<Rightarrow> u32 \<Rightarrow> bytes outcome" where
  "rsa_seq modulus exponent =
     obind (der_integer modulus) (\<lambda>mod_int.
     obind (der_integer (be_bytes 4 exponent)) (\<lambda>exp_int.
       Returns (der_seq (mod_int @ exp_int))))"

definition rsa_public_to_spki :: "bytes \<Rightarrow> u32 \<Rightarrow> bytes outcome" where
  "rsa_public_to_spki modulus exponent =
     (let alg_seq = der_seq RSA_ALG
      in obind (rsa_seq modulus exponent) (\<lambda>rsa.
           Returns (der_seq (alg_seq @ der_bitstring rsa))))"

section \<open>Slots, templates, signatures\<close>

definition pcr_slot_from_index :: "u8 \<Rightarrow> tss_error + nat" where
  "pcr_slot_from_index i =
     (if unat i \<le> 23 then Inr (unat i)
      else Inl (Esapi (''PCR index '' @ dec (unat i) @ '' out of range 0-23'')))"

fun slots_from_indices :: "u8 list \<Rightarrow> tss_error + nat list" where
  "slots_from_indices [] = Inr []"
| "slots_from_indices (i # is) =
     rbind (pcr_slot_from_index i) (\<lambda>s. rbind (slots_from_indices is) (\<lambda>ss. Inr (s # ss)))"

definition RSA_OID :: "nat list" where
  "RSA_OID = [1, 2, 840, 113549, 1, 1, 1]"

definition spki_to_tpm_public :: "tss_types \<Rightarrow> bytes \<Rightarrow> (tss_error + tpm_public) outcome" where
  "spki_to_tpm_public Y spki_der =
     (case spki_from_der Y spki_der of
        Inl e \<Rightarrow> Returns (Inl (InvalidEk (''SPKI parse failed: '' @ e)))
      | Inr (oid, raw_bytes) \<Rightarrow>
        if oid \<noteq> RSA_OID then Returns (Inl (InvalidEk ''only RSA EKs are supported for MakeCredential'')) else
        obind (parse_rsa_public_key raw_bytes) (\<lambda>r. Returns (
          rbind r (\<lambda>(modulus, exponent).
          rbind (if length modulus * 8 = 2048 then Inr Rsa2048
                 else if length modulus * 8 = 3072 then Inr Rsa3072
                 else Inl (InvalidEk (''unsupported RSA EK size: '' @ dec (length modulus * 8)))) (\<lambda>key_bits.
          let attrs = no_attrs\<lparr>oa_restricted := True, oa_decrypt := True\<rparr> in
          rbind (conv (attrs_build Y attrs) (\<lambda>e. InvalidEk (''object attributes: '' @ e)) attrs) (\<lambda>object_attributes.
          rbind (conv (exponent_try_from Y exponent) (\<lambda>e. InvalidEk (''exponent: '' @ e)) exponent) (\<lambda>exponent.
          rbind (conv (buffer_try_from Y BPublicKeyRsa modulus) (\<lambda>e. InvalidEk (''modulus: '' @ e)) modulus) (\<lambda>unique.
            Inr (PublicRsa object_attributes Sha256 [] Aes128Cfb RsaSchemeNull key_bits exponent unique)))))))))"

definition EK_AUTH_POLICY :: bytes where
  "EK_AUTH_POLICY =
     [0x83, 0x71, 0x97, 0x67, 0x44, 0x84, 0xb3, 0xf8, 0x1a, 0x90, 0xcc, 0x8d, 0x46, 0xa5, 0xd7, 0x24,
      0xfd, 0x52, 0xd7, 0x6e, 0x06, 0x52, 0x0b, 0x64, 0xf2, 0xa1, 0xda, 0x1b, 0x33, 0x14, 0x69, 0xaa]"

definition ek_template :: "tss_types \<Rightarrow> tss_error + tpm_public" where
  "ek_template Y =
     (let attrs = no_attrs\<lparr>oa_fixed_tpm := True, oa_fixed_parent := True, oa_sensitive_data_origin := True,
        oa_admin_with_policy := True, oa_restricted := True, oa_decrypt := True\<rparr>
      in rbind (conv (attrs_build Y attrs) (\<lambda>e. InvalidEk (''EK attrs: '' @ e)) attrs) (\<lambda>attrs.
         rbind (conv (buffer_try_from Y BDigest EK_AUTH_POLICY) (\<lambda>e. InvalidEk (''EK authPolicy: '' @ e)) EK_AUTH_POLICY) (\<lambda>pol.
         rbind (conv (exponent_try_from Y 0) (\<lambda>e. InvalidEk (''EK exponent: '' @ e)) 0) (\<lambda>ex.
         rbind (conv (buffer_try_from Y BPublicKeyRsa (replicate 256 0)) (\<lambda>e. InvalidEk (''EK unique: '' @ e)) (replicate 256 0)) (\<lambda>unique.
           Inr (PublicRsa attrs Sha256 pol Aes128Cfb RsaSchemeNull Rsa2048 ex unique))))))"

definition ak_template :: "tss_types \<Rightarrow> tss_error + tpm_public" where
  "ak_template Y =
     (let attrs = no_attrs\<lparr>oa_fixed_tpm := True, oa_fixed_parent := True, oa_sensitive_data_origin := True,
        oa_user_with_auth := True, oa_restricted := True, oa_sign_encrypt := True\<rparr>
      in rbind (conv (attrs_build Y attrs) (\<lambda>e. InvalidAk (''AK attrs: '' @ e)) attrs) (\<lambda>attrs.
           Inr (PublicEcc attrs Sha256 [] SymNull EcDsaSha256 NistP256 KdfNull ([], []))))"

definition srk_template :: "tss_types \<Rightarrow> tss_error + tpm_public" where
  "srk_template Y =
     (let attrs = no_attrs\<lparr>oa_fixed_tpm := True, oa_fixed_parent := True, oa_sensitive_data_origin := True,
        oa_user_with_auth := True, oa_restricted := True, oa_decrypt := True\<rparr>
      in rbind (conv (attrs_build Y attrs) (\<lambda>e. Esapi (''SRK attrs: '' @ e)) attrs) (\<lambda>attrs.
         rbind (conv (exponent_try_from Y 0) (\<lambda>e. Esapi (''SRK exponent: '' @ e)) 0) (\<lambda>ex.
         rbind (conv (buffer_try_from Y BPublicKeyRsa (replicate 256 0)) (\<lambda>e. Esapi (''SRK unique: '' @ e)) (replicate 256 0)) (\<lambda>unique.
           Inr (PublicRsa attrs Sha256 [] Aes128Cfb RsaSchemeNull Rsa2048 ex unique)))))"

definition sealed_object_template :: "tss_types \<Rightarrow> bytes \<Rightarrow> bytes \<Rightarrow> tss_error + tpm_public" where
  "sealed_object_template Y policy_digest seal_data =
     (let attrs = no_attrs\<lparr>oa_fixed_tpm := True, oa_fixed_parent := True, oa_admin_with_policy := True\<rparr>
      in rbind (conv (attrs_build Y attrs) (\<lambda>e. Esapi (''sealed object attrs: '' @ e)) attrs) (\<lambda>attrs.
         rbind (conv (buffer_try_from Y BDigest seal_data) (\<lambda>e. Esapi (''seal unique: '' @ e)) seal_data) (\<lambda>unique.
           Inr (PublicKeyedHash Sha256 attrs policy_digest KeyedHashNull unique))))"

fun extract_rsa_public :: "tpm_public \<Rightarrow> tss_error + bytes \<times> u32" where
  "extract_rsa_public (PublicRsa _ _ _ _ _ _ ex unique) = Inr (unique, if ex = 0 then 65537 else ex)"
| "extract_rsa_public _ = Inl (InvalidEk ''expected RSA EK public'')"

definition pad32 :: "bytes \<Rightarrow> bytes" where
  "pad32 v = replicate (32 - length v) 0 @ v"

fun marshal_signature :: "tpm_signature \<Rightarrow> tss_error + bytes" where
  "marshal_signature (EcDsa r s) = Inr (pad32 r @ pad32 s)"
| "marshal_signature (RsaSsa sig) = Inr sig"
| "marshal_signature SigOther = Inl (Esapi ''unsupported quote signature scheme'')"

section \<open>Lemmas\<close>

lemma be_nat_len_bytes: "be_nat (len_bytes l) = l"
proof (induction l rule: len_bytes.induct)
  case (1 l)
  show ?case
  proof (cases "l = 0")
    case False
    then have "len_bytes l = len_bytes (l div 256) @ [word_of_nat (l mod 256)]"
      by (subst len_bytes.simps) simp
    then show ?thesis using 1 False by (simp add: be_nat_snoc unat_of_nat)
  qed (simp add: len_bytes.simps)
qed

lemma length_len_bytes: "l < 256 ^ k \<Longrightarrow> length (len_bytes l) \<le> k"
proof (induction k arbitrary: l)
  case 0
  then show ?case by (simp add: len_bytes.simps)
next
  case (Suc k)
  show ?case
  proof (cases "l = 0")
    case False
    have "l div 256 < 256 ^ k" using Suc.prems by (simp add: less_mult_imp_div_less mult.commute)
    then show ?thesis using Suc.IH [of "l div 256"] False by (subst len_bytes.simps) simp
  qed (simp add: len_bytes.simps)
qed

lemma len_bytes_ne: "0 < l \<Longrightarrow> len_bytes l \<noteq> []"
  by (subst len_bytes.simps) simp

definition long_form_ok :: "nat \<Rightarrow> bool" where
  "long_form_ok k \<longleftrightarrow> \<not> (0x80 OR word_of_nat k :: u8) < 0x80 \<and> unat ((0x80 OR word_of_nat k :: u8) AND 0x7f) = k"

lemma long_form_head: "1 \<le> k \<Longrightarrow> k \<le> 4 \<Longrightarrow> long_form_ok k"
proof -
  assume "1 \<le> k" "k \<le> 4"
  then have "k \<in> set [1, 2, 3, 4]" by auto
  moreover have "list_all long_form_ok [1, 2, 3, 4]" by code_simp
  ultimately show ?thesis by (metis list_all_iff)
qed

lemma tpm_parse_der_len:
  assumes "l < 256 ^ 4"
  shows "tpm_parse_der_length (der_len l @ r) = Inr (l, length (der_len l))"
proof (cases "l < 0x80")
  case True
  then show ?thesis using word_of_nat_less_128 [of l] unat_small [of l]
    by (simp add: der_len_def tpm_parse_der_length_def)
next
  case False
  let ?b = "len_bytes l"
  have k: "1 \<le> length ?b" "length ?b \<le> 4"
    using length_len_bytes [OF assms] len_bytes_ne [of l] False by (cases ?b; simp)+
  then have "long_form_ok (length ?b)" by (rule long_form_head)
  then show ?thesis
    using False k by (simp add: der_len_def tpm_parse_der_length_def long_form_ok_def be_nat_len_bytes Let_def len_bytes_ne)
qed

lemma strip_zeros_head: "strip_zeros v = a # b # w \<Longrightarrow> a \<noteq> 0"
  by (induction v rule: strip_zeros.induct) (auto split: if_splits)

lemma strip_zeros_Nil [simp]: "strip_zeros v = [] \<longleftrightarrow> v = []"
  by (induction v rule: strip_zeros.induct) auto

lemma length_strip_zeros: "length (strip_zeros v) \<le> length v"
  by (induction v rule: strip_zeros.induct) auto

lemma from_be_strip_zeros: "from_be (strip_zeros v) = from_be v"
  by (induction v rule: strip_zeros.induct) auto

text \<open>The body of a DER integer: the stripped value behind a sign byte where it needs one.\<close>

definition int_body :: "bytes \<Rightarrow> bytes" where
  "int_body v = (if strip_zeros v ! 0 AND 0x80 \<noteq> 0 then [0] else []) @ strip_zeros v"

lemma der_integer_eq: "v \<noteq> [] \<Longrightarrow> der_integer v = Returns (0x02 # der_len (length (int_body v)) @ int_body v)"
  by (simp add: der_integer_def int_body_def Let_def)

lemma strip_sign_int_body: "v \<noteq> [] \<Longrightarrow> strip_sign (int_body v) = strip_zeros v"
proof (cases "strip_zeros v")
  case (Cons a w)
  then show ?thesis
    using strip_zeros_head [of v a] by (cases w) (auto simp: int_body_def strip_sign_def)
qed simp

lemma from_be_int_body: "from_be (int_body v) = (from_be v :: u32)"
  by (simp add: int_body_def from_be_strip_zeros)

lemma length_int_body: "length (int_body v) \<le> length v + 1"
  using length_strip_zeros [of v] by (simp add: int_body_def)

lemma slice_range_mid: "length a = i \<Longrightarrow> length b = n \<Longrightarrow> slice_range i n (a @ b @ c) = Returns b"
  by (simp add: slice_range_def)

lemma nth_mid: "length a = i \<Longrightarrow> (a @ x # b) ! i = x"
  by (simp add: nth_append)

lemma drop_mid: "length a = i \<Longrightarrow> drop (Suc i) (a @ x # b) = b"
  by simp

lemma try_out_simps [simp]: "try_out (Inl e) f = Returns (Inl e)" "try_out (Inr a) f = f a"
  by (simp_all add: try_out_def)

lemma parse_rsa_layout:
  assumes "n < 256 ^ 4" "length A < 256 ^ 4" "length B < 256 ^ 4"
    and der: "der = 0x30 # der_len n @ 0x02 # der_len (length A) @ A @ 0x02 # der_len (length B) @ B @ rest"
  shows "parse_rsa_public_key der = Returns (Inr (strip_sign A, if from_be B = (65537 :: u32) then 0 else from_be B))"
proof -
  let ?X2 = "A @ 0x02 # der_len (length B) @ B @ rest"
  let ?X1 = "der_len (length A) @ ?X2"
  let ?P1 = "0x30 # der_len n" and ?P2 = "0x30 # der_len n @ 0x02 # der_len (length A)"
  let ?P3 = "?P2 @ A" and ?P4 = "?P2 @ A @ 0x02 # der_len (length B)"
  let ?o1 = "length (der_len n) + 1"
  let ?o2 = "?o1 + (1 + length (der_len (length A)))"
  let ?o3 = "?o2 + length A"
  let ?o4 = "?o3 + (1 + length (der_len (length B)))"
  have f1: "der ! ?o1 = 0x02" "\<not> length der \<le> ?o1" "drop (?o1 + 1) der = ?X1"
    unfolding der using nth_mid [of ?P1 ?o1 "0x02" ?X1] drop_mid [of ?P1 ?o1 "0x02" ?X1] by simp_all
  have f2: "slice_range ?o2 (length A) der = Returns A"
    unfolding der using slice_range_mid [of ?P2 ?o2 A "length A" "0x02 # der_len (length B) @ B @ rest"] by simp
  have f3: "der ! ?o3 = 0x02" "\<not> length der \<le> ?o3" "drop (?o3 + 1) der = der_len (length B) @ B @ rest"
    unfolding der using nth_mid [of ?P3 ?o3 "0x02" "der_len (length B) @ B @ rest"]
      drop_mid [of ?P3 ?o3 "0x02" "der_len (length B) @ B @ rest"] by simp_all
  have f4: "slice_range ?o4 (length B) der = Returns B"
    unfolding der using slice_range_mid [of ?P4 ?o4 B "length B" rest] by simp
  have f0: "der \<noteq> []" "der ! 0 = 0x30" "drop 1 der = der_len n @ 0x02 # ?X1"
    unfolding der by simp_all
  show ?thesis
    unfolding parse_rsa_public_key_def f0(3) Let_def
    by (simp only: f0(1,2) tpm_parse_der_len [OF assms(1)] try_out_simps split_conv f1
        tpm_parse_der_len [OF assms(2)] f2 obind_simps f3 tpm_parse_der_len [OF assms(3)] f4
        simp_thms if_False)
qed

lemma rsa_seq_eq:
  assumes "m \<noteq> []"
  obtains n where "n = length (0x02 # der_len (length (int_body m)) @ int_body m @ 0x02 #
      der_len (length (int_body (be_bytes 4 e))) @ int_body (be_bytes 4 e))"
    "rsa_seq m e = Returns (0x30 # der_len n @ 0x02 # der_len (length (int_body m)) @ int_body m @ 0x02 #
      der_len (length (int_body (be_bytes 4 e))) @ int_body (be_bytes 4 e))"
proof -
  have "be_bytes 4 e \<noteq> []" using length_be_bytes [of 4 e] by fastforce
  then show ?thesis using that assms by (simp add: rsa_seq_def der_integer_eq der_seq_def add.assoc)
qed

lemma length_der_len: "l < 256 ^ 4 \<Longrightarrow> length (der_len l) \<le> 5"
  using length_len_bytes [of l 4] by (simp add: der_len_def Let_def)

lemma rsa_seq_parses:
  assumes "m \<noteq> []" "length m < 2 ^ 31"
  shows "\<exists>s. rsa_seq m e = Returns s \<and>
    parse_rsa_public_key s = Returns (Inr (strip_zeros m, if e = 65537 then 0 else e)) \<and>
    length s \<le> length m + 30"
proof -
  let ?A = "int_body m" and ?B = "int_body (be_bytes 4 e)"
  obtain n where n: "n = length (0x02 # der_len (length ?A) @ ?A @ 0x02 # der_len (length ?B) @ ?B)"
    and s: "rsa_seq m e = Returns (0x30 # der_len n @ 0x02 # der_len (length ?A) @ ?A @ 0x02 # der_len (length ?B) @ ?B)"
    using assms(1) by (rule rsa_seq_eq)
  have l: "length ?A \<le> 2 ^ 31" "length ?B \<le> 5"
    using assms(2) length_int_body [of m] length_int_body [of "be_bytes 4 e"] by simp_all
  then have d: "length (der_len (length ?A)) \<le> 5" "length (der_len (length ?B)) \<le> 5"
    by (intro length_der_len; simp)+
  then have b: "n < 256 ^ 4" "length ?A < 256 ^ 4" "length ?B < 256 ^ 4" using n l by simp_all
  have "length (der_len n) \<le> 5" using b(1) by (rule length_der_len)
  then have "1 + length (der_len n) + n \<le> length m + 30" using n d l(2) length_int_body [of m] by simp
  moreover have "from_be ?B = e" by (simp only: from_be_int_body from_be_bytes_u32)
  ultimately show ?thesis
    using parse_rsa_layout [OF b, where rest = "[]"] s strip_sign_int_body [OF assms(1)] n by simp
qed

lemma strip_zeros_id: "v ! 0 \<noteq> 0 \<Longrightarrow> strip_zeros v = v"
  by (cases v rule: strip_zeros.cases) auto

lemma be_nat_pad: "be_nat (replicate n 0 @ v) = be_nat v"
proof (induction v rule: rev_induct)
  case Nil
  then show ?case by (induction n) (simp_all add: be_nat_def)
next
  case (snoc x v)
  then show ?case by (simp only: append_assoc [symmetric] be_nat_snoc)
qed

text \<open>Documented behaviour of the SPKI parser on an RSA key: its algorithm and its key bits.\<close>

definition spki_splits :: "tss_types \<Rightarrow> bool" where
  "spki_splits Y \<longleftrightarrow> (\<forall>k. length k < 65536 \<longrightarrow>
     spki_from_der Y (der_seq (der_seq RSA_ALG @ der_bitstring k)) = Inr (RSA_OID, k))"

definition ek_attrs :: object_attrs where
  "ek_attrs = no_attrs\<lparr>oa_restricted := True, oa_decrypt := True\<rparr>"

lemma spki_to_tpm_public_rsa:
  assumes "spki_splits Y" "parse_rsa_public_key k = Returns (Inr (m, e))" "length m = 256" "length k < 65536"
    and "attrs_build Y ek_attrs = None" "exponent_try_from Y e = None" "buffer_try_from Y BPublicKeyRsa m = None"
  shows "spki_to_tpm_public Y (der_seq (der_seq RSA_ALG @ der_bitstring k)) =
    Returns (Inr (PublicRsa ek_attrs Sha256 [] Aes128Cfb RsaSchemeNull Rsa2048 e m))"
  using assms unfolding spki_to_tpm_public_def spki_splits_def
  by (simp add: conv_def ek_attrs_def)

lemma take2_drop2: "4 \<le> length p \<Longrightarrow> take 2 (drop 2 p) = [p ! 2, p ! 3]"
  by (rule nth_equalityI) (auto simp: numeral_eq_Suc less_Suc_eq)

lemma ak_name_step:
  assumes "\<not> length p < 4"
  shows "\<exists>msg. compute_ak_name Y sha2 p = (case hash_of_alg (from_be (take 2 (drop 2 p))) of
     Inl _ \<Rightarrow> Inl (InvalidAk msg)
   | Inr (n, kind) \<Rightarrow> (let name = be_bytes 2 (from_be (take 2 (drop 2 p)) :: u16) @ sha2 kind p
       in conv (buffer_try_from Y BName name) (\<lambda>e. InvalidAk (''AK name: '' @ e)) name))"
proof -
  define alg :: u16 where "alg = from_be (take 2 (drop 2 p))"
  have "from_be [p ! 2, p ! 3] = alg" using take2_drop2 [of p] assms by (simp add: alg_def)
  then show ?thesis
    unfolding alg_def [symmetric] using assms
    by (simp add: compute_ak_name_def hash_of_alg_def TPM_ALG_SHA256_def TPM_ALG_SHA384_def TPM_ALG_SHA512_def Let_def)
qed

text \<open>A concrete library for the applications below: every conversion accepts, and the SPKI parser
  peels the two sequences and the bit string.\<close>

definition plain_types :: tss_types where
  "plain_types = \<lparr>tcti_from_str = (\<lambda>_. None), attrs_build = (\<lambda>_. None), buffer_try_from = (\<lambda>_ _. None),
     exponent_try_from = (\<lambda>_. None), selection_build = (\<lambda>_. None),
     spki_from_der = (\<lambda>d. case parse_der_tlv d 0x30 of None \<Rightarrow> Inl []
        | Some body \<Rightarrow> (case parse_der_tlv (drop (length (der_seq RSA_ALG)) body) 0x03 of None \<Rightarrow> Inl []
            | Some bits \<Rightarrow> Inr (RSA_OID, tl bits)))\<rparr>"

lemma parse_der_length_tpm: "tpm_parse_der_length bs = Inr p \<Longrightarrow> parse_der_length bs = Some p"
  by (auto simp: tpm_parse_der_length_def parse_der_length_def Let_def split: list.splits if_splits)

lemma parse_der_tlv_der_len:
  "length v < 256 ^ 4 \<Longrightarrow> parse_der_tlv (tag # der_len (length v) @ v) tag = Some v"
  using parse_der_length_tpm [OF tpm_parse_der_len [of "length v" v]] by (simp add: parse_der_tlv_def)

lemma plain_types_spki: "spki_splits plain_types"
  unfolding spki_splits_def
proof (intro allI impI)
  fix k :: bytes assume k: "length k < 65536"
  have "length (der_len (length k + 1)) \<le> 5" using k by (intro length_der_len) simp
  moreover have "length (der_seq RSA_ALG) = 15" by (simp add: der_seq_def RSA_ALG_def der_len_def)
  ultimately have "length (der_seq RSA_ALG @ der_bitstring k) < 256 ^ 4" using k by (simp add: der_bitstring_def)
  from parse_der_tlv_der_len [OF this, of "0x30"]
  have "parse_der_tlv (der_seq (der_seq RSA_ALG @ der_bitstring k)) 0x30 = Some (der_seq RSA_ALG @ der_bitstring k)"
    by (simp add: der_seq_def)
  moreover have "parse_der_tlv (der_bitstring k) 0x03 = Some (0 # k)"
    using parse_der_tlv_der_len [of "0 # k" "0x03"] k by (simp add: der_bitstring_def)
  ultimately show "spki_from_der plain_types (der_seq (der_seq RSA_ALG @ der_bitstring k)) = Inr (RSA_OID, k)"
    by (simp add: plain_types_def)
qed

lemma slots_from_indices_iff:
  "slots_from_indices is = Inr ss \<longleftrightarrow> list_all (\<lambda>i. unat i < 24) is \<and> ss = map unat is"
  by (induction "is" arbitrary: ss) (auto simp: rbind_eq_Inr pcr_slot_from_index_def split: if_splits)

section \<open>Properties\<close>

text \<open>C20. The server rebuilds the node's endorsement key. Take the public area of an RSA-2048 key
  whose modulus has no leading zero, encode it as the node does (exponent field 0 read as
  65537, SPKI DER), and read it as the server does: if the SPKI parser returns the two parts
  of such an encoding and the conversions accept the values, the server's public area has
  the same modulus and an exponent field of the same meaning: the field itself, except that a
  field that says 65537 explicitly comes back as 0, the default that stands for it.\<close>

theorem ek_public_roundtrip:
  assumes "spki_splits Y" "length m = 256" "m ! 0 \<noteq> 0"
    and "extract_rsa_public (PublicRsa attrs na pol sy sc kb ex m) = Inr (m', ex')"
    and "attrs_build Y ek_attrs = None" "exponent_try_from Y (if ex = 65537 then 0 else ex) = None"
    and "buffer_try_from Y BPublicKeyRsa m = None"
  shows "\<exists>spki. rsa_public_to_spki m' ex' = Returns spki \<and>
     spki_to_tpm_public Y spki = Returns (Inr (PublicRsa ek_attrs Sha256 [] Aes128Cfb RsaSchemeNull Rsa2048
       (if ex = 65537 then 0 else ex) m))"
proof -
  let ?ex = "if ex = 65537 then 0 else ex"
  have m: "m' = m" "(if ex' = 65537 then 0 else ex') = ?ex" using assms(4) by (auto split: if_splits)
  have "m \<noteq> []" using assms(2) by auto
  then obtain s where "rsa_seq m ex' = Returns s" "parse_rsa_public_key s = Returns (Inr (m, ?ex))" "length s < 65536"
    using rsa_seq_parses [of m ex'] assms(2,3) m strip_zeros_id [of m] by auto
  then show ?thesis
    using assms(1,2,5-7) m by (simp add: rsa_public_to_spki_def spki_to_tpm_public_rsa)
qed

theorem ek_public_roundtrip_witness:
  "\<exists>spki. rsa_public_to_spki (replicate 256 1) 65537 = Returns spki \<and>
     spki_to_tpm_public plain_types spki =
       Returns (Inr (PublicRsa ek_attrs Sha256 [] Aes128Cfb RsaSchemeNull Rsa2048 0 (replicate 256 1)))"
  using ek_public_roundtrip [of plain_types "replicate 256 1" no_attrs Sha256 "[]" Aes128Cfb RsaSchemeNull Rsa2048 0
      "replicate 256 1" 65537, OF plain_types_spki]
  by (simp add: plain_types_def)

text \<open>C38. Reading an RSA key panics on every one-byte length that overruns the buffer, that of the
  modulus and that of the exponent behind a one-byte modulus: no bound is checked before the slices. The bytes come from the
  certificate or key a joining node submits.\<close>

theorem rsa_key_reader_panics:
  assumes "length body < unat k" "k < 0x80"
  shows "parse_rsa_public_key (0x30 # l mod 0x80 # 0x02 # k # body) = Panics \<and>
     parse_rsa_public_key (0x30 # l mod 0x80 # 0x02 # 0x01 # 0x07 # 0x02 # k # body) = Panics"
proof -
  have "l mod 0x80 < (0x80 :: u8)" by (simp add: word_less_nat_alt unat_mod)
  then show ?thesis using assms
    by (simp add: parse_rsa_public_key_def tpm_parse_der_length_def slice_range_def nth_Cons')
qed

theorem rsa_key_reader_panics_witness: "parse_rsa_public_key [0x30, 0x02, 0x02, 0x05] = Panics"
  using rsa_key_reader_panics [of "[]" 5 2] by simp

text \<open>The name of an attestation key is, exactly for the hash algorithms the quote verifier
  supports, the algorithm's two bytes followed by that hash of the whole public area (where
  the library accepts a name of that size); a shorter area or any other algorithm is
  \<open>InvalidAk\<close>. For an area in the layout the quote verifier parses, the algorithm is the one
  written in it.\<close>

theorem ak_name_exact:
  "(compute_ak_name Y sha2 p = Inr name \<longleftrightarrow>
     4 \<le> length p \<and> (\<exists>alg n kind. alg = from_be (take 2 (drop 2 p)) \<and> hash_of_alg alg = Inr (n, kind) \<and>
       name = be_bytes 2 alg @ sha2 kind p \<and> buffer_try_from Y BName name = None)) \<and>
   ((\<nexists>m. compute_ak_name Y sha2 p = Inr m) \<longleftrightarrow> (\<exists>e. compute_ak_name Y sha2 p = Inl (InvalidAk e))) \<and>
   from_be (take 2 (drop 2 (public_header ty na attrs ap @ rest))) = na"
proof -
  let ?alg = "from_be (take 2 (drop 2 p)) :: u16"
  have head: "from_be (take 2 (drop 2 (public_header ty na attrs ap @ rest))) = na"
    by (simp add: public_header_def)
  show ?thesis
  proof (cases "length p < 4")
    case True
    then show ?thesis using head by (simp add: compute_ak_name_def)
  next
    case False
    then obtain msg where s: "compute_ak_name Y sha2 p = (case hash_of_alg ?alg of Inl _ \<Rightarrow> Inl (InvalidAk msg)
       | Inr (n, kind) \<Rightarrow> (let name = be_bytes 2 ?alg @ sha2 kind p
           in conv (buffer_try_from Y BName name) (\<lambda>e. InvalidAk (''AK name: '' @ e)) name))"
      using ak_name_step by blast
    show ?thesis
    proof (cases "hash_of_alg ?alg")
      case (Inl e)
      then show ?thesis using s head by simp
    next
      case (Inr nk)
      then show ?thesis
        using s head False by (cases "buffer_try_from Y BName (be_bytes 2 ?alg @ sha2 (snd nk) p)")
          (auto simp: conv_def Let_def split: prod.splits)
    qed
  qed
qed

text \<open>The marshaled ECDSA signature has 64 bytes for components of at most 32 bytes, the two
  halves denote the same numbers as the components, and PCR indices are accepted exactly
  below 24, each for its own slot.\<close>

theorem quote_wire_forms:
  "(length r \<le> 32 \<longrightarrow> length s \<le> 32 \<longrightarrow>
     (\<exists>sig. marshal_signature (EcDsa r s) = Inr sig \<and> length sig = 64 \<and>
        be_nat (take 32 sig) = be_nat r \<and> be_nat (drop 32 sig) = be_nat s)) \<and>
   (slots_from_indices is = Inr ss \<longleftrightarrow> list_all (\<lambda>i. unat i < 24) is \<and> ss = map unat is)"
proof
  show "length r \<le> 32 \<longrightarrow> length s \<le> 32 \<longrightarrow>
     (\<exists>sig. marshal_signature (EcDsa r s) = Inr sig \<and> length sig = 64 \<and>
        be_nat (take 32 sig) = be_nat r \<and> be_nat (drop 32 sig) = be_nat s)"
    by (simp add: pad32_def be_nat_pad)
qed (rule slots_from_indices_iff)

theorem quote_wire_forms_witness:
  "\<exists>sig. marshal_signature (EcDsa [5] [6]) = Inr sig \<and> length sig = 64 \<and>
     be_nat (take 32 sig) = be_nat [5] \<and> be_nat (drop 32 sig) = be_nat [6]"
  using quote_wire_forms [of "[5]" "[6]" "[]" "[]"] by simp

end
