(* ===== verification/Tpm_Session.thy ===== *)
theory Tpm_Session
  imports Tpm_Pure
begin

text \<open>
  The stateful part of the TPM client (\<open>attestation/tpm.rs\<close>): credential making, the
  attestation session, sealing to PCRs and the context manager. The device and the library
  \<open>tss_esapi\<close> are the fields of a record over a device state \<open>'d\<close>; an operation the code runs
  inside \<open>execute_with_nullauth_session\<close> is one field. A computation takes the library
  context (the device and the session slots set by \<open>set_sessions\<close>) and returns a value, an
  error or a panic together with the new context, so that every \<open>?\<close> is visible in what it
  leaves behind.
\<close>

section \<open>Device and context\<close>

type_synonym handle = nat

datatype auth_session = Password | AuthSession handle

type_synonym sessions = "auth_session option \<times> auth_session option \<times> auth_session option"

datatype hierarchy = Endorsement | Owner | Null

datatype session_type = Policy | Trial

datatype cap_handle = NvIndex u32 | OtherHandle

datatype capability_data = Handles "cap_handle list" | OtherCapability

record ('d, 'c) tss =
  ctx_new :: "string \<Rightarrow> string + 'd"
  load_external_public :: "tpm_public \<Rightarrow> hierarchy \<Rightarrow> 'd \<Rightarrow> (string + handle) \<times> 'd"
  tss_make_credential :: "handle \<Rightarrow> bytes \<Rightarrow> bytes \<Rightarrow> 'd \<Rightarrow> (string + bytes \<times> bytes) \<times> 'd"
  create_primary :: "hierarchy \<Rightarrow> tpm_public \<Rightarrow> 'd \<Rightarrow> (string + handle \<times> tpm_public) \<times> 'd"
  marshall_public :: "tpm_public \<Rightarrow> string + bytes"
  unmarshall_public :: "bytes \<Rightarrow> string + tpm_public"
  get_capability :: "u32 \<Rightarrow> 'd \<Rightarrow> (string + capability_data) \<times> 'd"
  nv_index_new :: "u32 \<Rightarrow> string option"
  tr_from_tpm_public :: "u32 \<Rightarrow> 'd \<Rightarrow> (string + handle) \<times> 'd"
  nv_read :: "handle \<Rightarrow> nat \<Rightarrow> nat \<Rightarrow> 'd \<Rightarrow> (string + bytes) \<times> 'd"
  start_auth_session :: "session_type \<Rightarrow> 'd \<Rightarrow> (string + handle option) \<times> 'd"
  to_policy_session :: "handle \<Rightarrow> string option"
  policy_secret :: "handle \<Rightarrow> 'd \<Rightarrow> (string + unit) \<times> 'd"
  activate_credential :: "sessions \<Rightarrow> handle \<Rightarrow> handle \<Rightarrow> bytes \<Rightarrow> bytes \<Rightarrow> 'd \<Rightarrow> (string + bytes) \<times> 'd"
  tss_quote :: "handle \<Rightarrow> bytes \<Rightarrow> nat list \<Rightarrow> 'd \<Rightarrow> (string + (string + bytes) \<times> tpm_signature) \<times> 'd"
  pcr_read :: "nat list \<Rightarrow> 'd \<Rightarrow> (string + bytes list) \<times> 'd"
  policy_pcr :: "handle \<Rightarrow> nat list \<Rightarrow> 'd \<Rightarrow> (string + unit) \<times> 'd"
  policy_get_digest :: "handle \<Rightarrow> 'd \<Rightarrow> (string + bytes) \<times> 'd"
  tss_create :: "handle \<Rightarrow> tpm_public \<Rightarrow> bytes \<Rightarrow> 'd \<Rightarrow> (string + bytes \<times> tpm_public) \<times> 'd"
  tss_load :: "handle \<Rightarrow> bytes \<Rightarrow> tpm_public \<Rightarrow> 'd \<Rightarrow> (string + handle) \<times> 'd"
  tss_unseal :: "sessions \<Rightarrow> handle \<Rightarrow> 'd \<Rightarrow> (string + bytes) \<times> 'd"
  context_save :: "handle \<Rightarrow> 'd \<Rightarrow> (string + 'c) \<times> 'd"
  context_load :: "'c \<Rightarrow> 'd \<Rightarrow> (string + handle) \<times> 'd"
  flush_context :: "handle \<Rightarrow> 'd \<Rightarrow> (string + unit) \<times> 'd"

record 'd tss_context =
  cx_dev :: 'd
  cx_sessions :: sessions

section \<open>Computations\<close>

datatype 'a tres = TOk 'a | TErr tss_error | TPanic

type_synonym ('d, 'a) tpm = "'d tss_context \<Rightarrow> 'a tres \<times> 'd tss_context"

definition tpure :: "'a \<Rightarrow> ('d, 'a) tpm" where
  "tpure a s = (TOk a, s)"

definition tbind :: "('d, 'a) tpm \<Rightarrow> ('a \<Rightarrow> ('d, 'b) tpm) \<Rightarrow> ('d, 'b) tpm" where
  "tbind m f s = (case m s of
       (TOk a, s') \<Rightarrow> f a s'
     | (TErr e, s') \<Rightarrow> (TErr e, s')
     | (TPanic, s') \<Rightarrow> (TPanic, s'))"

definition of_res :: "tss_error + 'a \<Rightarrow> ('d, 'a) tpm" where
  "of_res r s = ((case r of Inl e \<Rightarrow> TErr e | Inr a \<Rightarrow> TOk a), s)"

definition of_out :: "'a outcome \<Rightarrow> ('d, 'a) tpm" where
  "of_out r s = ((case r of Panics \<Rightarrow> TPanic | Returns a \<Rightarrow> TOk a), s)"

text \<open>A device call with its \<open>map_err\<close>; one that is authorized by the session slots; a flush
  whose result is dropped; the session slots.\<close>

definition dev :: "(string \<Rightarrow> tss_error) \<Rightarrow> ('d \<Rightarrow> (string + 'a) \<times> 'd) \<Rightarrow> ('d, 'a) tpm" where
  "dev err op s = (case op (cx_dev s) of
       (Inl e, d) \<Rightarrow> (TErr (err e), s\<lparr>cx_dev := d\<rparr>)
     | (Inr a, d) \<Rightarrow> (TOk a, s\<lparr>cx_dev := d\<rparr>))"

definition dev_auth :: "(string \<Rightarrow> tss_error) \<Rightarrow> (sessions \<Rightarrow> 'd \<Rightarrow> (string + 'a) \<times> 'd) \<Rightarrow> ('d, 'a) tpm" where
  "dev_auth err op s = dev err (op (cx_sessions s)) s"

definition flush :: "('d, 'c) tss \<Rightarrow> handle \<Rightarrow> ('d, unit) tpm" where
  "flush T h s = (TOk (), s\<lparr>cx_dev := snd (flush_context T h (cx_dev s))\<rparr>)"

definition set_sessions :: "sessions \<Rightarrow> ('d, unit) tpm" where
  "set_sessions x s = (TOk (), s\<lparr>cx_sessions := x\<rparr>)"

definition esapi :: "string \<Rightarrow> string \<Rightarrow> tss_error" where
  "esapi msg e = Esapi (msg @ e)"

definition NO_SESSIONS :: sessions where
  "NO_SESSIONS = (None, None, None)"

section \<open>Shared steps\<close>

definition create_context :: "tss_types \<Rightarrow> ('d, 'c) tss \<Rightarrow> tpm_endpoint \<Rightarrow> tss_error + 'd tss_context" where
  "create_context Y T endpoint =
     rbind (build_tcti_name_conf Y endpoint) (\<lambda>tcti.
       case ctx_new T tcti of Inl e \<Rightarrow> Inl (Esapi e)
       | Inr d \<Rightarrow> Inr \<lparr>cx_dev = d, cx_sessions = NO_SESSIONS\<rparr>)"

text \<open>\<open>collect\<close> of the slots, then the selection builder.\<close>

definition pcr_selection :: "tss_types \<Rightarrow> u8 list \<Rightarrow> tss_error + nat list" where
  "pcr_selection Y pcr_indices =
     rbind (slots_from_indices pcr_indices) (\<lambda>slots.
       conv (selection_build Y slots) (esapi ''bad PCR selection: '') slots)"

fun label_digests :: "u8 list \<Rightarrow> bytes list \<Rightarrow> pcr_value list" where
  "label_digests (idx # is) (d # ds) =
     \<lparr>pcr_index = idx, pcr_hash_algorithm = 0x000B, pcr_digest = d\<rparr> # label_digests is ds"
| "label_digests _ _ = []"

definition read_pcr_values :: "tss_types \<Rightarrow> ('d, 'c) tss \<Rightarrow> u8 list \<Rightarrow> ('d, pcr_value list) tpm" where
  "read_pcr_values Y T pcr_indices =
     tbind (of_res (pcr_selection Y pcr_indices)) (\<lambda>selection.
     tbind (dev (esapi ''PCR read failed: '') (pcr_read T selection)) (\<lambda>digests.
       tpure (label_digests pcr_indices digests)))"

record quote_output =
  qo_quote :: bytes
  qo_signature :: bytes
  qo_pcr_values :: "pcr_value list"

definition quote_with :: "tss_types \<Rightarrow> ('d, 'c) tss \<Rightarrow> handle \<Rightarrow> bytes \<Rightarrow> u8 list \<Rightarrow> ('d, quote_output) tpm" where
  "quote_with Y T ak_handle server_nonce pcr_indices =
     tbind (of_res (pcr_selection Y pcr_indices)) (\<lambda>selection.
     tbind (of_res (conv (buffer_try_from Y BData server_nonce) (esapi ''bad nonce: '') server_nonce)) (\<lambda>qualifying.
     tbind (dev (esapi ''TPM2_Quote failed: '') (tss_quote T ak_handle qualifying selection)) (\<lambda>(attest, signature).
     tbind (of_res (case attest of Inl e \<Rightarrow> Inl (esapi ''marshal attest failed: '' e) | Inr b \<Rightarrow> Inr b)) (\<lambda>quote_bytes.
     tbind (read_pcr_values Y T pcr_indices) (\<lambda>pcr_values.
     tbind (of_res (marshal_signature signature)) (\<lambda>sig.
       tpure \<lparr>qo_quote = quote_bytes, qo_signature = sig, qo_pcr_values = pcr_values\<rparr>))))))"

text \<open>The credential activation, from the conversions to the recovered secret.\<close>

definition activate_with :: "tss_types \<Rightarrow> ('d, 'c) tss \<Rightarrow> handle \<Rightarrow> handle \<Rightarrow> bytes \<Rightarrow> bytes \<Rightarrow> ('d, bytes) tpm" where
  "activate_with Y T ak_handle ek_handle credential_blob secret =
     tbind (of_res (conv (buffer_try_from Y BIdObject credential_blob) (esapi ''bad credentialBlob: '') credential_blob)) (\<lambda>id_object.
     tbind (of_res (conv (buffer_try_from Y BEncryptedSecret secret) (esapi ''bad secret: '') secret)) (\<lambda>enc_secret.
     tbind (dev (esapi ''start ek policy session: '') (start_auth_session T Policy)) (\<lambda>allocated.
     tbind (of_res (ok_or (Esapi ''failed to allocate ek policy session'') allocated)) (\<lambda>session.
     tbind (of_res (conv (to_policy_session T session) (esapi ''policy session convert: '') session)) (\<lambda>policy_session.
     tbind (dev (esapi ''policy secret failed: '') (policy_secret T policy_session)) (\<lambda>_.
     tbind (set_sessions (Some Password, Some (AuthSession session), None)) (\<lambda>_.
     tbind (dev_auth (esapi ''activate_credential failed: '')
              (\<lambda>ss. activate_credential T ss ak_handle ek_handle id_object enc_secret)) (\<lambda>recovered.
     tbind (flush T policy_session) (\<lambda>_.
     tbind (set_sessions NO_SESSIONS) (\<lambda>_.
       tpure recovered))))))))))"

definition EK_CERT_NV_INDEX :: u32 where
  "EK_CERT_NV_INDEX = 0x01C00002"

fun is_ek_cert_index :: "cap_handle \<Rightarrow> bool" where
  "is_ek_cert_index (NvIndex nv) = (nv = EK_CERT_NV_INDEX)"
| "is_ek_cert_index OtherHandle = False"

fun cert_index_exists :: "capability_data \<Rightarrow> bool" where
  "cert_index_exists (Handles hs) = list_ex is_ek_cert_index hs"
| "cert_index_exists OtherCapability = False"

text \<open>An error of the final read is \<open>Ok(None)\<close>.\<close>

definition or_none :: "('d, 'a) tpm \<Rightarrow> ('d, 'a option) tpm" where
  "or_none m s = (case m s of
       (TOk a, s') \<Rightarrow> (TOk (Some a), s')
     | (TErr e, s') \<Rightarrow> (TOk None, s')
     | (TPanic, s') \<Rightarrow> (TPanic, s'))"

definition read_ek_cert :: "('d, 'c) tss \<Rightarrow> ('d, bytes option) tpm" where
  "read_ek_cert T =
     tbind (dev (esapi ''get_capability: '') (get_capability T EK_CERT_NV_INDEX)) (\<lambda>cap_data.
     if \<not> cert_index_exists cap_data then tpure None else
     tbind (of_res (conv (nv_index_new T EK_CERT_NV_INDEX) (esapi ''bad NV index handle: '') EK_CERT_NV_INDEX)) (\<lambda>nv.
     tbind (dev (esapi ''tr_from_tpm_public: '') (tr_from_tpm_public T nv)) (\<lambda>nv_handle.
       or_none (dev Esapi (nv_read T nv_handle 2048 0)))))"

text \<open>A function that opens its own context on an endpoint; the context it leaves is what is
  dropped at its end.\<close>

definition on_endpoint ::
    "tss_types \<Rightarrow> ('d, 'c) tss \<Rightarrow> tpm_endpoint \<Rightarrow> ('d, 'a) tpm \<Rightarrow> 'a tres \<times> 'd tss_context option" where
  "on_endpoint Y T endpoint m =
     (case create_context Y T endpoint of Inl e \<Rightarrow> (TErr e, None)
      | Inr s \<Rightarrow> (case m s of (r, s') \<Rightarrow> (r, Some s')))"

section \<open>Making a credential\<close>

definition make_credential_in ::
    "tss_types \<Rightarrow> (hash_kind \<Rightarrow> bytes \<Rightarrow> bytes) \<Rightarrow> ('d, 'c) tss \<Rightarrow> bytes \<Rightarrow> bytes \<Rightarrow> bytes \<Rightarrow> ('d, bytes \<times> bytes) tpm" where
  "make_credential_in Y sha2 T ek_spki_der ak_pub secret =
     tbind (of_out (spki_to_tpm_public Y ek_spki_der)) (\<lambda>r.
     tbind (of_res r) (\<lambda>ek_public.
     tbind (of_res (compute_ak_name Y sha2 ak_pub)) (\<lambda>ak_name.
     tbind (dev (esapi ''load EK failed: '') (load_external_public T ek_public Null)) (\<lambda>ek_handle.
     tbind (of_res (conv (buffer_try_from Y BDigest secret) (esapi ''digest failed: '') secret)) (\<lambda>credential.
     tbind (dev (esapi ''make_credential failed: '') (tss_make_credential T ek_handle credential ak_name)) (\<lambda>pair.
     tbind (flush T ek_handle) (\<lambda>_.
       tpure pair)))))))"

definition make_credential ::
    "tss_types \<Rightarrow> (hash_kind \<Rightarrow> bytes \<Rightarrow> bytes) \<Rightarrow> ('d, 'c) tss \<Rightarrow> tpm_endpoint \<Rightarrow> bytes \<Rightarrow> bytes \<Rightarrow> bytes \<Rightarrow>
     (bytes \<times> bytes) tres \<times> 'd tss_context option" where
  "make_credential Y sha2 T endpoint ek_spki_der ak_pub secret =
     on_endpoint Y T endpoint (make_credential_in Y sha2 T ek_spki_der ak_pub secret)"

section \<open>Attestation session\<close>

record attestation_session =
  as_ak_handle :: handle
  as_ek_handle :: handle
  as_ak_pub :: bytes
  as_ek_spki :: bytes

definition begin_session :: "tss_types \<Rightarrow> ('d, 'c) tss \<Rightarrow> ('d, attestation_session) tpm" where
  "begin_session Y T =
     tbind (of_res (ek_template Y)) (\<lambda>ek_public.
     tbind (dev (esapi ''create EK primary failed: '') (create_primary T Endorsement ek_public)) (\<lambda>(ek_handle, ek_out).
     tbind (of_res (extract_rsa_public ek_out)) (\<lambda>(ek_modulus, ek_exponent).
     tbind (of_out (rsa_public_to_spki ek_modulus ek_exponent)) (\<lambda>ek_spki.
     tbind (of_res (ak_template Y)) (\<lambda>ak_public.
     tbind (dev (esapi ''create AK primary failed: '') (create_primary T Endorsement ak_public)) (\<lambda>(ak_handle, ak_out).
     tbind (of_res (case marshall_public T ak_out of Inl e \<Rightarrow> Inl (InvalidAk (''marshal AK public failed: '' @ e))
              | Inr b \<Rightarrow> Inr b)) (\<lambda>ak_pub.
       tpure \<lparr>as_ak_handle = ak_handle, as_ek_handle = ek_handle, as_ak_pub = ak_pub, as_ek_spki = ek_spki\<rparr>)))))))"

definition session_ak_pub :: "attestation_session \<Rightarrow> bytes" where
  "session_ak_pub self = as_ak_pub self"

definition session_ek_pub :: "attestation_session \<Rightarrow> bytes" where
  "session_ek_pub self = as_ek_spki self"

definition session_activate ::
    "tss_types \<Rightarrow> ('d, 'c) tss \<Rightarrow> attestation_session \<Rightarrow> bytes \<Rightarrow> bytes \<Rightarrow> ('d, bytes) tpm" where
  "session_activate Y T self credential_blob secret =
     activate_with Y T (as_ak_handle self) (as_ek_handle self) credential_blob secret"

definition session_quote ::
    "tss_types \<Rightarrow> ('d, 'c) tss \<Rightarrow> attestation_session \<Rightarrow> bytes \<Rightarrow> u8 list \<Rightarrow> ('d, quote_output) tpm" where
  "session_quote Y T self server_nonce pcr_indices = quote_with Y T (as_ak_handle self) server_nonce pcr_indices"

definition drop_session :: "('d, 'c) tss \<Rightarrow> attestation_session \<Rightarrow> ('d, unit) tpm" where
  "drop_session T self = tbind (flush T (as_ak_handle self)) (\<lambda>_. flush T (as_ek_handle self))"

definition AttestationSession_begin ::
    "tss_types \<Rightarrow> ('d, 'c) tss \<Rightarrow> tpm_endpoint \<Rightarrow> attestation_session tres \<times> 'd tss_context option" where
  "AttestationSession_begin Y T endpoint = on_endpoint Y T endpoint (begin_session Y T)"

section \<open>Sealing to PCRs\<close>

record sealed_blob =
  sb_private :: bytes
  sb_public :: bytes
  sb_pcr_indices :: "u8 list"

definition create_srk :: "tss_types \<Rightarrow> ('d, 'c) tss \<Rightarrow> ('d, handle) tpm" where
  "create_srk Y T =
     tbind (of_res (srk_template Y)) (\<lambda>template.
     tbind (dev (esapi ''create SRK primary failed: '') (create_primary T Owner template)) (\<lambda>(key_handle, _).
       tpure key_handle))"

definition compute_pcr_policy_digest :: "('d, 'c) tss \<Rightarrow> nat list \<Rightarrow> ('d, bytes) tpm" where
  "compute_pcr_policy_digest T selection =
     tbind (dev (esapi ''start trial session: '') (start_auth_session T Trial)) (\<lambda>allocated.
     tbind (of_res (ok_or (Esapi ''failed to allocate trial session'') allocated)) (\<lambda>trial.
     tbind (of_res (conv (to_policy_session T trial) (esapi ''trial convert: '') trial)) (\<lambda>policy_session.
     tbind (dev (esapi ''policy_pcr: '') (policy_pcr T policy_session selection)) (\<lambda>_.
     tbind (dev (esapi ''policy_get_digest: '') (policy_get_digest T policy_session)) (\<lambda>digest.
     tbind (flush T policy_session) (\<lambda>_.
       tpure digest))))))"

definition seal_in :: "tss_types \<Rightarrow> ('d, 'c) tss \<Rightarrow> bytes \<Rightarrow> u8 list \<Rightarrow> ('d, sealed_blob) tpm" where
  "seal_in Y T plaintext pcr_indices =
     tbind (of_res (pcr_selection Y pcr_indices)) (\<lambda>selection.
     tbind (compute_pcr_policy_digest T selection) (\<lambda>policy_digest.
     tbind (create_srk Y T) (\<lambda>srk.
     tbind (of_res (sealed_object_template Y policy_digest plaintext)) (\<lambda>template.
     tbind (of_res (conv (buffer_try_from Y BSensitiveData plaintext) (esapi ''sensitive data error: '') plaintext)) (\<lambda>data.
     tbind (dev (esapi ''TPM2_Create (seal) failed: '') (tss_create T srk template data)) (\<lambda>(out_private, out_public).
     tbind (flush T srk) (\<lambda>_.
     tbind (of_res (case marshall_public T out_public of Inl e \<Rightarrow> Inl (esapi ''marshal sealed public: '' e) | Inr b \<Rightarrow> Inr b)) (\<lambda>public.
       tpure \<lparr>sb_private = out_private, sb_public = public, sb_pcr_indices = pcr_indices\<rparr>))))))))"

definition seal_to_pcr ::
    "tss_types \<Rightarrow> ('d, 'c) tss \<Rightarrow> tpm_endpoint \<Rightarrow> bytes \<Rightarrow> u8 list \<Rightarrow> sealed_blob tres \<times> 'd tss_context option" where
  "seal_to_pcr Y T endpoint plaintext pcr_indices = on_endpoint Y T endpoint (seal_in Y T plaintext pcr_indices)"

definition unseal_in :: "tss_types \<Rightarrow> ('d, 'c) tss \<Rightarrow> sealed_blob \<Rightarrow> ('d, bytes) tpm" where
  "unseal_in Y T sealed =
     tbind (create_srk Y T) (\<lambda>srk.
     tbind (of_res (conv (buffer_try_from Y BPrivate (sb_private sealed)) (esapi ''bad private blob: '') (sb_private sealed))) (\<lambda>private.
     tbind (of_res (case unmarshall_public T (sb_public sealed) of Inl e \<Rightarrow> Inl (esapi ''bad public blob: '' e) | Inr p \<Rightarrow> Inr p)) (\<lambda>public.
     tbind (dev (esapi ''TPM2_Load failed: '') (tss_load T srk private public)) (\<lambda>obj.
     tbind (of_res (pcr_selection Y (sb_pcr_indices sealed))) (\<lambda>selection.
     tbind (dev (esapi ''start policy session: '') (start_auth_session T Policy)) (\<lambda>allocated.
     tbind (of_res (ok_or (Esapi ''failed to allocate policy session'') allocated)) (\<lambda>policy_auth.
     tbind (of_res (conv (to_policy_session T policy_auth) (esapi ''policy convert: '') policy_auth)) (\<lambda>policy_session.
     tbind (dev (esapi ''policy_pcr (unseal) failed: '') (policy_pcr T policy_session selection)) (\<lambda>_.
     tbind (set_sessions (Some (AuthSession policy_auth), None, None)) (\<lambda>_.
     tbind (dev_auth (esapi ''TPM2_Unseal failed: '') (\<lambda>ss. tss_unseal T ss obj)) (\<lambda>data.
     tbind (flush T obj) (\<lambda>_.
     tbind (flush T srk) (\<lambda>_.
     tbind (flush T policy_session) (\<lambda>_.
     tbind (set_sessions NO_SESSIONS) (\<lambda>_.
       tpure data)))))))))))))))"

definition tpm_unseal ::
    "tss_types \<Rightarrow> ('d, 'c) tss \<Rightarrow> tpm_endpoint \<Rightarrow> sealed_blob \<Rightarrow> bytes tres \<times> 'd tss_context option" where
  "tpm_unseal Y T endpoint sealed = on_endpoint Y T endpoint (unseal_in Y T sealed)"

section \<open>Context manager\<close>

datatype 'c key_state = Live handle | Saved 'c

record 'c managed_session =
  ms_ek_state :: "'c key_state"
  ms_ak_state :: "'c key_state"
  ms_ak_pub :: bytes
  ms_ek_spki :: bytes

text \<open>The manager is its context and the flag; the flag never changes, so the methods take it as
  an argument \<open>rm\<close>. A method on \<open>&mut state\<close> returns the new state beside its result.\<close>

definition has_resource_manager :: "tpm_endpoint \<Rightarrow> bool" where
  "has_resource_manager endpoint = (case endpoint of Device _ \<Rightarrow> True | _ \<Rightarrow> False)"

definition TpmContextManager_new ::
    "tss_types \<Rightarrow> ('d, 'c) tss \<Rightarrow> tpm_endpoint \<Rightarrow> tss_error + 'd tss_context \<times> bool" where
  "TpmContextManager_new Y T endpoint =
     rbind (create_context Y T endpoint) (\<lambda>ctx. Inr (ctx, has_resource_manager endpoint))"

definition ensure_loaded ::
    "('d, 'c) tss \<Rightarrow> 'c key_state \<Rightarrow> 'd tss_context \<Rightarrow> handle tres \<times> 'c key_state \<times> 'd tss_context" where
  "ensure_loaded T state s = (case state of
       Live h \<Rightarrow> (TOk h, state, s)
     | Saved c \<Rightarrow> (case dev (esapi ''context_load failed: '') (context_load T c) s of
           (TOk h, s') \<Rightarrow> (TOk h, Live h, s')
         | (TErr e, s') \<Rightarrow> (TErr e, state, s')
         | (TPanic, s') \<Rightarrow> (TPanic, state, s')))"

definition save_if_needed ::
    "('d, 'c) tss \<Rightarrow> bool \<Rightarrow> 'c key_state \<Rightarrow> 'd tss_context \<Rightarrow> unit tres \<times> 'c key_state \<times> 'd tss_context" where
  "save_if_needed T rm state s =
     (if rm then (TOk (), state, s)
      else case state of
        Saved _ \<Rightarrow> (TOk (), state, s)
      | Live h \<Rightarrow> (case dev (esapi ''context_save failed: '') (context_save T h) s of
            (TOk saved, s') \<Rightarrow> (TOk (), Saved saved, snd (flush T h s'))
          | (TErr e, s') \<Rightarrow> (TErr e, state, s')
          | (TPanic, s') \<Rightarrow> (TPanic, state, s')))"

definition park :: "('d, 'c) tss \<Rightarrow> string \<Rightarrow> handle \<Rightarrow> ('d, 'c key_state) tpm" where
  "park T msg h =
     tbind (dev (esapi msg) (context_save T h)) (\<lambda>saved.
     tbind (flush T h) (\<lambda>_. tpure (Saved saved)))"

definition begin_attestation :: "tss_types \<Rightarrow> ('d, 'c) tss \<Rightarrow> bool \<Rightarrow> ('d, 'c managed_session) tpm" where
  "begin_attestation Y T rm =
     tbind (of_res (ek_template Y)) (\<lambda>ek_public.
     tbind (dev (esapi ''create EK primary failed: '') (create_primary T Endorsement ek_public)) (\<lambda>(ek_handle, ek_out).
     tbind (of_res (ak_template Y)) (\<lambda>ak_public.
     tbind (dev (esapi ''create AK primary failed: '') (create_primary T Endorsement ak_public)) (\<lambda>(ak_handle, ak_out).
     tbind (of_res (case marshall_public T ak_out of Inl e \<Rightarrow> Inl (InvalidAk (''marshal AK public failed: '' @ e))
              | Inr b \<Rightarrow> Inr b)) (\<lambda>ak_pub.
     tbind (of_res (extract_rsa_public ek_out)) (\<lambda>(ek_modulus, ek_exponent).
     tbind (of_out (rsa_public_to_spki ek_modulus ek_exponent)) (\<lambda>ek_spki.
       if rm then
         tpure \<lparr>ms_ek_state = Live ek_handle, ms_ak_state = Live ak_handle, ms_ak_pub = ak_pub, ms_ek_spki = ek_spki\<rparr>
       else
         tbind (park T ''save EK context: '' ek_handle) (\<lambda>ek_state.
         tbind (park T ''save AK context: '' ak_handle) (\<lambda>ak_state.
           tpure \<lparr>ms_ek_state = ek_state, ms_ak_state = ak_state, ms_ak_pub = ak_pub, ms_ek_spki = ek_spki\<rparr>)))))))))"

definition flush_state :: "('d, 'c) tss \<Rightarrow> 'c key_state \<Rightarrow> ('d, unit) tpm" where
  "flush_state T state = (case state of Live h \<Rightarrow> flush T h | Saved _ \<Rightarrow> tpure ())"

definition finish_attestation :: "('d, 'c) tss \<Rightarrow> 'c managed_session \<Rightarrow> ('d, unit) tpm" where
  "finish_attestation T session =
     tbind (flush_state T (ms_ek_state session)) (\<lambda>_. flush_state T (ms_ak_state session))"

text \<open>The manager has its own copies of activation, PCR read, quote, certificate read, seal and
  unseal; each is translated from its own lines.\<close>

definition activate_loaded :: "tss_types \<Rightarrow> ('d, 'c) tss \<Rightarrow> handle \<Rightarrow> handle \<Rightarrow> bytes \<Rightarrow> bytes \<Rightarrow> ('d, bytes) tpm" where
  "activate_loaded Y T ak_handle ek_handle credential_blob secret =
     tbind (of_res (conv (buffer_try_from Y BIdObject credential_blob) (esapi ''bad credentialBlob: '') credential_blob)) (\<lambda>id_object.
     tbind (of_res (conv (buffer_try_from Y BEncryptedSecret secret) (esapi ''bad secret: '') secret)) (\<lambda>enc_secret.
     tbind (dev (esapi ''start ek policy session: '') (start_auth_session T Policy)) (\<lambda>allocated.
     tbind (of_res (ok_or (Esapi ''failed to allocate ek policy session'') allocated)) (\<lambda>ek_policy_auth_session.
     tbind (of_res (conv (to_policy_session T ek_policy_auth_session) (esapi ''policy session convert: '') ek_policy_auth_session)) (\<lambda>ek_policy_session.
     tbind (dev (esapi ''policy secret failed: '') (policy_secret T ek_policy_session)) (\<lambda>_.
     tbind (set_sessions (Some Password, Some (AuthSession ek_policy_auth_session), None)) (\<lambda>_.
     tbind (dev_auth (esapi ''activate_credential failed: '')
              (\<lambda>ss. activate_credential T ss ak_handle ek_handle id_object enc_secret)) (\<lambda>recovered.
     tbind (flush T ek_policy_session) (\<lambda>_.
     tbind (set_sessions NO_SESSIONS) (\<lambda>_.
       tpure recovered))))))))))"

definition activate_inner ::
    "tss_types \<Rightarrow> ('d, 'c) tss \<Rightarrow> 'c managed_session \<Rightarrow> bytes \<Rightarrow> bytes \<Rightarrow> 'd tss_context \<Rightarrow>
     bytes tres \<times> 'c managed_session \<times> 'd tss_context" where
  "activate_inner Y T session credential_blob secret s =
     (case ensure_loaded T (ms_ak_state session) s of (r, ak, s) \<Rightarrow>
      let session = session\<lparr>ms_ak_state := ak\<rparr> in
      case r of TErr e \<Rightarrow> (TErr e, session, s) | TPanic \<Rightarrow> (TPanic, session, s)
      | TOk ak_handle \<Rightarrow>
        (case ensure_loaded T (ms_ek_state session) s of (r, ek, s) \<Rightarrow>
         let session = session\<lparr>ms_ek_state := ek\<rparr> in
         case r of TErr e \<Rightarrow> (TErr e, session, s) | TPanic \<Rightarrow> (TPanic, session, s)
         | TOk ek_handle \<Rightarrow>
           (case activate_loaded Y T ak_handle ek_handle credential_blob secret s of (r, s) \<Rightarrow> (r, session, s))))"

definition mgr_activate ::
    "tss_types \<Rightarrow> ('d, 'c) tss \<Rightarrow> bool \<Rightarrow> 'c managed_session \<Rightarrow> bytes \<Rightarrow> bytes \<Rightarrow> 'd tss_context \<Rightarrow>
     bytes tres \<times> 'c managed_session \<times> 'd tss_context" where
  "mgr_activate Y T rm session credential_blob secret s =
     (case activate_inner Y T session credential_blob secret s of (result, session, s) \<Rightarrow>
      if result = TPanic then (TPanic, session, s) else
      case save_if_needed T rm (ms_ak_state session) s of (_, ak, s) \<Rightarrow>
      case save_if_needed T rm (ms_ek_state session) s of (_, ek, s) \<Rightarrow>
        (result, session\<lparr>ms_ak_state := ak, ms_ek_state := ek\<rparr>, s))"

definition mgr_read_pcr_values :: "tss_types \<Rightarrow> ('d, 'c) tss \<Rightarrow> u8 list \<Rightarrow> ('d, pcr_value list) tpm" where
  "mgr_read_pcr_values Y T pcr_indices =
     tbind (of_res (slots_from_indices pcr_indices)) (\<lambda>slots.
     tbind (of_res (conv (selection_build Y slots) (esapi ''bad PCR selection: '') slots)) (\<lambda>selection.
     tbind (dev (esapi ''PCR read failed: '') (pcr_read T selection)) (\<lambda>digests.
       tpure (label_digests pcr_indices digests))))"

definition quote_loaded :: "tss_types \<Rightarrow> ('d, 'c) tss \<Rightarrow> handle \<Rightarrow> bytes \<Rightarrow> u8 list \<Rightarrow> ('d, quote_output) tpm" where
  "quote_loaded Y T ak_key_handle server_nonce pcr_indices =
     tbind (of_res (slots_from_indices pcr_indices)) (\<lambda>slots.
     tbind (of_res (conv (selection_build Y slots) (esapi ''bad PCR selection: '') slots)) (\<lambda>selection.
     tbind (of_res (conv (buffer_try_from Y BData server_nonce) (esapi ''bad nonce: '') server_nonce)) (\<lambda>qualifying.
     tbind (dev (esapi ''TPM2_Quote failed: '') (tss_quote T ak_key_handle qualifying selection)) (\<lambda>(attest, signature).
     tbind (of_res (case attest of Inl e \<Rightarrow> Inl (esapi ''marshal attest failed: '' e) | Inr b \<Rightarrow> Inr b)) (\<lambda>quote_bytes.
     tbind (mgr_read_pcr_values Y T pcr_indices) (\<lambda>pcr_values.
     tbind (of_res (marshal_signature signature)) (\<lambda>sig.
       tpure \<lparr>qo_quote = quote_bytes, qo_signature = sig, qo_pcr_values = pcr_values\<rparr>)))))))"

definition quote_inner ::
    "tss_types \<Rightarrow> ('d, 'c) tss \<Rightarrow> 'c managed_session \<Rightarrow> bytes \<Rightarrow> u8 list \<Rightarrow> 'd tss_context \<Rightarrow>
     quote_output tres \<times> 'c managed_session \<times> 'd tss_context" where
  "quote_inner Y T session server_nonce pcr_indices s =
     (case ensure_loaded T (ms_ak_state session) s of (r, ak, s) \<Rightarrow>
      let session = session\<lparr>ms_ak_state := ak\<rparr> in
      case r of TErr e \<Rightarrow> (TErr e, session, s) | TPanic \<Rightarrow> (TPanic, session, s)
      | TOk ak_handle \<Rightarrow>
        (case quote_loaded Y T ak_handle server_nonce pcr_indices s of (r, s) \<Rightarrow> (r, session, s)))"

definition mgr_quote ::
    "tss_types \<Rightarrow> ('d, 'c) tss \<Rightarrow> bool \<Rightarrow> 'c managed_session \<Rightarrow> bytes \<Rightarrow> u8 list \<Rightarrow> 'd tss_context \<Rightarrow>
     quote_output tres \<times> 'c managed_session \<times> 'd tss_context" where
  "mgr_quote Y T rm session server_nonce pcr_indices s =
     (case quote_inner Y T session server_nonce pcr_indices s of (result, session, s) \<Rightarrow>
      if result = TPanic then (TPanic, session, s) else
      case save_if_needed T rm (ms_ak_state session) s of (_, ak, s) \<Rightarrow>
        (result, session\<lparr>ms_ak_state := ak\<rparr>, s))"

definition mgr_read_ek_cert :: "('d, 'c) tss \<Rightarrow> ('d, bytes option) tpm" where
  "mgr_read_ek_cert T =
     tbind (dev (esapi ''get_capability: '') (get_capability T EK_CERT_NV_INDEX)) (\<lambda>cap_data.
     if \<not> cert_index_exists cap_data then tpure None else
     tbind (of_res (conv (nv_index_new T EK_CERT_NV_INDEX) (esapi ''bad NV index handle: '') EK_CERT_NV_INDEX)) (\<lambda>nv_tpm_handle.
     tbind (dev (esapi ''tr_from_tpm_public: '') (tr_from_tpm_public T nv_tpm_handle)) (\<lambda>nv_handle.
       or_none (dev Esapi (nv_read T nv_handle 2048 0)))))"

definition create_srk_in :: "tss_types \<Rightarrow> ('d, 'c) tss \<Rightarrow> ('d, handle) tpm" where
  "create_srk_in Y T =
     tbind (of_res (srk_template Y)) (\<lambda>template.
     tbind (dev (esapi ''create SRK primary failed: '') (create_primary T Owner template)) (\<lambda>(key_handle, _).
       tpure key_handle))"

definition mgr_seal_to_pcr :: "tss_types \<Rightarrow> ('d, 'c) tss \<Rightarrow> bytes \<Rightarrow> u8 list \<Rightarrow> ('d, sealed_blob) tpm" where
  "mgr_seal_to_pcr Y T plaintext pcr_indices =
     tbind (of_res (slots_from_indices pcr_indices)) (\<lambda>slots.
     tbind (of_res (conv (selection_build Y slots) (esapi ''bad PCR selection: '') slots)) (\<lambda>selection.
     tbind (compute_pcr_policy_digest T selection) (\<lambda>policy_digest.
     tbind (create_srk_in Y T) (\<lambda>srk.
     tbind (of_res (sealed_object_template Y policy_digest plaintext)) (\<lambda>template.
     tbind (of_res (conv (buffer_try_from Y BSensitiveData plaintext) (esapi ''sensitive data error: '') plaintext)) (\<lambda>data.
     tbind (dev (esapi ''TPM2_Create (seal) failed: '') (tss_create T srk template data)) (\<lambda>(out_private, out_public).
     tbind (flush T srk) (\<lambda>_.
     tbind (of_res (case marshall_public T out_public of Inl e \<Rightarrow> Inl (esapi ''marshal sealed public: '' e) | Inr b \<Rightarrow> Inr b)) (\<lambda>public.
       tpure \<lparr>sb_private = out_private, sb_public = public, sb_pcr_indices = pcr_indices\<rparr>)))))))))"

definition mgr_unseal :: "tss_types \<Rightarrow> ('d, 'c) tss \<Rightarrow> sealed_blob \<Rightarrow> ('d, bytes) tpm" where
  "mgr_unseal Y T sealed =
     tbind (create_srk_in Y T) (\<lambda>srk.
     tbind (of_res (conv (buffer_try_from Y BPrivate (sb_private sealed)) (esapi ''bad private blob: '') (sb_private sealed))) (\<lambda>private.
     tbind (of_res (case unmarshall_public T (sb_public sealed) of Inl e \<Rightarrow> Inl (esapi ''bad public blob: '' e) | Inr p \<Rightarrow> Inr p)) (\<lambda>public.
     tbind (dev (esapi ''TPM2_Load failed: '') (tss_load T srk private public)) (\<lambda>obj.
     tbind (of_res (slots_from_indices (sb_pcr_indices sealed))) (\<lambda>slots.
     tbind (of_res (conv (selection_build Y slots) (esapi ''bad PCR selection: '') slots)) (\<lambda>selection.
     tbind (dev (esapi ''start policy session: '') (start_auth_session T Policy)) (\<lambda>allocated.
     tbind (of_res (ok_or (Esapi ''failed to allocate policy session'') allocated)) (\<lambda>policy_auth.
     tbind (of_res (conv (to_policy_session T policy_auth) (esapi ''policy convert: '') policy_auth)) (\<lambda>policy_session.
     tbind (dev (esapi ''policy_pcr (unseal) failed: '') (policy_pcr T policy_session selection)) (\<lambda>_.
     tbind (set_sessions (Some (AuthSession policy_auth), None, None)) (\<lambda>_.
     tbind (dev_auth (esapi ''TPM2_Unseal failed: '') (\<lambda>ss. tss_unseal T ss obj)) (\<lambda>data.
     tbind (flush T obj) (\<lambda>_.
     tbind (flush T srk) (\<lambda>_.
     tbind (flush T policy_session) (\<lambda>_.
     tbind (set_sessions NO_SESSIONS) (\<lambda>_.
       tpure data))))))))))))))))"

section \<open>The copies agree\<close>

text \<open>A result bound inside and one bound step by step are the same.\<close>

lemma tbind_of_res_rbind: "tbind (of_res (rbind r g)) f = tbind (of_res r) (\<lambda>a. tbind (of_res (g a)) f)"
  by (rule ext) (auto simp: tbind_def of_res_def rbind_def split: sum.splits)

lemma tbind_selection:
  "tbind (of_res (slots_from_indices is)) (\<lambda>slots.
     tbind (of_res (conv (selection_build Y slots) (esapi ''bad PCR selection: '') slots)) f) =
   tbind (of_res (pcr_selection Y is)) f"
  by (simp add: pcr_selection_def tbind_of_res_rbind)

lemma activate_loaded_eq: "activate_loaded = activate_with"
  by (intro ext) (simp add: activate_loaded_def activate_with_def)

lemma mgr_read_pcr_values_eq: "mgr_read_pcr_values = read_pcr_values"
  by (intro ext) (simp add: mgr_read_pcr_values_def read_pcr_values_def tbind_selection)

lemma quote_loaded_eq: "quote_loaded = quote_with"
  by (intro ext) (simp add: quote_loaded_def quote_with_def tbind_selection mgr_read_pcr_values_eq)

lemma mgr_read_ek_cert_eq: "mgr_read_ek_cert = read_ek_cert"
  by (intro ext) (simp add: mgr_read_ek_cert_def read_ek_cert_def)

lemma create_srk_in_eq: "create_srk_in = create_srk"
  by (intro ext) (simp add: create_srk_in_def create_srk_def)

lemma mgr_seal_eq: "mgr_seal_to_pcr = seal_in"
  by (intro ext) (simp add: mgr_seal_to_pcr_def seal_in_def tbind_selection create_srk_in_eq)

lemma mgr_unseal_eq: "mgr_unseal = unseal_in"
  by (intro ext) (simp add: mgr_unseal_def unseal_in_def tbind_selection create_srk_in_eq)

text \<open>C26. The context manager's methods are the session's: on the same context its PCR read,
  certificate read, seal and unseal behave as the functions that open their own context,
  and its quote and activation on loaded keys as those of \<open>AttestationSession\<close>, in results,
  errors and what they leave in the context.\<close>

theorem manager_copies_agree:
  "mgr_read_pcr_values Y T indices s = read_pcr_values Y T indices s \<and> mgr_read_ek_cert T s = read_ek_cert T s \<and>
   mgr_seal_to_pcr Y T plaintext indices s = seal_in Y T plaintext indices s \<and>
   mgr_unseal Y T sealed s = unseal_in Y T sealed s \<and>
   (case quote_inner Y T (m\<lparr>ms_ak_state := Live (as_ak_handle a)\<rparr>) nonce indices s of (r, m', s') \<Rightarrow>
      (r, s') = session_quote Y T a nonce indices s \<and> m' = m\<lparr>ms_ak_state := Live (as_ak_handle a)\<rparr>) \<and>
   (case activate_inner Y T (m\<lparr>ms_ak_state := Live (as_ak_handle a), ms_ek_state := Live (as_ek_handle a)\<rparr>) blob secret s of
      (r, m', s') \<Rightarrow> (r, s') = session_activate Y T a blob secret s)"
  by (simp add: mgr_read_pcr_values_eq mgr_read_ek_cert_eq mgr_seal_eq mgr_unseal_eq quote_inner_def activate_inner_def
      ensure_loaded_def quote_loaded_eq activate_loaded_eq session_quote_def session_activate_def split: prod.splits)

end
