(* ===== verification/Tpm_Handles.thy ===== *)
theory Tpm_Handles
  imports Tpm_Session
begin

text \<open>
  What the operations of \<open>attestation/tpm.rs\<close> do to the objects and sessions loaded in the
  device. The calls of the library are classified once (\<open>accounts\<close>); a small calculus of
  rules, collected in \<open>handle_intros\<close>, then derives what a whole sequence of calls releases
  and what a failure in the middle of it leaves behind.
\<close>

section \<open>Device contract\<close>

text \<open>
  Documented behaviour of the device, for the set \<open>live d\<close> of the objects and sessions loaded
  in it: an operation that creates, loads or starts returns a handle that was not live and
  adds it, or fails and adds nothing; a flush removes its handle; nothing else changes the
  set. In particular a context save leaves the object loaded.
\<close>

definition adds :: "('d \<Rightarrow> handle set) \<Rightarrow> ('r \<Rightarrow> handle) \<Rightarrow> ('d \<Rightarrow> (string + 'r) \<times> 'd) \<Rightarrow> bool" where
  "adds live key op \<longleftrightarrow> (\<forall>d. case fst (op d) of
       Inl _ \<Rightarrow> live (snd (op d)) = live d
     | Inr r \<Rightarrow> key r \<notin> live d \<and> live (snd (op d)) = insert (key r) (live d))"

definition keeps :: "('d \<Rightarrow> handle set) \<Rightarrow> ('d \<Rightarrow> 'r \<times> 'd) \<Rightarrow> bool" where
  "keeps live op \<longleftrightarrow> (\<forall>d. live (snd (op d)) = live d)"

definition starts :: "('d \<Rightarrow> handle set) \<Rightarrow> ('d \<Rightarrow> (string + handle option) \<times> 'd) \<Rightarrow> bool" where
  "starts live op \<longleftrightarrow> (\<forall>d. case fst (op d) of
       Inr (Some h) \<Rightarrow> h \<notin> live d \<and> live (snd (op d)) = insert h (live d)
     | _ \<Rightarrow> live (snd (op d)) = live d)"

definition accounts :: "('d, 'c) tss \<Rightarrow> ('d \<Rightarrow> handle set) \<Rightarrow> bool" where
  "accounts T live \<longleftrightarrow>
     (\<forall>p h. adds live (\<lambda>r. r) (load_external_public T p h)) \<and> (\<forall>h p. adds live fst (create_primary T h p)) \<and>
     (\<forall>h a p. adds live (\<lambda>r. r) (tss_load T h a p)) \<and> (\<forall>c. adds live (\<lambda>r. r) (context_load T c)) \<and>
     (\<forall>ty. starts live (start_auth_session T ty)) \<and>
     (\<forall>h d. live (snd (flush_context T h d)) = live d - {h}) \<and>
     (\<forall>h a b. keeps live (tss_make_credential T h a b)) \<and> (\<forall>i. keeps live (get_capability T i)) \<and>
     (\<forall>i. keeps live (tr_from_tpm_public T i)) \<and> (\<forall>h a b. keeps live (nv_read T h a b)) \<and>
     (\<forall>h. keeps live (policy_secret T h)) \<and> (\<forall>ss a b c e. keeps live (activate_credential T ss a b c e)) \<and>
     (\<forall>h a b. keeps live (tss_quote T h a b)) \<and> (\<forall>sel. keeps live (pcr_read T sel)) \<and>
     (\<forall>h sel. keeps live (policy_pcr T h sel)) \<and> (\<forall>h. keeps live (policy_get_digest T h)) \<and>
     (\<forall>h p b. keeps live (tss_create T h p b)) \<and> (\<forall>ss h. keeps live (tss_unseal T ss h)) \<and>
     (\<forall>h. keeps live (context_save T h))"

text \<open>Computations that leave the set alone, and that allocate one handle.\<close>

definition leaves :: "('d \<Rightarrow> handle set) \<Rightarrow> ('d, 'a) tpm \<Rightarrow> bool" where
  "leaves live m \<longleftrightarrow> (\<forall>s. live (cx_dev (snd (m s))) = live (cx_dev s))"

definition allocs :: "('d \<Rightarrow> handle set) \<Rightarrow> ('a \<Rightarrow> handle) \<Rightarrow> ('d, 'a) tpm \<Rightarrow> bool" where
  "allocs live key m \<longleftrightarrow> (\<forall>s r s'. m s = (r, s') \<longrightarrow> (case r of
       TOk a \<Rightarrow> key a \<notin> live (cx_dev s) \<and> live (cx_dev s') = insert (key a) (live (cx_dev s))
     | _ \<Rightarrow> live (cx_dev s') = live (cx_dev s)))"

text \<open>
  A computation that starts with the handles \<open>H\<close> to give back. When it succeeds it has given
  them back and returns new handles \<open>K\<close> to its caller; when it fails it has given back some
  of them and lost at most \<open>n\<close> further ones. \<open>freed\<close> is this for one run, from the set \<open>D\<close> to
  the set \<open>D'\<close>.
\<close>

definition freed :: "handle set \<Rightarrow> nat \<Rightarrow> handle set \<Rightarrow> handle list option \<Rightarrow> handle set \<Rightarrow> bool" where
  "freed H n D res D' \<longleftrightarrow> (case res of
       Some K \<Rightarrow> distinct K \<and> set K \<inter> (D - H) = {} \<and> D' = (D - H) \<union> set K
     | None \<Rightarrow> \<exists>L. finite L \<and> card L \<le> n \<and> L \<inter> D = {} \<and> D - H \<subseteq> D' \<and> D' \<subseteq> D \<union> L)"

fun is_ok :: "'a tres \<Rightarrow> bool" where
  "is_ok (TOk _) = True"
| "is_ok _ = False"

fun gained :: "('a \<Rightarrow> handle list) \<Rightarrow> 'a tres \<Rightarrow> handle list option" where
  "gained keys (TOk a) = Some (keys a)"
| "gained keys _ = None"

definition frees :: "('d \<Rightarrow> handle set) \<Rightarrow> ('a \<Rightarrow> handle list) \<Rightarrow> handle set \<Rightarrow> nat \<Rightarrow> ('d, 'a) tpm \<Rightarrow> bool" where
  "frees live keys H n m \<longleftrightarrow>
     (\<forall>s r s'. H \<subseteq> live (cx_dev s) \<longrightarrow> m s = (r, s') \<longrightarrow>
        freed H n (live (cx_dev s)) (gained keys r) (live (cx_dev s')))"

text \<open>Nothing to give back, nothing to return: success leaves the set as it was.\<close>

abbreviation releases :: "('d \<Rightarrow> handle set) \<Rightarrow> nat \<Rightarrow> ('d, 'a) tpm \<Rightarrow> bool" where
  "releases live \<equiv> frees live (\<lambda>_. []) {}"

lemma gained_None [simp]: "\<not> is_ok r \<Longrightarrow> gained keys r = None"
  by (cases r) auto

lemma freesD:
  "frees live keys H n m \<Longrightarrow> H \<subseteq> live (cx_dev s) \<Longrightarrow> m s = (r, s') \<Longrightarrow>
   freed H n (live (cx_dev s)) (gained keys r) (live (cx_dev s'))"
  by (simp add: frees_def)

named_theorems handle_intros \<open>what computations do to the live handles\<close>

lemma tbind_simps [simp]: "tbind (tpure a) f = f a" "tbind (of_res (Inr a)) f = f a"
  by (auto simp: tbind_def tpure_def of_res_def)

lemma leaves_basic [handle_intros]:
  "leaves live (tpure a)" "leaves live (of_res r)" "leaves live (of_out x)" "leaves live (set_sessions ss)"
  by (simp_all add: leaves_def tpure_def of_res_def of_out_def set_sessions_def)

lemma leaves_dev: "keeps live op \<Longrightarrow> leaves live (dev err op)"
  by (auto simp: leaves_def keeps_def dev_def split: prod.splits sum.splits) (metis snd_conv)+

lemma leaves_dev_auth: "(\<And>ss. keeps live (op ss)) \<Longrightarrow> leaves live (dev_auth err op)"
  using leaves_dev [of live] unfolding leaves_def dev_auth_def by blast

lemma leaves_tbind [handle_intros]: "leaves live m \<Longrightarrow> (\<And>a. leaves live (f a)) \<Longrightarrow> leaves live (tbind m f)"
  unfolding leaves_def tbind_def by (auto split: prod.splits tres.splits) (metis snd_conv)+

lemma leaves_pair [handle_intros]: "(\<And>a b. leaves live (f a b)) \<Longrightarrow> leaves live (case_prod f p)"
  by (cases p) simp

lemma leaves_if [handle_intros]: "leaves live a \<Longrightarrow> leaves live b \<Longrightarrow> leaves live (if c then a else b)"
  by simp

lemma leaves_or_none [handle_intros]: "leaves live m \<Longrightarrow> leaves live (or_none m)"
  unfolding leaves_def or_none_def by (auto split: prod.splits tres.splits) (metis snd_conv)+

lemma allocs_dev:
  assumes "adds live key op"
  shows "allocs live key (dev err op)"
  unfolding allocs_def
proof (intro allI impI)
  fix s r s' assume "dev err op s = (r, s')"
  then show "case r of TOk a \<Rightarrow> key a \<notin> live (cx_dev s) \<and> live (cx_dev s') = insert (key a) (live (cx_dev s))
     | _ \<Rightarrow> live (cx_dev s') = live (cx_dev s)"
    using spec [OF assms [unfolded adds_def], of "cx_dev s"]
    by (cases "op (cx_dev s)") (auto simp: dev_def split: sum.splits)
qed

lemma allocs_start:
  assumes "starts live op"
  shows "allocs live (\<lambda>r. r) (tbind (dev err op) (\<lambda>x. of_res (ok_or e x)))"
  unfolding allocs_def
proof (intro allI impI)
  fix s r s' assume "tbind (dev err op) (\<lambda>x. of_res (ok_or e x)) s = (r, s')"
  then show "case r of TOk a \<Rightarrow> a \<notin> live (cx_dev s) \<and> live (cx_dev s') = insert a (live (cx_dev s))
     | _ \<Rightarrow> live (cx_dev s') = live (cx_dev s)"
    using spec [OF assms [unfolded starts_def], of "cx_dev s"]
    by (cases "op (cx_dev s)") (auto simp: dev_def tbind_def of_res_def split: sum.splits option.splits)
qed

lemma tbind_cases:
  assumes "tbind m f s = (r, s')"
  obtains a s1 where "m s = (TOk a, s1)" "f a s1 = (r, s')"
    | r1 where "m s = (r1, s')" "\<not> is_ok r1" "\<not> is_ok r"
proof (cases "m s")
  case (Pair r1 s1)
  then show ?thesis using assms that by (cases r1) (auto simp: tbind_def)
qed

text \<open>How a sequence frees: leave the set alone first, allocate and free what was allocated too,
  flush one of the handles, or end.\<close>

lemma freed_none: "freed H n D None D"
  unfolding freed_def by (simp, intro exI [of _ "{}"]) auto

lemma freed_lost:
  assumes "freed {} n D None D'"
  shows "\<exists>L. finite L \<and> card L \<le> n \<and> L \<inter> D = {} \<and> D' = D \<union> L"
proof -
  obtain L where L: "finite L" "card L \<le> n" "L \<inter> D = {}" "D \<subseteq> D'" "D' \<subseteq> D \<union> L"
    using assms by (auto simp: freed_def)
  have "D' = D \<union> (L \<inter> D')" "card (L \<inter> D') \<le> n" using L card_mono [of L "L \<inter> D'"] by auto
  then show ?thesis using L(1,3) by (intro exI [of _ "L \<inter> D'"]) auto
qed

lemma freed_grow:
  assumes "k \<notin> D" "freed (insert k H) n (insert k D) res D'"
  shows "freed H (Suc n) D res D'"
proof (cases res)
  case (Some K)
  then show ?thesis using assms by (auto simp: freed_def)
next
  case None
  then obtain L where "finite L" "card L \<le> n" "L \<inter> insert k D = {}" "insert k D - insert k H \<subseteq> D'"
    "D' \<subseteq> insert k D \<union> L"
    using assms(2) by (auto simp: freed_def)
  then show ?thesis using None assms(1) unfolding freed_def
    by (simp, intro exI [of _ "insert k L"]) (auto simp: card_insert_if)
qed

lemma freed_flush:
  assumes "k \<in> H" "freed (H - {k}) n (D - {k}) res D'"
  shows "freed H n D res D'"
proof (cases res)
  case (Some K)
  moreover have "D - {k} - (H - {k}) = D - H" using assms(1) by auto
  ultimately show ?thesis using assms by (simp add: freed_def)
next
  case None
  then obtain L where L: "finite L" "card L \<le> n" "L \<inter> (D - {k}) = {}" "D - {k} - (H - {k}) \<subseteq> D'"
    "D' \<subseteq> D - {k} \<union> L"
    using assms(2) by (auto simp: freed_def)
  have "card (L - D) \<le> n" using L(1,2) by (meson Diff_subset card_mono order_trans)
  then show ?thesis using None assms(1) L unfolding freed_def
    by (simp, intro exI [of _ "L - D"]) auto
qed

lemma frees_leaves:
  assumes "leaves live m" "\<And>a. frees live keys H n (f a)"
  shows "frees live keys H n (tbind m f)"
  unfolding frees_def
proof (intro allI impI)
  fix s r s' assume H: "H \<subseteq> live (cx_dev s)" and t: "tbind m f s = (r, s')"
  have same: "live (cx_dev s1) = live (cx_dev s)" if "m s = (r1, s1)" for r1 s1
    using assms(1) that unfolding leaves_def by (metis snd_conv)
  from t show "freed H n (live (cx_dev s)) (gained keys r) (live (cx_dev s'))"
  proof (cases rule: tbind_cases)
    case (1 a s1)
    then show ?thesis using freesD [OF assms(2) _ 1(2)] H same [OF 1(1)] by simp
  qed (simp add: freed_none same)
qed

text \<open>A new handle is none of those already held.\<close>

lemma frees_alloc:
  assumes "allocs live key m" "\<And>a. key a \<notin> H \<Longrightarrow> frees live keys (insert (key a) H) n (f a)"
  shows "frees live keys H (Suc n) (tbind m f)"
  unfolding frees_def
proof (intro allI impI)
  fix s r s' assume H: "H \<subseteq> live (cx_dev s)" and "tbind m f s = (r, s')"
  from this(2) show "freed H (Suc n) (live (cx_dev s)) (gained keys r) (live (cx_dev s'))"
  proof (cases rule: tbind_cases)
    case (1 a s1)
    then have new: "key a \<notin> live (cx_dev s)" "live (cx_dev s1) = insert (key a) (live (cx_dev s))"
      using assms(1) unfolding allocs_def by fastforce+
    then have "freed (insert (key a) H) n (live (cx_dev s1)) (gained keys r) (live (cx_dev s'))"
      using H by (intro freesD [OF assms(2) _ 1(2)]) auto
    with new show ?thesis by (intro freed_grow [of "key a"]) simp_all
  next
    case (2 r1)
    then have "live (cx_dev s') = live (cx_dev s)"
      using assms(1) unfolding allocs_def by (cases r1) fastforce+
    then show ?thesis using 2 by (simp add: freed_none)
  qed
qed

lemma accounts_flush: "accounts T live \<Longrightarrow> live (snd (flush_context T h d)) = live d - {h}"
  by (simp add: accounts_def)

lemma frees_flush:
  assumes "accounts T live" "k \<in> H" "frees live keys (H - {k}) n (f ())"
  shows "frees live keys H n (tbind (flush T k) f)"
  unfolding frees_def
proof (intro allI impI)
  fix s r s' assume H: "H \<subseteq> live (cx_dev s)" and t: "tbind (flush T k) f s = (r, s')"
  let ?s1 = "s\<lparr>cx_dev := snd (flush_context T k (cx_dev s))\<rparr>"
  have "f () ?s1 = (r, s')" using t by (simp add: tbind_def flush_def)
  then have "freed (H - {k}) n (live (cx_dev ?s1)) (gained keys r) (live (cx_dev s'))"
    using H by (intro freesD [OF assms(3)]) (auto simp: accounts_flush [OF assms(1)])
  then show "freed H n (live (cx_dev s)) (gained keys r) (live (cx_dev s'))"
    using freed_flush [OF assms(2)] by (simp add: accounts_flush [OF assms(1)])
qed

text \<open>The end of a sequence: what is still held is what it returns.\<close>

lemma frees_tpure [handle_intros]: "distinct (keys a) \<Longrightarrow> set (keys a) = H \<Longrightarrow> frees live keys H n (tpure a)"
  by (auto simp: frees_def tpure_def freed_def)

lemma frees_end:
  assumes "leaves live m"
  shows "releases live n m"
  unfolding frees_def
proof (intro allI impI)
  fix s r s' assume "m s = (r, s')"
  then have "live (cx_dev s') = live (cx_dev s)" using assms unfolding leaves_def by (metis snd_conv)
  then show "freed {} n (live (cx_dev s)) (gained (\<lambda>_. []) r) (live (cx_dev s'))"
    by (cases r) (auto simp: freed_none, simp add: freed_def)
qed

lemma frees_pair [handle_intros]: "(\<And>a b. p = (a, b) \<Longrightarrow> frees live keys H n (f a b)) \<Longrightarrow> frees live keys H n (case_prod f p)"
  by (cases p) simp

lemma frees_if [handle_intros]:
  "(c \<Longrightarrow> frees live keys H n a) \<Longrightarrow> (\<not> c \<Longrightarrow> frees live keys H n b) \<Longrightarrow> frees live keys H n (if c then a else b)"
  by simp

text \<open>The device laws, one by one.\<close>

lemma accounts_adds:
  assumes "accounts T live"
  shows "adds live (\<lambda>r. r) (load_external_public T p hi)" "adds live fst (create_primary T hi p)"
    "adds live (\<lambda>r. r) (tss_load T h a p)" "adds live (\<lambda>r. r) (context_load T c)"
    "starts live (start_auth_session T ty)"
  using assms by (simp_all add: accounts_def)

lemma accounts_keeps:
  assumes "accounts T live"
  shows "keeps live (tss_make_credential T h a b)" "keeps live (get_capability T i)"
    "keeps live (tr_from_tpm_public T i)" "keeps live (nv_read T h m n)" "keeps live (policy_secret T h)"
    "keeps live (activate_credential T ss h h' a b)" "keeps live (tss_quote T h a sel)" "keeps live (pcr_read T sel)"
    "keeps live (policy_pcr T h sel)" "keeps live (policy_get_digest T h)" "keeps live (tss_create T h p a)"
    "keeps live (tss_unseal T ss h)" "keeps live (context_save T h)"
  using assms by (simp_all add: accounts_def del: split_paired_All)

lemma tbind_assoc: "tbind (tbind m f) g = tbind m (\<lambda>a. tbind (f a) g)"
  by (rule ext) (auto simp: tbind_def split: prod.splits tres.splits)

text \<open>A session is started and unwrapped in two steps; they allocate as one.\<close>

lemma start_fold:
  "tbind (dev err op) (\<lambda>x. tbind (of_res (ok_or e x)) f) = tbind (tbind (dev err op) (\<lambda>x. of_res (ok_or e x))) f"
  by (simp add: tbind_assoc)

lemma frees_conv [handle_intros]:
  assumes "frees live keys H n (f a)"
  shows "frees live keys H n (tbind (of_res (conv r err a)) f)"
proof (cases r)
  case None
  then show ?thesis using assms by (simp add: conv_def)
next
  case (Some e)
  then have "tbind (of_res (conv r err a)) f = of_res (Inl (err e))"
    by (auto simp: conv_def tbind_def of_res_def)
  then show ?thesis by (auto simp: frees_def of_res_def freed_none)
qed

text \<open>One rule per device operation, so that a sequence of calls determines its own accounting.\<close>

lemmas leaves_call [handle_intros] = accounts_keeps [THEN leaves_dev]
lemmas frees_call [handle_intros] = accounts_keeps [THEN leaves_dev, THEN frees_leaves]
lemmas frees_new [handle_intros] = accounts_adds(1-4) [THEN allocs_dev, THEN frees_alloc]
  accounts_adds(5) [THEN allocs_start, THEN frees_alloc]
lemmas frees_basic [handle_intros] = leaves_basic [THEN frees_leaves]
declare frees_flush [handle_intros]

lemma frees_authorized [handle_intros]:
  assumes "accounts T live"
  shows "(\<And>a. frees live keys H n (f a)) \<Longrightarrow>
      frees live keys H n (tbind (dev_auth err (\<lambda>ss. activate_credential T ss h h' b c)) f)"
    "(\<And>a. frees live keys H n (f a)) \<Longrightarrow> frees live keys H n (tbind (dev_auth err (\<lambda>ss. tss_unseal T ss h)) f)"
  by (simp_all add: frees_leaves leaves_dev_auth accounts_keeps [OF assms])

text \<open>What the shared steps do to the live handles.\<close>

lemma read_pcr_values_leaves [handle_intros]: "accounts T live \<Longrightarrow> leaves live (read_pcr_values Y T is)"
  unfolding read_pcr_values_def by (intro handle_intros)

lemma quote_with_leaves [handle_intros]: "accounts T live \<Longrightarrow> leaves live (quote_with Y T h a is)"
  unfolding quote_with_def by (intro handle_intros)

lemma read_ek_cert_leaves: "accounts T live \<Longrightarrow> leaves live (read_ek_cert T)"
  unfolding read_ek_cert_def by (intro handle_intros)

lemma activate_with_frees: "accounts T live \<Longrightarrow> releases live (Suc 0) (activate_with Y T ak ek b c)"
  unfolding activate_with_def start_fold by (intro handle_intros) auto

text \<open>A computation that releases what it allocates can be a step of another.\<close>

lemma frees_seq:
  assumes "releases live n m" "\<And>a. frees live keys H n (f a)"
  shows "frees live keys H n (tbind m f)"
  unfolding frees_def
proof (intro allI impI)
  fix s r s' assume H: "H \<subseteq> live (cx_dev s)" and "tbind m f s = (r, s')"
  from this(2) show "freed H n (live (cx_dev s)) (gained keys r) (live (cx_dev s'))"
  proof (cases rule: tbind_cases)
    case (1 a s1)
    then have "live (cx_dev s1) = live (cx_dev s)"
      using freesD [OF assms(1) _ 1(1)] by (simp add: freed_def)
    then show ?thesis using freesD [OF assms(2) _ 1(2)] H by simp
  next
    case (2 r1)
    then show ?thesis using freesD [OF assms(1) _ 2(1)] by (auto simp: freed_def)
  qed
qed

lemma allocs_after:
  assumes "leaves live m" "\<And>a. allocs live key (f a)"
  shows "allocs live key (tbind m f)"
  unfolding allocs_def
proof (intro allI impI)
  fix s r s' assume t: "tbind m f s = (r, s')"
  have same: "live (cx_dev s1) = live (cx_dev s)" if "m s = (r1, s1)" for r1 s1
    using assms(1) that unfolding leaves_def by (metis snd_conv)
  from t show "case r of TOk a \<Rightarrow> key a \<notin> live (cx_dev s) \<and> live (cx_dev s') = insert (key a) (live (cx_dev s))
     | _ \<Rightarrow> live (cx_dev s') = live (cx_dev s)"
  proof (cases rule: tbind_cases)
    case (1 a s1)
    then show ?thesis using assms(2) [of a, unfolded allocs_def, rule_format, OF 1(2)] same [OF 1(1)]
      by (cases r) simp_all
  next
    case (2 r1)
    then show ?thesis using same by (cases r) auto
  qed
qed

lemma allocs_map:
  assumes "allocs live (\<lambda>a. key (g a)) m"
  shows "allocs live key (tbind m (\<lambda>a. tpure (g a)))"
  unfolding allocs_def
proof (intro allI impI)
  fix s r s' assume "tbind m (\<lambda>a. tpure (g a)) s = (r, s')"
  then show "case r of TOk a \<Rightarrow> key a \<notin> live (cx_dev s) \<and> live (cx_dev s') = insert (key a) (live (cx_dev s))
     | _ \<Rightarrow> live (cx_dev s') = live (cx_dev s)"
  proof (cases rule: tbind_cases)
    case (1 a s1)
    then have "r = TOk (g a)" "m s = (TOk a, s')" by (auto simp: tpure_def)
    then show ?thesis using assms unfolding allocs_def by fastforce
  next
    case (2 r1)
    then have "live (cx_dev s') = live (cx_dev s)"
      using assms unfolding allocs_def by (cases r1) fastforce+
    then show ?thesis using 2 by (cases r) auto
  qed
qed

lemma create_srk_allocs: "accounts T live \<Longrightarrow> allocs live (\<lambda>h. h) (create_srk Y T)"
  unfolding create_srk_def case_prod_beta
  by (intro allocs_after leaves_basic allocs_map allocs_dev accounts_adds)

lemmas frees_srk [handle_intros] = create_srk_allocs [THEN frees_alloc]

lemma policy_digest_frees:
  "accounts T live \<Longrightarrow> releases live (Suc 0) (compute_pcr_policy_digest T sel)"
  unfolding compute_pcr_policy_digest_def start_fold by (intro handle_intros) auto

lemmas frees_digest [handle_intros] = policy_digest_frees [THEN frees_seq]

lemma seal_in_frees: "accounts T live \<Longrightarrow> releases live (Suc 0) (seal_in Y T pt is)"
  unfolding seal_in_def by (intro handle_intros) auto

lemma unseal_in_frees: "accounts T live \<Longrightarrow> releases live (Suc (Suc (Suc 0))) (unseal_in Y T b)"
  unfolding unseal_in_def start_fold by (intro handle_intros) auto

lemma make_credential_frees: "accounts T live \<Longrightarrow> releases live (Suc 0) (make_credential_in Y h T e a k)"
  unfolding make_credential_in_def by (intro handle_intros) auto

lemma begin_session_frees:
  "accounts T live \<Longrightarrow> frees live (\<lambda>a. [as_ak_handle a, as_ek_handle a]) {} (Suc (Suc 0)) (begin_session Y T)"
  unfolding begin_session_def by (intro handle_intros) auto

section \<open>Failing calls, exactly\<close>

text \<open>An error of a sequence is an error of one of its steps, after the steps before it.\<close>

lemma tbind_TErr:
  "tbind m f s = (TErr e, s') \<longleftrightarrow> m s = (TErr e, s') \<or> (\<exists>a s1. m s = (TOk a, s1) \<and> f a s1 = (TErr e, s'))"
  by (cases "m s"; cases "fst (m s)") (auto simp: tbind_def)

lemma tbind_TOk: "tbind m f s = (TOk b, s') \<longleftrightarrow> (\<exists>a s1. m s = (TOk a, s1) \<and> f a s1 = (TOk b, s'))"
  by (cases "m s"; cases "fst (m s)") (auto simp: tbind_def)

lemma tpure_TErr [simp]: "tpure a s \<noteq> (TErr e, s')"
  by (simp add: tpure_def)

lemma of_res_eq [simp]:
  "of_res r s = (TErr e, s') \<longleftrightarrow> r = Inl e \<and> s' = s" "of_res r s = (TOk a, s') \<longleftrightarrow> r = Inr a \<and> s' = s"
  by (auto simp: of_res_def split: sum.splits)

lemma dev_TErr: "dev err op s = (TErr e, s') \<longleftrightarrow> (\<exists>x d. op (cx_dev s) = (Inl x, d) \<and> e = err x \<and> s' = s\<lparr>cx_dev := d\<rparr>)"
  by (cases "op (cx_dev s)"; cases "fst (op (cx_dev s))") (auto simp: dev_def)

lemma of_out_TOk: "of_out x s = (TOk a, s') \<longleftrightarrow> x = Returns a \<and> s' = s"
  by (auto simp: of_out_def split: outcome.splits)

lemma map_err_Inr: "(case x of Inl e \<Rightarrow> Inl (f e) | Inr b \<Rightarrow> Inr b) = Inr q \<longleftrightarrow> x = Inr q"
  by (cases x) auto

lemma dev_TOk: "dev err op s = (TOk a, s') \<longleftrightarrow> (\<exists>d. op (cx_dev s) = (Inr a, d) \<and> s' = s\<lparr>cx_dev := d\<rparr>)"
  by (cases "op (cx_dev s)"; cases "fst (op (cx_dev s))") (auto simp: dev_def)

lemma flush_eq [simp]:
  "flush T h s \<noteq> (TErr e, s')"
  "flush T h s = (TOk a, s') \<longleftrightarrow> s' = s\<lparr>cx_dev := snd (flush_context T h (cx_dev s))\<rparr>"
  by (auto simp: flush_def)

lemma set_sessions_eq [simp]:
  "set_sessions x s \<noteq> (TErr e, s')" "set_sessions x s = (TOk a, s') \<longleftrightarrow> s' = s\<lparr>cx_sessions := x\<rparr>"
  by (auto simp: set_sessions_def)

lemma allocsD:
  "allocs live key m \<Longrightarrow> m s = (TOk a, s') \<Longrightarrow>
     key a \<notin> live (cx_dev s) \<and> live (cx_dev s') = insert (key a) (live (cx_dev s))"
  unfolding allocs_def by fastforce

lemma conv_eq [simp]: "conv r err a = Inl e \<longleftrightarrow> (\<exists>x. r = Some x \<and> e = err x)" "conv r err a = Inr b \<longleftrightarrow> r = None \<and> b = a"
  by (auto simp: conv_def split: option.splits)

lemma keepsD: "keeps live op \<Longrightarrow> op d = (r, d') \<Longrightarrow> live d' = live d"
  unfolding keeps_def by (metis snd_conv)

lemma dev_keeps: "keeps live op \<Longrightarrow> dev err op s = (r, s') \<Longrightarrow> live (cx_dev s') = live (cx_dev s) \<and> cx_sessions s' = cx_sessions s"
  by (auto simp: dev_def dest: keepsD split: prod.splits sum.splits)

lemma selection_error: "pcr_selection Y is = Inl e \<Longrightarrow> e \<noteq> Esapi (''TPM2_Unseal failed: '' @ x)"
proof -
  have "slots_from_indices is = Inl e \<Longrightarrow> e \<noteq> Esapi (''TPM2_Unseal failed: '' @ x)" for e
    by (induction "is") (auto simp: rbind_eq_Inl pcr_slot_from_index_def split: if_splits)
  then show "pcr_selection Y is = Inl e \<Longrightarrow> e \<noteq> Esapi (''TPM2_Unseal failed: '' @ x)"
    by (auto simp: pcr_selection_def rbind_eq_Inl esapi_def)
qed

lemma srk_error: "create_srk Y T s \<noteq> (TErr (Esapi (''TPM2_Unseal failed: '' @ x)), s')"
  by (auto simp: create_srk_def srk_template_def Let_def tbind_TErr dev_TErr esapi_def rbind_eq_Inl split: prod.splits)

lemma failed_unseal_run:
  assumes "unseal_in Y T sealed s = (TErr (Esapi (''TPM2_Unseal failed: '' @ e)), s')"
  obtains srk s1 pv pb obj s2 session s3 sel s4 d where
    "create_srk Y T s = (TOk srk, s1)"
    "dev (esapi ''TPM2_Load failed: '') (tss_load T srk pv pb) s1 = (TOk obj, s2)"
    "dev (esapi ''start policy session: '') (start_auth_session T Policy) s2 = (TOk (Some session), s3)"
    "dev (esapi ''policy_pcr (unseal) failed: '') (policy_pcr T session sel) s3 = (TOk (), s4)"
    "tss_unseal T (Some (AuthSession session), None, None) obj (cx_dev s4) = (Inl e, d)"
    "s' = s4\<lparr>cx_sessions := (Some (AuthSession session), None, None), cx_dev := d\<rparr>"
  using assms
  by (auto simp: unseal_in_def tbind_TErr dev_TErr dev_auth_def srk_error [simplified] esapi_def ok_or_def
      dest!: selection_error split: sum.splits option.splits)

lemma started_session:
  assumes "accounts T live" "dev err (start_auth_session T ty) s = (TOk (Some h), s')"
  shows "h \<notin> live (cx_dev s) \<and> live (cx_dev s') = insert h (live (cx_dev s))"
proof -
  have "tbind (dev err (start_auth_session T ty)) (\<lambda>x. of_res (ok_or (Esapi []) x)) s = (TOk h, s')"
    by (simp add: tbind_def assms(2) ok_or_def)
  from allocsD [OF allocs_start [OF accounts_adds(5) [OF assms(1)]] this] show ?thesis .
qed

lemma refused_unseal:
  assumes "accounts T live" "unseal_in Y T sealed s = (TErr (Esapi (''TPM2_Unseal failed: '' @ e)), s')"
  shows "\<exists>srk obj session. distinct [srk, obj, session] \<and> {srk, obj, session} \<inter> live (cx_dev s) = {} \<and>
    live (cx_dev s') = {srk, obj, session} \<union> live (cx_dev s) \<and>
    cx_sessions s' = (Some (AuthSession session), None, None)"
  using assms(2)
proof (cases rule: failed_unseal_run)
  case (1 srk s1 pv pb obj s2 session s3 sel s4 d)
  have "srk \<notin> live (cx_dev s) \<and> live (cx_dev s1) = insert srk (live (cx_dev s))"
    using allocsD [OF create_srk_allocs [OF assms(1)] 1(1)] .
  moreover have "obj \<notin> live (cx_dev s1) \<and> live (cx_dev s2) = insert obj (live (cx_dev s1))"
    using allocsD [OF allocs_dev [OF accounts_adds(3) [OF assms(1)]] 1(2)] .
  moreover note started_session [OF assms(1) 1(3)]
  moreover have "live (cx_dev s4) = live (cx_dev s3)" using dev_keeps [OF accounts_keeps(9) [OF assms(1)] 1(4)] by simp
  moreover have "live d = live (cx_dev s4)" using keepsD [OF accounts_keeps(12) [OF assms(1)] 1(5)] .
  ultimately have "distinct [srk, obj, session]" "{srk, obj, session} \<inter> live (cx_dev s) = {}"
    "live d = {srk, obj, session} \<union> live (cx_dev s)" by auto
  then show ?thesis unfolding 1(6)
    by (intro exI [of _ srk] exI [of _ obj] exI [of _ session]) simp
qed

section \<open>A simulated device\<close>

text \<open>For concrete runs: the device is the list of its live handles and a new handle is larger
  than all of them. The flag says whether the device grants \<open>TPM2_Unseal\<close>; a saved context
  is the handle it was saved from.\<close>

definition fresh :: "handle list \<Rightarrow> handle" where
  "fresh d = Suc (foldr max d 0)"

definition sim_add :: "(handle \<Rightarrow> 'r) \<Rightarrow> handle list \<Rightarrow> (string + 'r) \<times> handle list" where
  "sim_add res d = (Inr (res (fresh d)), fresh d # d)"

definition sim :: "bool \<Rightarrow> (handle list, handle) tss" where
  "sim grant =
    \<lparr>ctx_new = (\<lambda>_. Inr []), load_external_public = (\<lambda>_ _. sim_add (\<lambda>h. h)),
     tss_make_credential = (\<lambda>_ cred name d. (Inr (name, cred), d)),
     create_primary = (\<lambda>_ p. sim_add (\<lambda>h. (h, p))),
     marshall_public = (\<lambda>_. Inr [0]), unmarshall_public = (\<lambda>_. Inr (PublicKeyedHash Sha256 no_attrs [] KeyedHashNull [])),
     get_capability = (\<lambda>i d. (Inr (Handles [NvIndex i]), d)), nv_index_new = (\<lambda>_. None),
     tr_from_tpm_public = (\<lambda>_ d. (Inr 0, d)), nv_read = (\<lambda>_ _ _ d. (Inr [1], d)),
     start_auth_session = (\<lambda>_. sim_add Some), to_policy_session = (\<lambda>_. None), policy_secret = (\<lambda>_ d. (Inr (), d)),
     activate_credential = (\<lambda>_ _ _ _ enc d. (Inr enc, d)),
     tss_quote = (\<lambda>_ extra sel d. (Inr (Inr (extra @ map word_of_nat sel), EcDsa [1] [2]), d)),
     pcr_read = (\<lambda>sel d. (Inr (map (\<lambda>i. replicate 32 (word_of_nat i)) sel), d)),
     policy_pcr = (\<lambda>_ _ d. (Inr (), d)), policy_get_digest = (\<lambda>_ d. (Inr [], d)),
     tss_create = (\<lambda>_ p sensitive d. (Inr (sensitive, p), d)), tss_load = (\<lambda>_ _ _. sim_add (\<lambda>h. h)),
     tss_unseal = (\<lambda>_ _ d. (if grant then Inr [7] else Inl ''policy check failed'', d)),
     context_save = (\<lambda>h d. (Inr h, d)), context_load = (\<lambda>_. sim_add (\<lambda>h. h)),
     flush_context = (\<lambda>h d. (Inr (), removeAll h d))\<rparr>"

lemma fresh_new: "fresh d \<notin> set d"
proof -
  have "h \<le> foldr max d 0" if "h \<in> set d" for h
    using that by (induction d) auto
  then show ?thesis unfolding fresh_def by (metis Suc_n_not_le_n)
qed

lemma sim_adds: "adds set key (sim_add res)" if "\<And>h. key (res h) = h"
  using that by (simp add: adds_def sim_add_def fresh_new)

lemma sim_starts: "starts set (sim_add Some)"
  by (simp add: starts_def sim_add_def fresh_new)

lemma sim_accounts: "accounts (sim grant) set"
  unfolding accounts_def sim_def
  by (simp add: sim_adds sim_starts) (simp add: keeps_def set_minus_filter_out)

section \<open>Properties\<close>

text \<open>C12. The TPM calls release what they allocate. On a device that accounts for its handles,
  a successful call of credential making, credential activation, quoting, sealing,
  unsealing or reading the EK certificate leaves the set of loaded objects and sessions as
  it was; a call that fails or panics releases nothing of what was loaded before and leaves
  at most one handle behind (three for unsealing, none for quoting and the certificate).\<close>

theorem tpm_calls_release_handles:
  assumes "accounts T live"
  shows "releases live 1 (make_credential_in Y sha2 T ek_spki ak_pub secret) \<and>
    releases live 1 (activate_with Y T ak ek blob secret) \<and> releases live 0 (quote_with Y T ak nonce indices) \<and>
    releases live 1 (seal_in Y T plaintext indices) \<and> releases live 3 (unseal_in Y T sealed) \<and>
    releases live 0 (read_ek_cert T)"
  using make_credential_frees [OF assms] activate_with_frees [OF assms] seal_in_frees [OF assms]
    unseal_in_frees [OF assms] quote_with_leaves [OF assms] read_ek_cert_leaves [OF assms]
  by (auto simp: numeral_eq_Suc intro: frees_end)

text \<open>C27. What a refused unseal leaves behind, exactly. When the device refuses
  \<open>TPM2_Unseal\<close> (the PCRs changed, say), the storage key, the sealed object and the policy
  session stay loaded, and the session slots still hold the policy session: none of the
  four clean-up calls after the \<open>?\<close> runs.\<close>

theorem refused_unseal_leaks_three_handles:
  assumes "accounts T live" "unseal_in Y T sealed s = (TErr (Esapi (''TPM2_Unseal failed: '' @ e)), s')"
  shows "\<exists>srk obj session. distinct [srk, obj, session] \<and> {srk, obj, session} \<inter> live (cx_dev s) = {} \<and>
    live (cx_dev s') = {srk, obj, session} \<union> live (cx_dev s) \<and>
    cx_sessions s' = (Some (AuthSession session), None, None)"
  by (rule refused_unseal [OF assms])

definition sim_context :: "handle list tss_context" where
  "sim_context = \<lparr>cx_dev = [5], cx_sessions = NO_SESSIONS\<rparr>"

definition sim_blob :: sealed_blob where
  "sim_blob = \<lparr>sb_private = [1], sb_public = [2], sb_pcr_indices = [0, 7]\<rparr>"

lemmas sim_run = tbind_def tpure_def of_res_def dev_def dev_auth_def flush_def set_sessions_def conv_def ok_or_def
  esapi_def rbind_def pcr_selection_def pcr_slot_from_index_def create_srk_def srk_template_def
  plain_types_def sim_def sim_add_def fresh_def sim_context_def sim_blob_def NO_SESSIONS_def

lemma sim_granted: "unseal_in plain_types (sim True) sim_blob sim_context = (TOk [7], sim_context)"
  by (simp add: unseal_in_def sim_run)

lemma sim_refused:
  "unseal_in plain_types (sim False) sim_blob sim_context =
     (TErr (Esapi (''TPM2_Unseal failed: '' @ ''policy check failed'')),
      \<lparr>cx_dev = [8, 7, 6, 5], cx_sessions = (Some (AuthSession 8), None, None)\<rparr>)"
  by (simp add: unseal_in_def sim_run)

theorem tpm_calls_release_handles_witness:
  "releases set 3 (unseal_in plain_types (sim True) sim_blob) \<and>
   unseal_in plain_types (sim True) sim_blob sim_context = (TOk [7], sim_context)"
  using tpm_calls_release_handles [OF sim_accounts, where Y = plain_types and sealed = sim_blob] sim_granted by blast

theorem refused_unseal_leaks_three_handles_witness:
  "\<exists>s'. unseal_in plain_types (sim False) sim_blob sim_context =
      (TErr (Esapi (''TPM2_Unseal failed: '' @ ''policy check failed'')), s') \<and>
    (\<exists>srk obj session. distinct [srk, obj, session] \<and> {srk, obj, session} \<inter> set (cx_dev sim_context) = {} \<and>
      set (cx_dev s') = {srk, obj, session} \<union> set (cx_dev sim_context) \<and>
      cx_sessions s' = (Some (AuthSession session), None, None))"
  using refused_unseal_leaks_three_handles [OF sim_accounts sim_refused] sim_refused by blast

lemma spki_returns:
  assumes "m \<noteq> []"
  obtains spki where "rsa_public_to_spki m ex = Returns spki"
proof -
  have "be_bytes 4 ex \<noteq> []" by (simp flip: length_0_conv)
  then show ?thesis using that assms by (simp add: rsa_public_to_spki_def rsa_seq_def der_integer_eq)
qed

lemma sim_begin:
  "\<exists>spki. begin_session plain_types (sim True) sim_context =
     (TOk \<lparr>as_ak_handle = 7, as_ek_handle = 6, as_ak_pub = [0], as_ek_spki = spki\<rparr>,
      \<lparr>cx_dev = [7, 6, 5], cx_sessions = NO_SESSIONS\<rparr>)"
proof -
  obtain spki where "rsa_public_to_spki (replicate 256 0) 65537 = Returns spki" by (rule spki_returns [of "replicate 256 0" 65537]) auto
  then show ?thesis
    by (simp add: begin_session_def ek_template_def ak_template_def of_out_def sim_run)
qed

text \<open>An attestation session owns exactly its two keys. A begun session holds two new,
  different handles and nothing else was added or removed; dropping it, in whatever state
  the device is by then, removes these two and nothing else. When beginning fails, what was
  loaded before is untouched and at most two handles stay behind.\<close>

theorem session_owns_its_keys:
  assumes "accounts T live" "begin_session Y T s = (r, s1)"
  shows "case r of
      TOk a \<Rightarrow> as_ak_handle a \<noteq> as_ek_handle a \<and> {as_ak_handle a, as_ek_handle a} \<inter> live (cx_dev s) = {} \<and>
        live (cx_dev s1) = live (cx_dev s) \<union> {as_ak_handle a, as_ek_handle a} \<and>
        (\<forall>s2. live (cx_dev (snd (drop_session T a s2))) = live (cx_dev s2) - {as_ak_handle a, as_ek_handle a})
    | _ \<Rightarrow> \<exists>L. finite L \<and> card L \<le> 2 \<and> L \<inter> live (cx_dev s) = {} \<and> live (cx_dev s1) = live (cx_dev s) \<union> L"
proof -
  have run: "freed {} 2 (live (cx_dev s)) (gained (\<lambda>a. [as_ak_handle a, as_ek_handle a]) r) (live (cx_dev s1))"
    using freesD [OF begin_session_frees [OF assms(1)] _ assms(2)] by (simp add: numeral_eq_Suc)
  show ?thesis
  proof (cases r)
    case (TOk a)
    have "live (cx_dev (snd (drop_session T a s2))) = live (cx_dev s2) - {as_ak_handle a, as_ek_handle a}" for s2
      by (auto simp: drop_session_def tbind_def flush_def accounts_flush [OF assms(1)])
    then show ?thesis using run TOk by (auto simp: freed_def)
  qed (use run freed_lost in auto)
qed

theorem session_owns_its_keys_witness:
  "\<exists>a s1. begin_session plain_types (sim True) sim_context = (TOk a, s1) \<and>
     as_ak_handle a \<noteq> as_ek_handle a \<and> set (cx_dev s1) = {5} \<union> {as_ak_handle a, as_ek_handle a} \<and>
     set (cx_dev (snd (drop_session (sim True) a s1))) = {5}"
proof -
  obtain a s1 where b: "begin_session plain_types (sim True) sim_context = (TOk a, s1)"
    using sim_begin by blast
  from session_owns_its_keys [OF sim_accounts b] b show ?thesis
    by (auto simp: sim_context_def)
qed

end
