(* ===== verification/Tpm_Manager.thy ===== *)
theory Tpm_Manager
  imports Tpm_Handles "HOL-Library.Multiset"
begin

text \<open>
  Runs of the context manager (\<open>TpmContextManager\<close> of \<open>attestation/tpm.rs\<close>): any interleaving
  of its methods over any number of open sessions, as a step relation, and the invariant
  that ties the handles loaded in the device to the key states of the open sessions and to
  the calls that failed.
\<close>

section \<open>Handles of a session\<close>

fun held_state :: "'c key_state \<Rightarrow> handle list" where
  "held_state (Live h) = [h]"
| "held_state (Saved _) = []"

definition held :: "'c managed_session \<Rightarrow> handle list" where
  "held m = held_state (ms_ak_state m) @ held_state (ms_ek_state m)"

definition held_all :: "'c managed_session list \<Rightarrow> handle list" where
  "held_all ms = concat (map held ms)"

lemma held_all_simps [simp]:
  "held_all [] = []" "held_all (m # ms) = held m @ held_all ms" "held_all (xs @ ys) = held_all xs @ held_all ys"
  by (simp_all add: held_all_def)

section \<open>Runs\<close>

text \<open>
  \<open>mgr_run Y T rm s0 s ms n\<close>: from the context \<open>s0\<close> the manager has come to \<open>s\<close> with the
  sessions \<open>ms\<close> open. The budget \<open>n\<close> adds up what its failed calls may have lost: two handles
  for a failed begin, one for a failed activation or seal, three for a failed unseal.
\<close>

inductive mgr_run ::
    "tss_types \<Rightarrow> ('d, 'c) tss \<Rightarrow> bool \<Rightarrow> 'd tss_context \<Rightarrow> 'd tss_context \<Rightarrow> 'c managed_session list \<Rightarrow> nat \<Rightarrow> bool"
  for Y T rm s0 where
  start: "mgr_run Y T rm s0 s0 [] 0"
| begin_ok: "mgr_run Y T rm s0 s ms n \<Longrightarrow> begin_attestation Y T rm s = (TOk m, s') \<Longrightarrow>
    mgr_run Y T rm s0 s' (m # ms) n"
| begin_err: "mgr_run Y T rm s0 s ms n \<Longrightarrow> begin_attestation Y T rm s = (r, s') \<Longrightarrow> \<not> is_ok r \<Longrightarrow>
    mgr_run Y T rm s0 s' ms (n + 2)"
| activate: "mgr_run Y T rm s0 s (xs @ m # ys) n \<Longrightarrow> mgr_activate Y T rm m blob secret s = (r, m', s') \<Longrightarrow>
    mgr_run Y T rm s0 s' (xs @ m' # ys) (n + (if is_ok r then 0 else 1))"
| quote: "mgr_run Y T rm s0 s (xs @ m # ys) n \<Longrightarrow> mgr_quote Y T rm m nonce indices s = (r, m', s') \<Longrightarrow>
    mgr_run Y T rm s0 s' (xs @ m' # ys) n"
| seal: "mgr_run Y T rm s0 s ms n \<Longrightarrow> mgr_seal_to_pcr Y T plaintext indices s = (r, s') \<Longrightarrow>
    mgr_run Y T rm s0 s' ms (n + (if is_ok r then 0 else 1))"
| unseal: "mgr_run Y T rm s0 s ms n \<Longrightarrow> mgr_unseal Y T sealed s = (r', s') \<Longrightarrow>
    mgr_run Y T rm s0 s' ms (n + (if is_ok r' then 0 else 3))"
| read_cert: "mgr_run Y T rm s0 s ms n \<Longrightarrow> mgr_read_ek_cert T s = (c, s') \<Longrightarrow> mgr_run Y T rm s0 s' ms n"
| finish: "mgr_run Y T rm s0 s (xs @ m # ys) n \<Longrightarrow> finish_attestation T m s = (u, s') \<Longrightarrow>
    mgr_run Y T rm s0 s' (xs @ ys) n"

section \<open>The invariant\<close>

text \<open>The loaded handles are those loaded at the start, those the open sessions hold, each by
  one key of one session, and at most \<open>n\<close> lost ones.\<close>

definition owned :: "handle set \<Rightarrow> nat \<Rightarrow> handle list \<Rightarrow> handle set \<Rightarrow> bool" where
  "owned B n hs D \<longleftrightarrow> (\<exists>L. finite L \<and> card L \<le> n \<and> distinct hs \<and> B \<inter> set hs = {} \<and>
     L \<inter> (B \<union> set hs) = {} \<and> D = B \<union> set hs \<union> L)"

lemma owned_start: "owned B 0 [] B"
  unfolding owned_def by (intro exI [of _ "{}"]) simp

lemma owned_mono: "owned B n hs D \<Longrightarrow> n \<le> n' \<Longrightarrow> owned B n' hs D"
  unfolding owned_def by (elim exE, rule exI) (auto elim: order_trans)

lemma owned_mset: "owned B n hs D \<Longrightarrow> mset hs = mset hs' \<Longrightarrow> owned B n hs' D"
  unfolding owned_def by (metis mset_eq_imp_distinct_iff set_mset_mset)

lemma owned_gain:
  assumes "owned B n hs D" "freed {} k D (Some K) D'"
  shows "owned B n (K @ hs) D'"
proof -
  have K: "distinct K" "set K \<inter> D = {}" "D' = D \<union> set K" using assms(2) by (auto simp: freed_def)
  with assms(1) show ?thesis unfolding owned_def by (elim exE, intro exI) auto
qed

lemma owned_lose:
  assumes "owned B n hs D" "freed {} k D None D'"
  shows "owned B (n + k) hs D'"
proof -
  obtain L' where L': "finite L'" "card L' \<le> k" "L' \<inter> D = {}" "D' = D \<union> L'"
    using freed_lost [OF assms(2)] by auto
  obtain L where L: "finite L" "card L \<le> n" "distinct hs" "B \<inter> set hs = {}" "L \<inter> (B \<union> set hs) = {}"
    "D = B \<union> set hs \<union> L" using assms(1) by (auto simp: owned_def)
  have "card (L \<union> L') \<le> n + k" using card_Un_le [of L L'] L(2) L'(2) by linarith
  then show ?thesis using L L' unfolding owned_def by (intro exI [of _ "L \<union> L'"]) auto
qed

lemma owned_call:
  assumes "owned B n hs D" "freed {} k D (gained (\<lambda>_. []) r) D'"
  shows "owned B (n + (if is_ok r then 0 else k)) hs D'"
  using assms owned_gain [of B n hs D k "[]" D'] owned_lose [OF assms(1)] by (cases r) auto

lemma owned_new: "owned B n hs D \<Longrightarrow> h \<notin> D \<Longrightarrow> owned B n (h # hs) (insert h D)"
  unfolding owned_def by (elim exE, intro exI) auto

lemma owned_flush: "owned B n (h # hs) D \<Longrightarrow> owned B n hs (D - {h})"
  unfolding owned_def by (elim exE, intro exI) auto

section \<open>What the methods do to it\<close>

lemma ensure_loaded_owned:
  assumes "accounts T live" "ensure_loaded T st s = (r, st', s')" "owned B n (held_state st @ hs) (live (cx_dev s))"
  shows "owned B n (held_state st' @ hs) (live (cx_dev s'))"
proof (cases st)
  case (Saved c)
  let ?load = "dev (esapi ''context_load failed: '') (context_load T c)"
  have load: "allocs live (\<lambda>h. h) ?load" by (rule allocs_dev [OF accounts_adds(4) [OF assms(1)]])
  obtain r1 s1 where run: "?load s = (r1, s1)" by fastforce
  show ?thesis
  proof (cases r1)
    case (TOk h)
    then show ?thesis using assms(2,3) Saved run allocsD [OF load, of s h s1] owned_new
      by (fastforce simp: ensure_loaded_def)
  next
    case (TErr e)
    then show ?thesis using assms(2,3) Saved run load by (fastforce simp: ensure_loaded_def allocs_def)
  next
    case TPanic
    then show ?thesis using assms(2,3) Saved run load by (fastforce simp: ensure_loaded_def allocs_def)
  qed
qed (use assms in \<open>simp add: ensure_loaded_def\<close>)

lemma save_owned:
  assumes "accounts T live" "save_if_needed T rm st s = (r, st', s')" "owned B n (held_state st @ hs) (live (cx_dev s))"
  shows "owned B n (held_state st' @ hs) (live (cx_dev s'))"
proof (cases "\<not> rm \<and> (\<exists>h. st = Live h)")
  case True
  then obtain h where st: "st = Live h" "\<not> rm" by blast
  let ?save = "dev (esapi ''context_save failed: '') (context_save T h)"
  obtain r1 s1 where run: "?save s = (r1, s1)" by fastforce
  then have same: "live (cx_dev s1) = live (cx_dev s)"
    using dev_keeps [OF accounts_keeps(13) [OF assms(1)]] by blast
  show ?thesis
    using assms(2,3) st run same owned_flush [of B n h hs "live (cx_dev s)"]
    by (cases r1) (auto simp: save_if_needed_def flush_def accounts_flush [OF assms(1)])
qed (use assms in \<open>auto simp: save_if_needed_def split: key_state.splits\<close>)

lemma swap_held: "mset (held_state a @ held_state b @ hs) = mset (held_state b @ held_state a @ hs)"
  by simp

text \<open>Both keys of a session, one after the other, around a call that gives back what it takes.\<close>

lemma activate_inner_owned:
  assumes "accounts T live" "activate_inner Y T m blob secret s = (r, m', s')" "owned B n (held m @ hs) (live (cx_dev s))"
  shows "owned B (n + (if is_ok r then 0 else 1)) (held m' @ hs) (live (cx_dev s'))"
proof -
  obtain r1 ak s1 where l1: "ensure_loaded T (ms_ak_state m) s = (r1, ak, s1)" by (metis prod_cases3)
  have o1: "owned B n (held_state ak @ held_state (ms_ek_state m) @ hs) (live (cx_dev s1))"
    using ensure_loaded_owned [OF assms(1) l1] assms(3) by (simp add: held_def)
  show ?thesis
  proof (cases r1)
    case (TOk h)
    obtain r2 ek s2 where l2: "ensure_loaded T (ms_ek_state m) s1 = (r2, ek, s2)" by (metis prod_cases3)
    have o2: "owned B n (held_state ak @ held_state ek @ hs) (live (cx_dev s2))"
      using ensure_loaded_owned [OF assms(1) l2 owned_mset [OF o1 swap_held]] owned_mset [OF _ swap_held] by blast
    show ?thesis
    proof (cases r2)
      case (TOk k)
      obtain r3 s3 where c: "activate_with Y T h k blob secret s2 = (r3, s3)" by fastforce
      have "owned B (n + (if is_ok r3 then 0 else Suc 0)) (held_state ak @ held_state ek @ hs) (live (cx_dev s3))"
        using owned_call [OF o2] freesD [OF activate_with_frees [OF assms(1)] _ c] by blast
      then show ?thesis using assms(2) l1 l2 c \<open>r1 = TOk h\<close> TOk by (auto simp: activate_inner_def activate_loaded_eq Let_def held_def)
    qed (use assms(2) l1 l2 o2 \<open>r1 = TOk h\<close> in \<open>auto simp: activate_inner_def activate_loaded_eq Let_def held_def intro: owned_mono\<close>)
  qed (use assms(2) l1 o1 in \<open>auto simp: activate_inner_def activate_loaded_eq Let_def held_def intro: owned_mono\<close>)
qed

lemma mgr_activate_owned:
  assumes "accounts T live" "mgr_activate Y T rm m blob secret s = (r, m', s')" "owned B n (held m @ hs) (live (cx_dev s))"
  shows "owned B (n + (if is_ok r then 0 else 1)) (held m' @ hs) (live (cx_dev s'))"
proof -
  obtain r1 m1 s1 where i: "activate_inner Y T m blob secret s = (r1, m1, s1)" by (metis prod_cases3)
  let ?n = "n + (if is_ok r1 then 0 else 1)"
  have o1: "owned B ?n (held_state (ms_ak_state m1) @ held_state (ms_ek_state m1) @ hs) (live (cx_dev s1))"
    using activate_inner_owned [OF assms(1) i assms(3)] by (simp add: held_def)
  obtain x ak s2 where a: "save_if_needed T rm (ms_ak_state m1) s1 = (x, ak, s2)" by (metis prod_cases3)
  obtain y ek s3 where e: "save_if_needed T rm (ms_ek_state m1) s2 = (y, ek, s3)" by (metis prod_cases3)
  note o2 = owned_mset [OF save_owned [OF assms(1) a o1] swap_held]
  note o3 = owned_mset [OF save_owned [OF assms(1) e o2] swap_held]
  from assms(2) i a e o1 o3 show ?thesis
    by (cases "r1 = TPanic") (auto simp: mgr_activate_def held_def)
qed

lemma mgr_quote_owned:
  assumes "accounts T live" "mgr_quote Y T rm m nonce indices s = (r, m', s')" "owned B n (held m @ hs) (live (cx_dev s))"
  shows "owned B n (held m' @ hs) (live (cx_dev s'))"
proof -
  obtain r1 ak s1 where l: "ensure_loaded T (ms_ak_state m) s = (r1, ak, s1)" by (metis prod_cases3)
  have o1: "owned B n (held_state ak @ held_state (ms_ek_state m) @ hs) (live (cx_dev s1))"
    using ensure_loaded_owned [OF assms(1) l] assms(3) by (simp add: held_def)
  obtain r2 s2 where q: "quote_inner Y T m nonce indices s = (r2, m\<lparr>ms_ak_state := ak\<rparr>, s2)"
    and same: "live (cx_dev s2) = live (cx_dev s1)"
  proof (cases r1)
    case (TOk h)
    obtain r2 s2 where "quote_with Y T h nonce indices s1 = (r2, s2)" by fastforce
    then show ?thesis using that l TOk quote_with_leaves [OF assms(1), of Y h nonce indices]
      unfolding leaves_def by (simp add: quote_inner_def quote_loaded_eq) (metis snd_conv)
  qed (use that l in \<open>auto simp: quote_inner_def quote_loaded_eq\<close>)
  obtain x ak' s3 where a: "save_if_needed T rm ak s2 = (x, ak', s3)" by (metis prod_cases3)
  note o2 = save_owned [OF assms(1) a, where hs = "held_state (ms_ek_state m) @ hs"]
  from assms(2) q a o1 o2 same show ?thesis
    by (cases "r2 = TPanic") (auto simp: mgr_quote_def held_def)
qed

lemma begin_attestation_frees:
  "accounts T live \<Longrightarrow> frees live held {} (Suc (Suc 0)) (begin_attestation Y T rm)"
  unfolding begin_attestation_def park_def tbind_assoc tbind_simps
  by (intro handle_intros) (auto simp: held_def)

lemma finish_owned:
  assumes "accounts T live" "finish_attestation T m s = (u, s')" "owned B n (held m @ hs) (live (cx_dev s))"
  shows "owned B n hs (live (cx_dev s'))"
proof -
  have flush: "flush_state T st s = (TOk (), s') \<Longrightarrow> owned B n (held_state st @ hs) (live (cx_dev s)) \<Longrightarrow>
      owned B n hs (live (cx_dev s'))" for st s s' hs
    by (cases st) (auto simp: flush_state_def tpure_def accounts_flush [OF assms(1)] dest: owned_flush)
  obtain s1 where e: "flush_state T (ms_ek_state m) s = (TOk (), s1)"
    by (cases "ms_ek_state m") (auto simp: flush_state_def tpure_def flush_def)
  then have "flush_state T (ms_ak_state m) s1 = (u, s')" using assms(2) by (simp add: finish_attestation_def tbind_def)
  then have a: "flush_state T (ms_ak_state m) s1 = (TOk (), s')"
    by (cases "ms_ak_state m") (auto simp: flush_state_def tpure_def flush_def)
  have "owned B n (held_state (ms_ek_state m) @ held_state (ms_ak_state m) @ hs) (live (cx_dev s))"
    using owned_mset [OF _ swap_held] assms(3) by (simp add: held_def)
  from flush [OF a flush [OF e this]] show ?thesis .
qed

lemma swap_sessions: "mset (held_all (xs @ m # ys)) = mset (held m @ held_all (xs @ ys))"
  by simp

lemma mgr_run_owned:
  assumes "accounts T live" "mgr_run Y T rm s0 s ms n"
  shows "owned (live (cx_dev s0)) n (held_all ms) (live (cx_dev s))"
  using assms(2)
proof (induction rule: mgr_run.induct)
  case start
  show ?case by (simp add: owned_start)
next
  case (begin_ok s ms n m s')
  then show ?case
    using owned_gain [OF begin_ok.IH] freesD [OF begin_attestation_frees [OF assms(1)] _ begin_ok.hyps(2)] by simp
next
  case (begin_err s ms n r s')
  then show ?case
    using owned_lose [OF begin_err.IH, of "Suc (Suc 0)"] freesD [OF begin_attestation_frees [OF assms(1)] _ begin_err.hyps(2)]
    by (simp add: numeral_eq_Suc)
next
  case (activate s xs m ys n blob secret r m' s')
  show ?case
    using mgr_activate_owned [OF assms(1) activate.hyps(2) owned_mset [OF activate.IH swap_sessions]]
    by (rule owned_mset) simp
next
  case (quote s xs m ys n nonce indices r m' s')
  show ?case
    using mgr_quote_owned [OF assms(1) quote.hyps(2) owned_mset [OF quote.IH swap_sessions]]
    by (rule owned_mset) simp
next
  case (seal s ms n plaintext indices r s')
  show ?case
    using owned_call [OF seal.IH freesD [OF seal_in_frees [OF assms(1)] empty_subsetI
          seal.hyps(2) [unfolded mgr_seal_eq]]] by (simp split: if_splits)
next
  case (unseal s ms n sealed r s')
  show ?case
    using owned_call [OF unseal.IH freesD [OF unseal_in_frees [OF assms(1)] empty_subsetI
          unseal.hyps(2) [unfolded mgr_unseal_eq]]] by (simp add: numeral_eq_Suc split: if_splits)
next
  case (read_cert s ms n c s')
  then show ?case using read_ek_cert_leaves [OF assms(1)] unfolding leaves_def mgr_read_ek_cert_eq by (metis snd_conv)
next
  case (finish s xs m ys n u s')
  show ?case using finish_owned [OF assms(1) finish.hyps(2) owned_mset [OF finish.IH swap_sessions]] .
qed

section \<open>Parked keys\<close>

text \<open>Quoting and activation never panic, so the manager always gets to save the keys.\<close>

definition no_panic :: "('d, 'a) tpm \<Rightarrow> bool" where
  "no_panic m \<longleftrightarrow> (\<forall>s. fst (m s) \<noteq> TPanic)"

lemma no_panic_steps:
  "no_panic (tpure a)" "no_panic (of_res x)" "no_panic (set_sessions ss)" "no_panic (flush T h)"
  "no_panic (dev err op)" "no_panic (dev_auth err op')"
  by (auto simp: no_panic_def tpure_def of_res_def set_sessions_def flush_def dev_auth_def dev_def
      split: sum.splits prod.splits)

lemma no_panic_tbind: "no_panic m \<Longrightarrow> (\<And>a. no_panic (f a)) \<Longrightarrow> no_panic (tbind m f)"
  unfolding no_panic_def tbind_def by (auto split: prod.splits tres.splits) (metis fst_conv)+

lemma no_panic_pair: "(\<And>a b. no_panic (f a b)) \<Longrightarrow> no_panic (case_prod f p)"
  by (cases p) simp

lemma quote_with_no_panic: "no_panic (quote_with Y T h nonce indices)"
  unfolding quote_with_def read_pcr_values_def by (intro no_panic_tbind no_panic_pair no_panic_steps)

lemma activate_with_no_panic: "no_panic (activate_with Y T ak ek blob secret)"
  unfolding activate_with_def by (intro no_panic_tbind no_panic_steps)

lemma no_panicD: "no_panic m \<Longrightarrow> m s \<noteq> (TPanic, s')"
  unfolding no_panic_def by (metis fst_conv)

lemma ensure_loaded_no_panic [simp]: "ensure_loaded T st s \<noteq> (TPanic, st', s')"
  using no_panicD [OF no_panic_steps(5)]
  by (auto simp: ensure_loaded_def split: key_state.splits prod.splits tres.splits)

lemma inner_no_panic [simp]:
  "activate_inner Y T m blob secret s \<noteq> (TPanic, m', s')"
  "quote_inner Y T m nonce indices s \<noteq> (TPanic, m', s')"
  by (auto simp: activate_inner_def activate_loaded_eq quote_inner_def quote_loaded_eq Let_def no_panicD [OF activate_with_no_panic]
      no_panicD [OF quote_with_no_panic] split: prod.splits tres.splits)

definition saves :: "('d, 'c) tss \<Rightarrow> bool" where
  "saves T \<longleftrightarrow> (\<forall>h d. \<exists>c d'. context_save T h d = (Inr c, d'))"

lemma save_parks:
  assumes "saves T" "save_if_needed T False st s = (x, st', s')"
  shows "held_state st' = []"
proof (cases st)
  case (Live h)
  obtain c d where "context_save T h (cx_dev s) = (Inr c, d)" using assms(1) unfolding saves_def by blast
  then show ?thesis using assms(2) Live by (auto simp: save_if_needed_def dev_def)
qed (use assms(2) in \<open>auto simp: save_if_needed_def\<close>)

lemma begin_parks: "begin_attestation Y T False s = (TOk m, s') \<Longrightarrow> held m = []"
  unfolding begin_attestation_def park_def tbind_assoc tbind_simps
  by (auto simp: tbind_TOk tpure_def held_def split: prod.splits)

lemma activate_parks:
  assumes "saves T" "mgr_activate Y T False m blob secret s = (r, m', s')"
  shows "held m' = []"
  using assms(2)
  by (auto simp: mgr_activate_def held_def split: prod.splits if_splits dest!: save_parks [OF assms(1)])

lemma quote_parks:
  assumes "saves T" "mgr_quote Y T False m nonce indices s = (r, m', s')" "held m = []"
  shows "held m' = []"
proof -
  obtain q m1 s1 where i: "quote_inner Y T m nonce indices s = (q, m1, s1)" by (metis prod_cases3)
  then have "ms_ek_state m1 = ms_ek_state m"
    by (auto simp: quote_inner_def quote_loaded_eq Let_def split: prod.splits tres.splits)
  then show ?thesis using assms(2,3) i
    by (auto simp: mgr_quote_def held_def split: prod.splits if_splits dest!: save_parks [OF assms(1)])
qed

lemma mgr_run_parked:
  assumes "saves T" "mgr_run Y T False s0 s ms n"
  shows "\<forall>m \<in> set ms. held m = []"
  using assms(2)
  by (induction rule: mgr_run.induct) (auto dest: begin_parks activate_parks [OF assms(1)] quote_parks [OF assms(1)])

section \<open>Properties\<close>

text \<open>C5. Every handle of a managed device is accounted for. After any interleaving of the
  manager's calls over any number of sessions, the loaded handles are those loaded before
  the manager started, the keys the open sessions hold (each held once), and lost handles,
  at most as many as the failed calls allow; so a manager whose sessions are finished and
  whose calls succeeded leaves the device as it found it.\<close>

theorem manager_accounts_for_handles:
  assumes "accounts T live" "mgr_run Y T rm s0 s ms n"
  shows "distinct (held_all ms) \<and> (\<exists>lost. finite lost \<and> card lost \<le> n \<and>
      lost \<inter> (live (cx_dev s0) \<union> set (held_all ms)) = {} \<and> live (cx_dev s0) \<inter> set (held_all ms) = {} \<and>
      live (cx_dev s) = live (cx_dev s0) \<union> set (held_all ms) \<union> lost) \<and>
    (ms = [] \<and> n = 0 \<longrightarrow> live (cx_dev s) = live (cx_dev s0))"
proof -
  have o: "owned (live (cx_dev s0)) n (held_all ms) (live (cx_dev s))" by (rule mgr_run_owned [OF assms])
  moreover from o have "ms = [] \<and> n = 0 \<Longrightarrow> live (cx_dev s) = live (cx_dev s0)" by (auto simp: owned_def)
  ultimately show ?thesis unfolding owned_def by blast
qed

lemma sim_managed:
  "\<exists>spki. begin_attestation plain_types (sim True) rm sim_context =
     (TOk \<lparr>ms_ek_state = if rm then Live 6 else Saved 6, ms_ak_state = if rm then Live 7 else Saved 7,
          ms_ak_pub = [0], ms_ek_spki = spki\<rparr>,
      sim_context\<lparr>cx_dev := if rm then [7, 6, 5] else [5]\<rparr>)"
proof -
  obtain spki where "rsa_public_to_spki (replicate 256 0) 65537 = Returns spki"
    by (rule spki_returns [of "replicate 256 0" 65537]) auto
  then show ?thesis
    by (simp add: begin_attestation_def park_def ek_template_def ak_template_def of_out_def sim_run)
qed

theorem manager_accounts_for_handles_witness:
  "\<exists>m s s'. mgr_run plain_types (sim True) True sim_context s [m] 0 \<and> set (cx_dev s) = {5, 6, 7} \<and>
     mgr_run plain_types (sim True) True sim_context s' [] 0 \<and> set (cx_dev s') = {5}"
proof -
  obtain m s where b: "begin_attestation plain_types (sim True) True sim_context = (TOk m, s)" "held m = [7, 6]"
    using sim_managed [of True] by (auto simp: held_def)
  have r: "mgr_run plain_types (sim True) True sim_context s [m] 0"
    by (rule mgr_run.begin_ok [OF mgr_run.start b(1)])
  obtain u s' where f: "finish_attestation (sim True) m s = (u, s')" by fastforce
  have r': "mgr_run plain_types (sim True) True sim_context s' [] 0"
    using mgr_run.finish [of _ _ _ _ s "[]" m "[]" 0] r f by simp
  have "set (cx_dev s) = {5, 6, 7}"
    using manager_accounts_for_handles [OF sim_accounts r] b(2) by (auto simp: sim_context_def)
  moreover have "set (cx_dev s') = {5}"
    using manager_accounts_for_handles [OF sim_accounts r'] by (simp add: sim_context_def)
  ultimately show ?thesis using r r' by blast
qed

text \<open>Without a resource manager (swtpm, mssim) open sessions occupy no slot of the device
  between calls: if the device can save contexts, the keys of every open session are parked
  after every call, failed ones included, and what is loaded beyond the start was lost by
  failed calls. This is what lets a seal or unseal run while a session is open.\<close>

theorem open_sessions_are_parked:
  assumes "accounts T live" "saves T" "mgr_run Y T False s0 s ms n"
  shows "held_all ms = [] \<and>
    (\<exists>lost. finite lost \<and> card lost \<le> n \<and> lost \<inter> live (cx_dev s0) = {} \<and> live (cx_dev s) = live (cx_dev s0) \<union> lost)"
proof -
  have p: "held_all ms = []" using mgr_run_parked [OF assms(2,3)] by (simp add: held_all_def)
  with mgr_run_owned [OF assms(1,3)] show ?thesis by (auto simp: owned_def)
qed

lemma sim_saves: "saves (sim grant)"
  by (simp add: saves_def sim_def)

theorem open_sessions_are_parked_witness:
  "\<exists>m s. mgr_run plain_types (sim True) False sim_context s [m] 0 \<and> held_all [m] = [] \<and> set (cx_dev s) = {5}"
proof -
  obtain m s where b: "begin_attestation plain_types (sim True) False sim_context = (TOk m, s)"
    using sim_managed [of False] by auto
  obtain q m' s' where q: "mgr_quote plain_types (sim True) False m [1] [0] s = (q, m', s')" by (metis prod_cases3)
  have r: "mgr_run plain_types (sim True) False sim_context s' [m'] 0"
    using mgr_run.quote [of _ _ _ _ s "[]" m "[]" 0, OF _ q] mgr_run.begin_ok [OF mgr_run.start b] by simp
  from open_sessions_are_parked [OF sim_accounts sim_saves r] r show ?thesis
    by (intro exI [of _ m'] exI [of _ s']) (auto simp: sim_context_def)
qed

end
