(* ===== verification/Attest_Flow.thy ===== *)
theory Attest_Flow
  imports Tpm_Handles
begin

text \<open>
  The two ends of a quote together: the node asks its device for a quote and reads the
  registers (\<open>attestation/tpm.rs\<close>), the server checks the result (\<open>attestation/quote.rs\<close>,
  \<open>attestation.rs\<close>). The device's own part, what it signs and what it returns for a PCR
  read, is the contract \<open>attests\<close>, stated against the layout of \<open>TPMS_ATTEST\<close>.
\<close>

section \<open>Device contract\<close>

text \<open>A selection as a set bit per register; a quote covers the selected registers in ascending
  order, a PCR read returns the first eight of them.\<close>

definition bitmap_of :: "bytes \<Rightarrow> nat list \<Rightarrow> bool" where
  "bitmap_of bm sel \<longleftrightarrow> length bm = 3 \<and> (\<forall>i < 24. bit (bm ! (i div 8)) (i mod 8) \<longleftrightarrow> i \<in> set sel)"

definition ascending :: "nat list \<Rightarrow> nat list" where
  "ascending sel = sorted_list_of_set (set sel)"

definition quotes :: "(hash_kind \<Rightarrow> bytes \<Rightarrow> bytes) \<Rightarrow> ('d, 'c) tss \<Rightarrow> ('d \<Rightarrow> nat \<Rightarrow> bytes) \<Rightarrow> bool" where
  "quotes sha2 T reg \<longleftrightarrow> (\<forall>ak extra sel d q sg d'. tss_quote T ak extra sel d = (Inr (Inr q, sg), d') \<longrightarrow>
     reg d' = reg d \<and>
     (\<exists>signer clock firmware bm. small signer \<and> length clock = 17 \<and> length firmware = 8 \<and> bitmap_of bm sel \<and>
        q = attest_bytes signer extra clock firmware TPM_ALG_SHA256 bm
              (sha2 Sha256 (concat (map (reg d) (ascending sel))))))"

definition reads :: "('d, 'c) tss \<Rightarrow> ('d \<Rightarrow> nat \<Rightarrow> bytes) \<Rightarrow> bool" where
  "reads T reg \<longleftrightarrow> (\<forall>sel d ds d'. pcr_read T sel d = (Inr ds, d') \<longrightarrow> ds = take 8 (map (reg d) (ascending sel)))"

text \<open>Registers and digests of the SHA-256 bank have 32 bytes.\<close>

definition attests :: "(hash_kind \<Rightarrow> bytes \<Rightarrow> bytes) \<Rightarrow> ('d, 'c) tss \<Rightarrow> ('d \<Rightarrow> nat \<Rightarrow> bytes) \<Rightarrow> bool" where
  "attests sha2 T reg \<longleftrightarrow> quotes sha2 T reg \<and> reads T reg \<and>
     (\<forall>d i. length (reg d i) = 32) \<and> (\<forall>x. length (sha2 Sha256 x) = 32)"

section \<open>What the node submits\<close>

definition register :: "(nat \<Rightarrow> bytes) \<Rightarrow> u8 \<Rightarrow> pcr_value" where
  "register reg i = \<lparr>pcr_index = i, pcr_hash_algorithm = 0x000B, pcr_digest = reg (unat i)\<rparr>"

lemma pcr_selection_iff:
  "pcr_selection Y is = Inr sel \<longleftrightarrow> list_all (\<lambda>i. unat i < 24) is \<and> sel = map unat is \<and> selection_build Y sel = None"
  by (auto simp: pcr_selection_def rbind_eq_Inr slots_from_indices_iff)

lemma label_digests_map: "label_digests is (map (\<lambda>i. reg (unat i)) is) = map (register reg) is"
  by (induction "is") (simp_all add: register_def)

lemma unat_strict: "sorted_wrt (<) is \<Longrightarrow> sorted_wrt (<) (map unat (is :: u8 list))"
  unfolding sorted_wrt_map by (erule sorted_wrt_mono_rel [rotated]) (simp add: word_less_nat_alt)

lemma ascending_sorted: "sorted_wrt (<) is \<Longrightarrow> ascending (map unat is) = map unat (is :: u8 list)"
  unfolding ascending_def by (metis unat_strict sorted_list_of_set.idem_if_sorted_distinct strict_sorted_iff)

lemma read_pcr_values_labels:
  assumes "reads T reg" "read_pcr_values Y T is s = (TOk vs, s')"
  shows "vs = label_digests is (take 8 (map (reg (cx_dev s)) (ascending (map unat is))))"
  using assms by (auto simp: read_pcr_values_def tbind_TOk pcr_selection_iff dev_TOk tpure_def reads_def)

lemma read_pcr_values_ascending:
  assumes "reads T reg" "read_pcr_values Y T is s = (TOk vs, s')" "sorted_wrt (<) is" "length is \<le> 8"
  shows "vs = map (register (reg (cx_dev s))) is"
  using read_pcr_values_labels [OF assms(1,2)] label_digests_map [of "is" "reg (cx_dev s)"] assms(4)
  by (simp add: ascending_sorted [OF assms(3)] comp_def)

section \<open>What the server finds\<close>

lemma find_register: "i \<in> set is \<Longrightarrow> List.find (is_pcr i 0x000B) (map (register reg) is) = Some (register reg i)"
  by (induction "is") (auto simp: is_pcr_def register_def)

lemma find_same_register:
  "List.find (same_register e) (map (register reg) is) =
     (if pcr_hash_algorithm e = 0x000B \<and> pcr_index e \<in> set is then Some (register reg (pcr_index e)) else None)"
  by (induction "is") (auto simp: same_register_def register_def)

lemma register_ok_map:
  "register_ok (map (register reg) is) e \<longleftrightarrow>
     pcr_hash_algorithm e = 0x000B \<and> pcr_index e \<in> set is \<and> pcr_digest e = reg (unat (pcr_index e))"
  by (auto simp: register_ok_def find_same_register) (simp_all add: register_def)

lemma selected_of_bitmap:
  assumes "bitmap_of bm (map unat is)" "sorted_wrt (<) is" "list_all (\<lambda>i. unat i < 24) is"
  shows "selected_indices bm = (is :: u8 list)"
proof -
  let ?f = "filter (\<lambda>i. i \<in> unat ` set is) [0..<24]"
  have "filter (\<lambda>i. bit (bm ! (i div 8)) (i mod 8)) [0..<24] = ?f"
    using assms(1) by (intro filter_cong) (auto simp: bitmap_of_def)
  moreover have "?f = map unat is"
  proof (rule sorted_distinct_set_unique)
    show "sorted (map unat is)" "distinct (map unat is)"
      using unat_strict [OF assms(2)] by (simp_all add: strict_sorted_iff)
    show "set ?f = set (map unat is)" using assms(3) by (auto simp: list_all_iff)
  qed (simp_all add: sorted_wrt_filter)
  moreover have "length bm = 3" using assms(1) by (simp add: bitmap_of_def)
  ultimately show ?thesis by (simp add: selected_indices_upt comp_def)
qed

lemma submitted_registers:
  "map (submitted_digest (map (register reg) is) TPM_ALG_SHA256) is = map Some (map (\<lambda>i. reg (unat i)) is)"
  by (simp add: submitted_digest_def TPM_ALG_SHA256_def find_register) (simp add: register_def)

lemma quote_with_run:
  assumes "quote_with Y T ak nonce is s = (TOk out, s')"
  obtains q sg d s1 where "list_all (\<lambda>i. unat i < 24) is" "qo_quote out = q"
    "tss_quote T ak nonce (map unat is) (cx_dev s) = (Inr (Inr q, sg), d)"
    "read_pcr_values Y T is (s\<lparr>cx_dev := d\<rparr>) = (TOk (qo_pcr_values out), s1)"
    "marshal_signature sg = Inr (qo_signature out)"
  using assms
  by (auto simp: quote_with_def tbind_TOk pcr_selection_iff dev_TOk tpure_def map_err_Inr)

lemma honest_quote_binds:
  assumes att: "attests sha2 T reg" and order: "sorted_wrt (<) is" "length is \<le> 8" and nonce: "small nonce"
    and run: "quote_with Y T ak nonce is s = (TOk out, s')"
  shows "qo_pcr_values out = map (register (reg (cx_dev s))) is"
    "verify_pcr_binding sha2 (qo_quote out) (qo_pcr_values out) = Inr ()"
    "\<exists>signer clock firmware bm dg. qo_quote out = attest_bytes signer nonce clock firmware TPM_ALG_SHA256 bm dg"
proof -
  obtain q sg d s1 where q: "list_all (\<lambda>i. unat i < 24) is" "qo_quote out = q"
      "tss_quote T ak nonce (map unat is) (cx_dev s) = (Inr (Inr q, sg), d)"
      "read_pcr_values Y T is (s\<lparr>cx_dev := d\<rparr>) = (TOk (qo_pcr_values out), s1)"
    using run by (rule quote_with_run)
  obtain signer clock firmware bm where a: "reg d = reg (cx_dev s)" "small signer" "length clock = 17"
      "length firmware = 8" "bitmap_of bm (map unat is)"
      "q = attest_bytes signer nonce clock firmware TPM_ALG_SHA256 bm
        (sha2 Sha256 (concat (map (reg (cx_dev s)) (ascending (map unat is)))))" (is "q = attest_bytes _ _ _ _ _ _ ?dg")
    using att q(3) unfolding attests_def quotes_def by metis
  show v: "qo_pcr_values out = map (register (reg (cx_dev s))) is"
    using read_pcr_values_ascending [of T reg, OF _ q(4) order] att a(1) by (simp add: attests_def)
  show "\<exists>signer clock firmware bm dg. qo_quote out = attest_bytes signer nonce clock firmware TPM_ALG_SHA256 bm dg"
    using a(6) q(2) by blast
  have "read_quote_info q = Inr (TPM_ALG_SHA256, bm, ?dg)"
    unfolding read_quote_info_iff using a att nonce
    by (intro exI [of _ signer] exI [of _ nonce] exI [of _ clock] exI [of _ firmware] exI [of _ "[]"])
      (simp add: bitmap_of_def small_def attests_def)
  moreover have "concat_selected (qo_pcr_values out) TPM_ALG_SHA256 32 (selected_indices bm) =
      Inr (concat (map (\<lambda>i. reg (cx_dev s) (unat i)) is))"
    unfolding concat_selected_iff v selected_of_bitmap [OF a(5) order(1) q(1)] submitted_registers
    using att by (intro exI [of _ "map (\<lambda>i. reg (cx_dev s) (unat i)) is"]) (simp add: attests_def)
  ultimately show "verify_pcr_binding sha2 (qo_quote out) (qo_pcr_values out) = Inr ()"
    unfolding verify_pcr_binding_iff q(2)
    by (fastforce simp: hash_of_alg_def ascending_sorted [OF order(1)] comp_def)
qed

section \<open>A device that attests\<close>

text \<open>For concrete runs: the simulated device with registers that hold their own index, and a
  hash that keeps the first 32 bytes.\<close>

definition bitmap_byte :: "nat list \<Rightarrow> nat \<Rightarrow> u8" where
  "bitmap_byte sel k = foldr (\<lambda>i w. if i div 8 = k then Bit_Operations.set_bit (i mod 8) w else w) sel 0"

definition sim_bitmap :: "nat list \<Rightarrow> bytes" where
  "sim_bitmap sel = map (bitmap_byte sel) [0..<3]"

definition sim_reg :: "'d \<Rightarrow> nat \<Rightarrow> bytes" where
  "sim_reg d i = replicate 32 (word_of_nat i)"

definition sim_hash :: "hash_kind \<Rightarrow> bytes \<Rightarrow> bytes" where
  "sim_hash kind x = take 32 (x @ replicate 32 0)"

definition attesting_sim :: "(handle list, handle) tss" where
  "attesting_sim = (sim True)\<lparr>
     tss_quote := (\<lambda>_ extra sel d. (Inr (Inr (attest_bytes [] extra (replicate 17 0) (replicate 8 0) TPM_ALG_SHA256
         (sim_bitmap sel) (sim_hash Sha256 (concat (map (sim_reg d) (ascending sel))))), EcDsa [1] [2]), d)),
     pcr_read := (\<lambda>sel d. (Inr (take 8 (map (sim_reg d) (ascending sel))), d))\<rparr>"

lemma bit_bitmap_byte: "n < 8 \<Longrightarrow> bit (bitmap_byte sel k) n \<longleftrightarrow> (\<exists>i \<in> set sel. i div 8 = k \<and> i mod 8 = n)"
  unfolding bitmap_byte_def by (induction sel) (auto simp: bit_simps)

lemma bitmap_of_bytes: "bitmap_of (sim_bitmap sel) sel"
  unfolding bitmap_of_def sim_bitmap_def
proof (intro conjI allI impI)
  fix i :: nat assume "i < 24"
  then have "i div 8 < 3" by (simp add: less_mult_imp_div_less)
  then show "bit (map (bitmap_byte sel) [0..<3] ! (i div 8)) (i mod 8) = (i \<in> set sel)"
    by (auto simp: bit_bitmap_byte nth_map) (metis div_mult_mod_eq)
qed simp

lemma sim_attests: "attests sim_hash attesting_sim sim_reg"
proof -
  have "quotes sim_hash attesting_sim sim_reg"
    unfolding quotes_def
  proof (intro allI impI conjI)
    fix ak extra sel d q sg d'
    assume "tss_quote attesting_sim ak extra sel d = (Inr (Inr q, sg), d')"
    then have "q = attest_bytes [] extra (replicate 17 0) (replicate 8 0) TPM_ALG_SHA256 (sim_bitmap sel)
        (sim_hash Sha256 (concat (map (sim_reg d) (ascending sel))))" by (auto simp: attesting_sim_def)
    moreover have "small []" "length (replicate 17 0) = 17" "length (replicate 8 0) = 8" by (simp_all add: small_def)
    ultimately show "\<exists>signer clock firmware bm. small signer \<and> length clock = 17 \<and> length firmware = 8 \<and>
        bitmap_of bm sel \<and> q = attest_bytes signer extra clock firmware TPM_ALG_SHA256 bm
          (sim_hash Sha256 (concat (map (sim_reg d) (ascending sel))))"
      using bitmap_of_bytes by blast
  qed (simp add: sim_reg_def fun_eq_iff)
  moreover have "reads attesting_sim sim_reg" by (simp add: reads_def attesting_sim_def)
  moreover have "length (sim_hash Sha256 x) = 32" for x by (simp add: sim_hash_def min_def)
  ultimately show ?thesis by (simp add: attests_def sim_reg_def)
qed

lemma sim_quote: "\<exists>out s'. quote_with plain_types attesting_sim 6 [9] [0, 7] sim_context = (TOk out, s')"
  by (simp add: quote_with_def read_pcr_values_def attesting_sim_def sim_run)

lemma sim_read: "\<exists>vs s'. read_pcr_values plain_types attesting_sim [7, 0] sim_context = (TOk vs, s')"
  by (simp add: read_pcr_values_def attesting_sim_def sim_run)

end
