(* ===== verification/Tpm_Secrets.thy ===== *)
theory Tpm_Secrets
  imports Attest_Flow
begin

text \<open>
  Secrets that pass through the device: sealing to PCRs and back on the node, and the
  credential the server makes for a node's keys and the node activates
  (\<open>attestation/tpm.rs\<close>, \<open>attestation.rs\<close>). What the device does with objects, policy sessions
  and credentials is stated as contracts over views of its state.
\<close>

section \<open>Sealing: device contract\<close>

text \<open>
  Views of the device: its registers, the policy digest of a session, the loaded object of a
  handle as its authorization policy and its data, the digest that \<open>PolicyPCR\<close> makes of the
  session's old digest, the selected registers and their values, and what a private and a
  public part hold together.
\<close>

record 'd seal_view =
  sv_reg :: "'d \<Rightarrow> nat \<Rightarrow> bytes"
  sv_digest :: "'d \<Rightarrow> handle \<Rightarrow> bytes"
  sv_object :: "'d \<Rightarrow> handle \<Rightarrow> (bytes \<times> bytes) option"
  sv_policy :: "bytes \<Rightarrow> nat list \<Rightarrow> bytes list \<Rightarrow> bytes"
  sv_contents :: "bytes \<Rightarrow> tpm_public \<Rightarrow> (bytes \<times> bytes) option"

fun auth_policy_of :: "tpm_public \<Rightarrow> bytes" where
  "auth_policy_of (PublicRsa _ _ pol _ _ _ _ _) = pol"
| "auth_policy_of (PublicEcc _ _ pol _ _ _ _ _) = pol"
| "auth_policy_of (PublicKeyedHash _ _ pol _ _) = pol"
| "auth_policy_of PublicOther = []"

text \<open>\<open>PolicyPCR\<close> extends a session's digest by the selection and the current values of the
  selected registers, in ascending order as in every selection; \<open>Create\<close> packs data with the template's policy, \<open>Load\<close> unpacks it, \<open>Unseal\<close> hands it out to a
  session whose digest is the object's policy. Marshaling keeps what an object holds.\<close>

definition policy_law :: "('d, 'c) tss \<Rightarrow> 'd seal_view \<Rightarrow> bool" where
  "policy_law T v \<longleftrightarrow>
     (\<forall>h sel d d'. policy_pcr T h sel d = (Inr (), d') \<longrightarrow>
        sv_digest v d' h = sv_policy v (sv_digest v d h) (ascending sel) (map (sv_reg v d) (ascending sel)) \<and>
        sv_object v d' = sv_object v d) \<and>
     (\<forall>h d g d'. policy_get_digest T h d = (Inr g, d') \<longrightarrow> g = sv_digest v d h)"

definition object_law :: "('d, 'c) tss \<Rightarrow> 'd seal_view \<Rightarrow> bool" where
  "object_law T v \<longleftrightarrow>
     (\<forall>h p x d a q d'. tss_create T h p x d = (Inr (a, q), d') \<longrightarrow> sv_contents v a q = Some (auth_policy_of p, x)) \<and>
     (\<forall>p q b. marshall_public T p = Inr b \<and> unmarshall_public T b = Inr q \<longrightarrow>
        (\<forall>a. sv_contents v a q = sv_contents v a p)) \<and>
     (\<forall>h a p d k d'. tss_load T h a p d = (Inr k, d') \<longrightarrow>
        sv_object v d' k = sv_contents v a p \<and> sv_reg v d' = sv_reg v d) \<and>
     (\<forall>ps h d x d'. tss_unseal T (Some (AuthSession ps), None, None) h d = (Inr x, d') \<longrightarrow>
        sv_object v d h = Some (sv_digest v d ps, x))"

text \<open>Starting a session and deriving a primary key leave registers and loaded data alone; the
  policy digest of a new session is all zero, 32 bytes for the SHA-256 sessions of the crate.\<close>

definition frame_law :: "('d, 'c) tss \<Rightarrow> 'd seal_view \<Rightarrow> bool" where
  "frame_law T v \<longleftrightarrow>
     (\<forall>ty d r d'. start_auth_session T ty d = (r, d') \<longrightarrow> sv_reg v d' = sv_reg v d \<and> sv_object v d' = sv_object v d) \<and>
     (\<forall>ty d h d'. start_auth_session T ty d = (Inr (Some h), d') \<longrightarrow> sv_digest v d' h = replicate 32 0) \<and>
     (\<forall>hi p d r d'. create_primary T hi p d = (r, d') \<longrightarrow> sv_reg v d' = sv_reg v d)"

definition seals :: "('d, 'c) tss \<Rightarrow> 'd seal_view \<Rightarrow> bool" where
  "seals T v \<longleftrightarrow> policy_law T v \<and> object_law T v \<and> frame_law T v"

text \<open>The policy digest of a PCR policy alone, for the registers of a state.\<close>

definition session_policy :: "'d seal_view \<Rightarrow> nat list \<Rightarrow> 'd \<Rightarrow> bytes" where
  "session_policy v sel d = sv_policy v (replicate 32 0) (ascending sel) (map (sv_reg v d) (ascending sel))"

lemma create_srk_reg:
  "frame_law T v \<Longrightarrow> create_srk Y T s = (TOk h, s') \<Longrightarrow> sv_reg v (cx_dev s') = sv_reg v (cx_dev s)"
  by (auto simp: create_srk_def tbind_TOk dev_TOk tpure_def frame_law_def split: prod.splits)

lemma ok_or_Inr [simp]: "ok_or e x = Inr a \<longleftrightarrow> x = Some a"
  by (simp add: ok_or_def split: option.splits)

lemma policy_digest_value:
  assumes "seals T v" "compute_pcr_policy_digest T sel s = (TOk g, s')"
  shows "g = session_policy v sel (cx_dev s)"
proof -
  obtain h d1 d2 d3 where "start_auth_session T Trial (cx_dev s) = (Inr (Some h), d1)"
      "policy_pcr T h sel d1 = (Inr (), d2)" "policy_get_digest T h d2 = (Inr g, d3)"
    using assms(2) by (auto simp: compute_pcr_policy_digest_def tbind_TOk dev_TOk tpure_def)
  moreover from this have "sv_reg v d1 = sv_reg v (cx_dev s)" "sv_digest v d1 h = replicate 32 0"
    using assms(1) unfolding seals_def frame_law_def by blast+
  ultimately show ?thesis using assms(1) unfolding seals_def policy_law_def session_policy_def by metis
qed

lemma sealed_template: "sealed_object_template Y pol data = Inr p \<Longrightarrow> auth_policy_of p = pol"
  by (auto simp: sealed_object_template_def Let_def rbind_eq_Inr)

lemma created:
  "seals T v \<Longrightarrow> tss_create T h p x d = (Inr (a, q), d') \<Longrightarrow> sv_contents v a q = Some (auth_policy_of p, x)"
  unfolding seals_def object_law_def by (elim conjE) metis

lemma seal_packs:
  assumes "seals T v" "seal_in Y T plaintext is s = (TOk blob, s')"
  shows "\<exists>p. marshall_public T p = Inr (sb_public blob) \<and> sb_pcr_indices blob = is \<and>
    sv_contents v (sb_private blob) p = Some (session_policy v (map unat is) (cx_dev s), plaintext)"
proof -
  obtain g s1 srk s2 template a p d2 where
      "compute_pcr_policy_digest T (map unat is) s = (TOk g, s1)" "create_srk Y T s1 = (TOk srk, s2)"
      and t: "sealed_object_template Y g plaintext = Inr template"
      and c: "tss_create T srk template plaintext (cx_dev s2) = (Inr (a, p), d2)"
      and b: "marshall_public T p = Inr (sb_public blob)" "sb_private blob = a" "sb_pcr_indices blob = is"
    using assms(2) by (auto simp: seal_in_def tbind_TOk pcr_selection_iff dev_TOk tpure_def map_err_Inr)
  then have "g = session_policy v (map unat is) (cx_dev s)"
    using policy_digest_value [OF assms(1)] by blast
  moreover have "sv_contents v a p = Some (auth_policy_of template, plaintext)"
    by (rule created [OF assms(1) c])
  ultimately show ?thesis using b sealed_template [OF t] by auto
qed

lemma unseal_opens:
  assumes "seals T v" "unseal_in Y T blob s = (TOk x, s')"
  shows "\<exists>q. unmarshall_public T (sb_public blob) = Inr q \<and> sv_contents v (sb_private blob) q =
    Some (session_policy v (map unat (sb_pcr_indices blob)) (cx_dev s), x)"
proof -
  obtain srk s1 q obj d2 ps d3 d4 d5 where run: "create_srk Y T s = (TOk srk, s1)"
      "unmarshall_public T (sb_public blob) = Inr q"
      "tss_load T srk (sb_private blob) q (cx_dev s1) = (Inr obj, d2)"
      "start_auth_session T Policy d2 = (Inr (Some ps), d3)"
      "policy_pcr T ps (map unat (sb_pcr_indices blob)) d3 = (Inr (), d4)"
      "tss_unseal T (Some (AuthSession ps), None, None) obj d4 = (Inr x, d5)"
    using assms(2) by (auto simp: unseal_in_def tbind_TOk pcr_selection_iff dev_TOk dev_auth_def tpure_def map_err_Inr)
  have laws: "policy_law T v" "object_law T v" "frame_law T v" using assms(1) by (auto simp: seals_def)
  have o: "sv_object v d4 obj = Some (sv_digest v d4 ps, x)" using laws(2) run(6) unfolding object_law_def by blast
  let ?sel = "ascending (map unat (sb_pcr_indices blob))"
  have p: "sv_digest v d4 ps = sv_policy v (sv_digest v d3 ps) ?sel (map (sv_reg v d3) ?sel)" "sv_object v d4 = sv_object v d3" using laws(1) run(5) unfolding policy_law_def by blast+
  have f: "sv_reg v d3 = sv_reg v d2" "sv_object v d3 = sv_object v d2" "sv_digest v d3 ps = replicate 32 0" using laws(3) run(4) unfolding frame_law_def by blast+
  have l: "sv_object v d2 obj = sv_contents v (sb_private blob) q" "sv_reg v d2 = sv_reg v (cx_dev s1)"
    using laws(2) run(3) unfolding object_law_def by blast+
  show ?thesis using o p f l create_srk_reg [OF laws(3) run(1)] run(2) by (simp add: session_policy_def)
qed

section \<open>A device that seals\<close>

record seal_dev =
  sd_live :: "handle list"
  sd_regs :: "nat \<Rightarrow> bytes"
  sd_digests :: "handle \<Rightarrow> bytes"
  sd_objects :: "handle \<Rightarrow> (bytes \<times> bytes) option"

definition sd_add :: "(handle \<Rightarrow> 'r) \<Rightarrow> seal_dev \<Rightarrow> (string + 'r) \<times> seal_dev" where
  "sd_add res d = (Inr (res (fresh (sd_live d))), d\<lparr>sd_live := fresh (sd_live d) # sd_live d\<rparr>)"

text \<open>Private parts hold the data in the clear, public parts are their policy; the policy digest
  is the concatenation of old digest, selection and registers.\<close>

definition sd_policy :: "bytes \<Rightarrow> nat list \<Rightarrow> bytes list \<Rightarrow> bytes" where
  "sd_policy old sel values = old @ map word_of_nat sel @ concat values"

definition sd_start :: "seal_dev \<Rightarrow> (string + handle option) \<times> seal_dev" where
  "sd_start d = (let h = fresh (sd_live d)
     in (Inr (Some h), d\<lparr>sd_live := h # sd_live d, sd_digests := (sd_digests d)(h := replicate 32 0)\<rparr>))"

definition sealing_view :: "seal_dev seal_view" where
  "sealing_view = \<lparr>sv_reg = sd_regs, sv_digest = sd_digests, sv_object = sd_objects, sv_policy = sd_policy,
     sv_contents = (\<lambda>a p. Some (auth_policy_of p, a))\<rparr>"

definition sealing_tss :: "(seal_dev, handle) tss" where
  "sealing_tss =
    \<lparr>ctx_new = (\<lambda>_. Inl []), load_external_public = (\<lambda>_ _. sd_add (\<lambda>h. h)),
     tss_make_credential = (\<lambda>_ cred name d. (Inr (name, cred), d)), create_primary = (\<lambda>_ p. sd_add (\<lambda>h. (h, p))),
     marshall_public = (\<lambda>p. Inr (auth_policy_of p)),
     unmarshall_public = (\<lambda>b. Inr (PublicKeyedHash Sha256 no_attrs b KeyedHashNull [])),
     get_capability = (\<lambda>i d. (Inr (Handles []), d)), nv_index_new = (\<lambda>_. None),
     tr_from_tpm_public = (\<lambda>_ d. (Inr 0, d)), nv_read = (\<lambda>_ _ _ d. (Inr [], d)),
     start_auth_session = (\<lambda>_. sd_start), to_policy_session = (\<lambda>_. None), policy_secret = (\<lambda>_ d. (Inr (), d)),
     activate_credential = (\<lambda>_ _ _ _ enc d. (Inr enc, d)),
     tss_quote = (\<lambda>_ _ _ d. (Inl [], d)), pcr_read = (\<lambda>_ d. (Inl [], d)),
     policy_pcr = (\<lambda>h sel d. (Inr (), d\<lparr>sd_digests := (sd_digests d)
        (h := sd_policy (sd_digests d h) (ascending sel) (map (sd_regs d) (ascending sel)))\<rparr>)),
     policy_get_digest = (\<lambda>h d. (Inr (sd_digests d h), d)),
     tss_create = (\<lambda>_ p x d. (Inr (x, p), d)),
     tss_load = (\<lambda>_ a p d. let h = fresh (sd_live d) in
        (Inr h, d\<lparr>sd_live := h # sd_live d, sd_objects := (sd_objects d)(h \<mapsto> (auth_policy_of p, a))\<rparr>)),
     tss_unseal = (\<lambda>ss h d. (case (ss, sd_objects d h) of
          ((Some (AuthSession ps), None, None), Some (pol, x)) \<Rightarrow>
            if sd_digests d ps = pol then Inr x else Inl ''policy check failed''
        | _ \<Rightarrow> Inl ''authorization failed'', d)),
     context_save = (\<lambda>h d. (Inr h, d)), context_load = (\<lambda>_. sd_add (\<lambda>h. h)),
     flush_context = (\<lambda>h d. (Inr (), d\<lparr>sd_live := removeAll h (sd_live d)\<rparr>))\<rparr>"

lemma sealing_seals: "seals sealing_tss sealing_view"
proof -
  have "policy_law sealing_tss sealing_view" by (auto simp: policy_law_def sealing_tss_def sealing_view_def)
  moreover have "object_law sealing_tss sealing_view"
    by (auto simp: object_law_def sealing_tss_def sealing_view_def Let_def split: if_splits option.splits)
  moreover have "frame_law sealing_tss sealing_view"
    by (auto simp: frame_law_def sealing_tss_def sealing_view_def sd_add_def sd_start_def Let_def)
  ultimately show ?thesis by (simp add: seals_def)
qed

definition sealing_context :: "u8 \<Rightarrow> seal_dev tss_context" where
  "sealing_context w = \<lparr>cx_dev = \<lparr>sd_live = [], sd_regs = (\<lambda>_. [w]), sd_digests = (\<lambda>_. []), sd_objects = (\<lambda>_. None)\<rparr>,
     cx_sessions = NO_SESSIONS\<rparr>"

lemmas sealing_run = tbind_def tpure_def of_res_def dev_def dev_auth_def flush_def set_sessions_def conv_def ok_or_def
  esapi_def rbind_def pcr_selection_def pcr_slot_from_index_def create_srk_def srk_template_def plain_types_def
  sealing_tss_def sd_add_def sd_start_def sd_policy_def fresh_def NO_SESSIONS_def sealing_context_def compute_pcr_policy_digest_def
  sealed_object_template_def Let_def

lemma sealing_seal:
  "\<exists>s1. seal_in plain_types sealing_tss [42] [7] (sealing_context w) =
     (TOk \<lparr>sb_private = [42], sb_public = replicate 32 0 @ [7, w], sb_pcr_indices = [7]\<rparr>, s1)"
  by (simp add: seal_in_def sealing_run ascending_def)

lemma sealing_unseal:
  "fst (unseal_in plain_types sealing_tss \<lparr>sb_private = [42], sb_public = replicate 32 0 @ [7, w], sb_pcr_indices = [7]\<rparr>
       (sealing_context w')) =
     (if w = w' then TOk [42] else TErr (Esapi ''TPM2_Unseal failed: policy check failed''))"
  by (simp add: unseal_in_def sealing_run ascending_def)

section \<open>Credentials: device contract\<close>

text \<open>
  \<open>cred key name secret (blob, enc)\<close>: the pair is a credential for the key, the name and the
  secret. The server's device makes credentials for the key it was given; the node's device
  recovers the secret of a credential for its endorsement key and its attestation key's
  name. The view \<open>pub\<close> is the public area of a loaded key.
\<close>

fun rsa_key :: "tpm_public \<Rightarrow> bytes \<times> u32" where
  "rsa_key (PublicRsa _ _ _ _ _ _ ex unique) = (unique, ex)"
| "rsa_key _ = ([], 0)"

type_synonym credential = "bytes \<times> u32 \<Rightarrow> bytes \<Rightarrow> bytes \<Rightarrow> bytes \<times> bytes \<Rightarrow> bool"

definition makes_credentials :: "('d, 'c) tss \<Rightarrow> credential \<Rightarrow> bool" where
  "makes_credentials T cred \<longleftrightarrow> (\<forall>p d h d1 secret name pair d2.
     load_external_public T p Null d = (Inr h, d1) \<and> tss_make_credential T h secret name d1 = (Inr pair, d2) \<longrightarrow>
     cred (rsa_key p) name secret pair)"

definition activates_credentials ::
    "('d, 'c) tss \<Rightarrow> ('d \<Rightarrow> handle \<rightharpoonup> tpm_public) \<Rightarrow> (tpm_public \<Rightarrow> bytes) \<Rightarrow> credential \<Rightarrow> bool" where
  "activates_credentials T pub name_of cred \<longleftrightarrow>
     (\<forall>hi p d h out d'. create_primary T hi p d = (Inr (h, out), d') \<longrightarrow> pub d h = None \<and> pub d' = (pub d)(h \<mapsto> out)) \<and>
     (\<forall>ty d r d'. start_auth_session T ty d = (r, d') \<longrightarrow> pub d' = pub d) \<and>
     (\<forall>h d r d'. policy_secret T h d = (r, d') \<longrightarrow> pub d' = pub d) \<and>
     (\<forall>ss ak ek blob enc d r d' pa pe secret. activate_credential T ss ak ek blob enc d = (Inr r, d') \<and>
        pub d ak = Some pa \<and> pub d ek = Some pe \<and> cred (rsa_key pe) (name_of pa) secret (blob, enc) \<longrightarrow> r = secret)"

text \<open>An RSA-2048 key has a modulus of 256 bytes without a leading zero and the default
  exponent, written 0.\<close>

definition rsa_2048 :: "('d, 'c) tss \<Rightarrow> bool" where
  "rsa_2048 T \<longleftrightarrow> (\<forall>hi p d h at na pol sy sc kb ex m d'.
     create_primary T hi p d = (Inr (h, PublicRsa at na pol sy sc kb ex m), d') \<longrightarrow>
     length m = 256 \<and> m ! 0 \<noteq> 0 \<and> ex = 0)"

text \<open>The TPM's name of a key (TPM 2.0 part 1, section 16): the two bytes of the name algorithm,
  which follow the type in the marshaled public area, and the digest of that area under the
  algorithm; SHA-256, SHA-384 and SHA-512 are the algorithms 0x000B, 0x000C and 0x000D.\<close>

definition names_keys :: "(hash_kind \<Rightarrow> bytes \<Rightarrow> bytes) \<Rightarrow> ('d, 'c) tss \<Rightarrow> (tpm_public \<Rightarrow> bytes) \<Rightarrow> bool" where
  "names_keys sha2 T name_of \<longleftrightarrow> (\<forall>p kind alg type rest.
     marshall_public T p = Inr (type @ alg @ rest) \<longrightarrow> length type = 2 \<longrightarrow>
     (alg, kind) \<in> {([0x00, 0x0B], Sha256), ([0x00, 0x0C], Sha384), ([0x00, 0x0D], Sha512)} \<longrightarrow>
     name_of p = alg @ sha2 kind (type @ alg @ rest))"

text \<open>The name the server computes from a key's published area is the TPM's own.\<close>

lemma tpm_name:
  assumes "names_keys sha2 T name_of" "marshall_public T p = Inr b" "compute_ak_name Y sha2 b = Inr n"
  shows "name_of p = n"
proof -
  let ?alg = "take 2 (drop 2 b)"
  have len: "\<not> length b < 4" using assms(3) by (auto simp: compute_ak_name_def)
  then obtain m kind where k: "hash_of_alg (from_be ?alg) = Inr (m, kind)" "n = be_bytes 2 (from_be ?alg :: u16) @ sha2 kind b"
    using ak_name_step [of b Y sha2] assms(3)
    by (cases "hash_of_alg (from_be ?alg)") (auto simp: conv_def Let_def split: option.split_asm prod.split_asm)
  have "length ?alg = 2" using len by simp
  then have alg: "be_bytes 2 (from_be ?alg :: u16) = ?alg" by (rule be_bytes_from_be_u16)
  have "be_bytes 2 (0x000B :: u16) = [0x00, 0x0B]" "be_bytes 2 (0x000C :: u16) = [0x00, 0x0C]"
    "be_bytes 2 (0x000D :: u16) = [0x00, 0x0D]" by code_simp+
  then have "(?alg, kind) \<in> {([0x00, 0x0B], Sha256), ([0x00, 0x0C], Sha384), ([0x00, 0x0D], Sha512)}"
    using k(1) alg by (auto simp: hash_of_alg_def TPM_ALG_SHA256_def TPM_ALG_SHA384_def TPM_ALG_SHA512_def split: if_splits)
  moreover have b: "b = take 2 b @ ?alg @ drop 4 b"
    by (metis append_take_drop_id drop_drop numeral_plus_numeral add_num_simps(4) add_num_simps(1) semiring_norm(2) semiring_norm(6))
  moreover have "length (take 2 b) = 2" using len by simp
  ultimately have "name_of p = ?alg @ sha2 kind b"
    using assms(1,2) unfolding names_keys_def by metis
  then show ?thesis using k(2) alg by simp
qed

lemma spki_key:
  assumes "spki_splits Y" "length m = 256" "m ! 0 \<noteq> 0" "rsa_public_to_spki m 65537 = Returns spki"
    and "spki_to_tpm_public Y spki = Returns (Inr p)"
  shows "rsa_key p = (m, 0)"
proof -
  have "m \<noteq> []" using assms(2) by auto
  then obtain k where k: "rsa_seq m 65537 = Returns k" "parse_rsa_public_key k = Returns (Inr (m, 0))" "length k < 65536"
    using rsa_seq_parses [of m 65537] assms(2,3) strip_zeros_id [of m] by auto
  then have "spki = der_seq (der_seq RSA_ALG @ der_bitstring k)" using assms(4) by (simp add: rsa_public_to_spki_def)
  then have "spki_from_der Y spki = Inr (RSA_OID, k)" using assms(1) k(3) by (simp add: spki_splits_def)
  then show ?thesis using assms(5) k(2)
    by (auto simp: spki_to_tpm_public_def Let_def rbind_eq_Inr split: if_splits)
qed

text \<open>What a session holds after it began, what the server's call returns, what activation does.\<close>

lemma extract_rsa_Inr:
  "extract_rsa_public p = Inr (m, e) \<longleftrightarrow>
     (\<exists>at na pol sy sc kb ex. p = PublicRsa at na pol sy sc kb ex m \<and> e = (if ex = 0 then 65537 else ex))"
  by (cases p) auto

lemma begin_session_run:
  assumes "begin_session Y T s = (TOk a, s1)"
  obtains ekt ek d1 m e spki akt pa d2 where
    "create_primary T Endorsement ekt (cx_dev s) = (Inr (as_ek_handle a, ek), d1)" "extract_rsa_public ek = Inr (m, e)"
    "rsa_public_to_spki m e = Returns (as_ek_spki a)"
    "create_primary T Endorsement akt d1 = (Inr (as_ak_handle a, pa), d2)" "marshall_public T pa = Inr (as_ak_pub a)"
    "cx_dev s1 = d2"
  using assms by (auto simp: begin_session_def tbind_TOk dev_TOk of_out_TOk tpure_def map_err_Inr)

lemma begun_session:
  assumes "activates_credentials T pub name_of cred" "rsa_2048 T" "begin_session Y T s = (TOk a, s1)"
  obtains pe pa m where "pub (cx_dev s1) (as_ek_handle a) = Some pe" "pub (cx_dev s1) (as_ak_handle a) = Some pa"
    "marshall_public T pa = Inr (as_ak_pub a)" "rsa_key pe = (m, 0)" "length m = 256" "m ! 0 \<noteq> 0"
    "rsa_public_to_spki m 65537 = Returns (as_ek_spki a)"
  using assms(3)
proof (rule begin_session_run)
  fix ekt ek d1 m e spki akt pa d2
  assume r: "create_primary T Endorsement ekt (cx_dev s) = (Inr (as_ek_handle a, ek), d1)" "extract_rsa_public ek = Inr (m, e)"
    "rsa_public_to_spki m e = Returns (as_ek_spki a)"
    "create_primary T Endorsement akt d1 = (Inr (as_ak_handle a, pa), d2)" "marshall_public T pa = Inr (as_ak_pub a)"
    "cx_dev s1 = d2"
  have "pub d1 = (pub (cx_dev s))(as_ek_handle a \<mapsto> ek)" "pub d1 (as_ak_handle a) = None" "pub d2 = (pub d1)(as_ak_handle a \<mapsto> pa)"
    using assms(1) r(1,4) unfolding activates_credentials_def by (elim conjE, metis)+
  then have "pub d2 (as_ek_handle a) = Some ek" "pub d2 (as_ak_handle a) = Some pa" by (auto split: if_splits)
  moreover have "rsa_key ek = (m, 0)" "length m = 256" "m ! 0 \<noteq> 0" "e = 65537"
    using assms(2) r(1,2) unfolding extract_rsa_Inr rsa_2048_def by fastforce+
  ultimately show thesis using that r by simp
qed

lemma made_credential:
  assumes "makes_credentials T cred" "make_credential_in Y sha2 T spki akpub secret c = (TOk pair, c')"
  obtains p name where "spki_to_tpm_public Y spki = Returns (Inr p)" "compute_ak_name Y sha2 akpub = Inr name"
    "cred (rsa_key p) name secret pair"
proof -
  obtain p name h d1 d2 where "spki_to_tpm_public Y spki = Returns (Inr p)" "compute_ak_name Y sha2 akpub = Inr name"
      "load_external_public T p Null (cx_dev c) = (Inr h, d1)" "tss_make_credential T h secret name d1 = (Inr pair, d2)"
    using assms(2) by (auto simp: make_credential_in_def tbind_TOk dev_TOk of_out_TOk tpure_def)
  then show thesis using that assms(1) unfolding makes_credentials_def by blast
qed

lemma activated:
  assumes "activates_credentials T pub name_of cred" "activate_with Y T ak ek blob enc s = (TOk r, s')"
    and "pub (cx_dev s) ak = Some pa" "pub (cx_dev s) ek = Some pe" "cred (rsa_key pe) (name_of pa) secret (blob, enc)"
  shows "r = secret"
proof -
  obtain ss x d1 h y d2 d3 where "start_auth_session T Policy (cx_dev s) = (x, d1)" "policy_secret T h d1 = (y, d2)"
      and act: "activate_credential T ss ak ek blob enc d2 = (Inr r, d3)"
    using assms(2) by (auto simp: activate_with_def tbind_TOk dev_TOk dev_auth_def tpure_def)
  then have "pub d2 = pub (cx_dev s)" using assms(1) unfolding activates_credentials_def by metis
  then show ?thesis using assms(1,3-5) act unfolding activates_credentials_def by metis
qed

section \<open>Properties\<close>

text \<open>C11. What is sealed comes back as it was, and only under the same PCR policy. If a blob
  sealed for some registers is unsealed on the device at any later time, the result is the
  plaintext, and the policy digest that a new session gets from the selection and the values
  its registers then hold is the one it got from the values at the time of sealing.\<close>

theorem unseal_returns_what_was_sealed:
  assumes "seals T v" "seal_in Y T plaintext indices s = (TOk blob, s1)" "unseal_in Y' T blob s2 = (TOk x, s3)"
  shows "x = plaintext \<and>
    (let sel = ascending (map unat indices)
     in sv_policy v (replicate 32 0) sel (map (sv_reg v (cx_dev s2)) sel) =
        sv_policy v (replicate 32 0) sel (map (sv_reg v (cx_dev s)) sel))"
proof -
  obtain p where p: "marshall_public T p = Inr (sb_public blob)" "sb_pcr_indices blob = indices"
    "sv_contents v (sb_private blob) p = Some (session_policy v (map unat indices) (cx_dev s), plaintext)"
    using seal_packs [OF assms(1,2)] by blast
  obtain q where q: "unmarshall_public T (sb_public blob) = Inr q"
    "sv_contents v (sb_private blob) q = Some (session_policy v (map unat indices) (cx_dev s2), x)"
    using unseal_opens [OF assms(1,3)] p(2) by auto
  have "sv_contents v (sb_private blob) q = sv_contents v (sb_private blob) p"
    using assms(1) p(1) q(1) by (auto simp: seals_def object_law_def)
  then show ?thesis using p(3) q(2) by (simp add: session_policy_def)
qed

theorem unseal_returns_what_was_sealed_witness:
  "\<exists>blob s1 s3. seal_in plain_types sealing_tss [42] [7] (sealing_context 3) = (TOk blob, s1) \<and>
     unseal_in plain_types sealing_tss blob (sealing_context 3) = (TOk [42], s3) \<and>
     fst (unseal_in plain_types sealing_tss blob (sealing_context 4)) \<noteq> TOk [42]"
proof -
  let ?blob = "\<lparr>sb_private = [42], sb_public = replicate 32 0 @ [7, 3], sb_pcr_indices = [7]\<rparr>"
  obtain s1 where b: "seal_in plain_types sealing_tss [42] [7] (sealing_context 3) = (TOk ?blob, s1)"
    using sealing_seal [of 3] by blast
  obtain x s3 where u: "unseal_in plain_types sealing_tss ?blob (sealing_context 3) = (TOk x, s3)"
    using sealing_unseal [of 3 3] by (metis prod.collapse)
  have "x = [42]" using unseal_returns_what_was_sealed [OF sealing_seals b u] by blast
  with b u show ?thesis using sealing_unseal [of 3 4] by auto
qed

text \<open>C10. Credential activation end to end. The server makes a credential from the endorsement
  and attestation keys a session published, and that session activates it with its keys
  still loaded: the node recovers the server's secret, across the encoding of the
  endorsement key as SPKI and its decoding on the server and across the attestation key's
  name, which the server computes from the published area and the node's TPM by the rule of
  the TPM specification; and its activation proof is accepted for any server nonce.\<close>

theorem activation_recovers_the_secret:
  assumes "makes_credentials TS cred" "activates_credentials TN pub name_of cred" "rsa_2048 TN"
    and "names_keys sha2 TN name_of" "spki_splits Y"
    and "begin_session Y TN s = (TOk a, s1)"
    and "make_credential_in Y sha2 TS (session_ek_pub a) (session_ak_pub a) secret c = (TOk (blob, enc), c')"
    and "pub (cx_dev s2) = pub (cx_dev s1)" "session_activate Y TN a blob enc s2 = (TOk recovered, s3)"
  shows "recovered = secret \<and>
    verify_activation_proof keyed_hash secret nonce (compute_activation_proof keyed_hash recovered nonce)"
proof -
  obtain pe pa m where k: "pub (cx_dev s1) (as_ek_handle a) = Some pe" "pub (cx_dev s1) (as_ak_handle a) = Some pa"
    "marshall_public TN pa = Inr (as_ak_pub a)" "rsa_key pe = (m, 0)" "length m = 256" "m ! 0 \<noteq> 0"
    "rsa_public_to_spki m 65537 = Returns (as_ek_spki a)"
    using assms(2,3,6) by (rule begun_session)
  obtain p name where c: "spki_to_tpm_public Y (as_ek_spki a) = Returns (Inr p)"
    "compute_ak_name Y sha2 (as_ak_pub a) = Inr name" "cred (rsa_key p) name secret (blob, enc)"
    using assms(1,7) unfolding session_ek_pub_def session_ak_pub_def by (rule made_credential)
  have "rsa_key p = rsa_key pe" using spki_key [OF assms(5) k(5-7) c(1)] k(4) by simp
  moreover have "name_of pa = name" by (rule tpm_name [OF assms(4) k(3) c(2)])
  ultimately have "recovered = secret"
    using activated [OF assms(2), where pa = pa and pe = pe] assms(8,9) k(1,2) c(3) unfolding session_activate_def by simp
  then show ?thesis by (simp add: verify_activation_proof_def)
qed

text \<open>A device for both ends: its loaded keys with their handles. A credential names key and
  attestation key next to the secret.\<close>

definition cd_add :: "tpm_public \<Rightarrow> (handle \<Rightarrow> 'r) \<Rightarrow> (handle \<times> tpm_public) list \<Rightarrow> (string + 'r) \<times> (handle \<times> tpm_public) list" where
  "cd_add p res d = (let h = fresh (map fst d) in (Inr (res h), (h, p) # d))"

fun cd_generate :: "tpm_public \<Rightarrow> tpm_public" where
  "cd_generate (PublicRsa at na pol sy sc kb ex m) = PublicRsa at na pol sy sc kb 0 (replicate 256 1)"
| "cd_generate p = p"

definition cd_cred :: credential where
  "cd_cred key name secret pair \<longleftrightarrow> pair = (fst key @ name, secret)"

definition cd_marshal :: bytes where
  "cd_marshal = [0x00, 0x23, 0x00, 0x0B]"

definition cd_tss :: "((handle \<times> tpm_public) list, handle) tss" where
  "cd_tss =
    \<lparr>ctx_new = (\<lambda>_. Inr []), load_external_public = (\<lambda>p _. cd_add p (\<lambda>h. h)),
     tss_make_credential = (\<lambda>h cred name d. (case map_of d h of None \<Rightarrow> Inl ''no key''
        | Some p \<Rightarrow> Inr (fst (rsa_key p) @ name, cred), d)),
     create_primary = (\<lambda>_ p. cd_add (cd_generate p) (\<lambda>h. (h, cd_generate p))),
     marshall_public = (\<lambda>_. Inr cd_marshal), unmarshall_public = (\<lambda>_. Inl []),
     get_capability = (\<lambda>i d. (Inr (Handles []), d)), nv_index_new = (\<lambda>_. None),
     tr_from_tpm_public = (\<lambda>_ d. (Inr 0, d)), nv_read = (\<lambda>_ _ _ d. (Inr [], d)),
     start_auth_session = (\<lambda>_ d. (Inr (Some 0), d)), to_policy_session = (\<lambda>_. None), policy_secret = (\<lambda>_ d. (Inr (), d)),
     activate_credential = (\<lambda>_ _ _ _ enc d. (Inr enc, d)),
     tss_quote = (\<lambda>_ _ _ d. (Inl [], d)), pcr_read = (\<lambda>_ d. (Inl [], d)), policy_pcr = (\<lambda>_ _ d. (Inr (), d)),
     policy_get_digest = (\<lambda>_ d. (Inr [], d)), tss_create = (\<lambda>_ _ _ d. (Inl [], d)), tss_load = (\<lambda>_ _ _ d. (Inl [], d)),
     tss_unseal = (\<lambda>_ _ d. (Inl [], d)), context_save = (\<lambda>h d. (Inr h, d)), context_load = (\<lambda>h d. (Inr h, d)),
     flush_context = (\<lambda>h d. (Inr (), filter (\<lambda>e. fst e \<noteq> h) d))\<rparr>"

lemma cd_generate_rsa: "cd_generate p = PublicRsa at na pol sy sc kb ex m \<Longrightarrow> length m = 256 \<and> m ! 0 \<noteq> 0 \<and> ex = 0"
  by (cases p) auto

lemma fresh_map_of: "map_of d (fresh (map fst d)) = None"
  using fresh_new [of "map fst d"] by (simp add: map_of_eq_None_iff)

lemma cd_laws:
  "makes_credentials cd_tss cd_cred" "activates_credentials cd_tss map_of (\<lambda>_. name) cd_cred" "rsa_2048 cd_tss"
  by (auto simp: makes_credentials_def activates_credentials_def rsa_2048_def cd_tss_def cd_add_def cd_cred_def Let_def
      fresh_map_of dest: cd_generate_rsa split: option.splits)

definition cd_name :: bytes where
  "cd_name = [0x00, 0x0B] @ sim_hash Sha256 cd_marshal"

lemma cd_ak_name: "compute_ak_name plain_types sim_hash cd_marshal = Inr cd_name"
proof -
  have "(from_be [11] :: u16) = 11" by (simp add: from_be_def)
  moreover have "be_bytes 2 (11 :: u16) = [0x00, 0x0B]" by code_simp
  ultimately show ?thesis
    by (simp add: compute_ak_name_def cd_marshal_def cd_name_def plain_types_def conv_def Let_def)
qed

lemma cd_names: "names_keys sim_hash cd_tss (\<lambda>_. cd_name)"
  by (auto simp: names_keys_def cd_tss_def cd_marshal_def cd_name_def length_Suc_conv numeral_2_eq_2)

lemmas cd_run = tbind_def tpure_def of_res_def of_out_def dev_def dev_auth_def flush_def set_sessions_def conv_def ok_or_def
  rbind_def cd_tss_def cd_add_def fresh_def Let_def

lemma cd_begin:
  assumes "rsa_public_to_spki (replicate 256 1) 65537 = Returns spki"
  shows "\<exists>s1. begin_session plain_types cd_tss \<lparr>cx_dev = [], cx_sessions = NO_SESSIONS\<rparr> =
     (TOk \<lparr>as_ak_handle = 2, as_ek_handle = 1, as_ak_pub = cd_marshal, as_ek_spki = spki\<rparr>, s1)"
  using assms by (simp add: begin_session_def ek_template_def ak_template_def plain_types_def cd_run)

lemma cd_spki:
  obtains spki where "rsa_public_to_spki (replicate 256 1) 65537 = Returns spki"
    "spki_to_tpm_public plain_types spki =
       Returns (Inr (PublicRsa ek_attrs Sha256 [] Aes128Cfb RsaSchemeNull Rsa2048 0 (replicate 256 1)))"
proof -
  obtain k where "rsa_seq (replicate 256 1) 65537 = Returns k"
    "parse_rsa_public_key k = Returns (Inr (replicate 256 1, 0))" "length k < 65536"
    using rsa_seq_parses [of "replicate 256 1" 65537] strip_zeros_id [of "replicate 256 (1 :: u8)"] by auto
  then show thesis
    using that spki_to_tpm_public_rsa [OF plain_types_spki]
    by (simp add: rsa_public_to_spki_def plain_types_def)
qed

lemma cd_make:
  assumes "spki_to_tpm_public plain_types spki = Returns (Inr p)"
  shows "\<exists>c'. make_credential_in plain_types sim_hash cd_tss spki cd_marshal secret \<lparr>cx_dev = [], cx_sessions = NO_SESSIONS\<rparr> =
    (TOk (fst (rsa_key p) @ cd_name, secret), c')"
  using assms cd_ak_name by (simp add: make_credential_in_def cd_run plain_types_def)

lemma cd_activate:
  "fst (session_activate plain_types cd_tss a blob enc s) = TOk enc"
  by (simp add: session_activate_def activate_with_def cd_run plain_types_def)

theorem activation_recovers_the_secret_witness:
  "\<exists>a s1 blob enc c' s3. begin_session plain_types cd_tss \<lparr>cx_dev = [], cx_sessions = NO_SESSIONS\<rparr> = (TOk a, s1) \<and>
     make_credential_in plain_types sim_hash cd_tss (session_ek_pub a) (session_ak_pub a) [1, 2, 3]
       \<lparr>cx_dev = [], cx_sessions = NO_SESSIONS\<rparr> = (TOk (blob, enc), c') \<and>
     session_activate plain_types cd_tss a blob enc s1 = (TOk [1, 2, 3], s3)"
proof -
  let ?c = "\<lparr>cx_dev = [] :: (handle \<times> tpm_public) list, cx_sessions = NO_SESSIONS\<rparr>"
  obtain spki where k: "rsa_public_to_spki (replicate 256 1) 65537 = Returns spki"
    "spki_to_tpm_public plain_types spki =
       Returns (Inr (PublicRsa ek_attrs Sha256 [] Aes128Cfb RsaSchemeNull Rsa2048 0 (replicate 256 1)))"
    by (rule cd_spki)
  obtain a s1 where b: "begin_session plain_types cd_tss ?c = (TOk a, s1)" "as_ek_spki a = spki" "as_ak_pub a = cd_marshal"
    using cd_begin [OF k(1)] by auto
  obtain blob enc c' where m: "make_credential_in plain_types sim_hash cd_tss (session_ek_pub a) (session_ak_pub a) [1, 2, 3] ?c =
      (TOk (blob, enc), c')"
    using cd_make [OF k(2), of "[1, 2, 3]"] b(2,3) by (auto simp: session_ek_pub_def session_ak_pub_def)
  obtain r s3 where u: "session_activate plain_types cd_tss a blob enc s1 = (TOk r, s3)"
    using cd_activate by (metis prod.collapse)
  have "r = [1, 2, 3]"
    using activation_recovers_the_secret [OF cd_laws cd_names plain_types_spki b(1) m refl u] by blast
  with b m u show ?thesis by blast
qed

end
