(* ===== verification/Tpm_Slots.thy ===== *)
theory Tpm_Slots
  imports Tpm_Manager
begin

text \<open>
  The slots of a small TPM. A software TPM holds three transient objects at a time; the
  comments of \<open>attestation/tpm.rs\<close> give this as the reason for \<open>TpmContextManager\<close>: an
  \<open>AttestationSession\<close> holds two slots, so that sealing beside it fails for lack of memory.
  This theory puts a bound on the number of loaded handles around an arbitrary device and
  compares runs on the bounded device with runs on the unbounded one. For what fails when
  slots run out, a second device bounds the transient objects only and leaves sessions free.
\<close>

section \<open>A device with a bounded number of slots\<close>

text \<open>An operation that needs a slot is refused when none is free. \<open>TPM2_Create\<close> keeps nothing
  loaded, but needs a free slot while it runs. Sessions are counted as objects are: this device
  refuses more than one that keeps them apart, so what fits here fits there.\<close>

definition refuse ::
    "('d \<Rightarrow> handle set) \<Rightarrow> nat \<Rightarrow> ('d \<Rightarrow> (string + 'r) \<times> 'd) \<Rightarrow> 'd \<Rightarrow> (string + 'r) \<times> 'd" where
  "refuse live cap op d = (if card (live d) < cap then op d else (Inl ''TPM_RC_MEMORY'', d))"

definition slotted :: "('d \<Rightarrow> handle set) \<Rightarrow> nat \<Rightarrow> ('d, 'c) tss \<Rightarrow> ('d, 'c) tss" where
  "slotted live cap T = T
     \<lparr>load_external_public := \<lambda>p h. refuse live cap (load_external_public T p h),
      create_primary := \<lambda>h p. refuse live cap (create_primary T h p),
      tss_create := \<lambda>h p b. refuse live cap (tss_create T h p b),
      tss_load := \<lambda>h a p. refuse live cap (tss_load T h a p),
      context_load := \<lambda>c. refuse live cap (context_load T c),
      start_auth_session := \<lambda>ty. refuse live cap (start_auth_session T ty)\<rparr>"

lemma slotted_sel [simp]:
  "create_primary (slotted live cap T) = (\<lambda>h p. refuse live cap (create_primary T h p))"
  "load_external_public (slotted live cap T) = (\<lambda>p h. refuse live cap (load_external_public T p h))"
  "tss_create (slotted live cap T) = (\<lambda>h p b. refuse live cap (tss_create T h p b))"
  "tss_load (slotted live cap T) = (\<lambda>h a p. refuse live cap (tss_load T h a p))"
  "context_load (slotted live cap T) = (\<lambda>c. refuse live cap (context_load T c))"
  "start_auth_session (slotted live cap T) = (\<lambda>ty. refuse live cap (start_auth_session T ty))"
  "tss_make_credential (slotted live cap T) = tss_make_credential T"
  "marshall_public (slotted live cap T) = marshall_public T"
  "unmarshall_public (slotted live cap T) = unmarshall_public T"
  "get_capability (slotted live cap T) = get_capability T" "nv_index_new (slotted live cap T) = nv_index_new T"
  "tr_from_tpm_public (slotted live cap T) = tr_from_tpm_public T" "nv_read (slotted live cap T) = nv_read T"
  "to_policy_session (slotted live cap T) = to_policy_session T" "policy_secret (slotted live cap T) = policy_secret T"
  "activate_credential (slotted live cap T) = activate_credential T" "tss_quote (slotted live cap T) = tss_quote T"
  "pcr_read (slotted live cap T) = pcr_read T" "policy_pcr (slotted live cap T) = policy_pcr T"
  "policy_get_digest (slotted live cap T) = policy_get_digest T" "tss_unseal (slotted live cap T) = tss_unseal T"
  "context_save (slotted live cap T) = context_save T" "flush_context (slotted live cap T) = flush_context T"
  by (simp_all add: slotted_def)

lemma slotted_flush [simp]: "flush (slotted live cap T) h = flush T h"
  by (rule ext) (simp add: flush_def)

text \<open>The bounded device accounts for its handles as the unbounded one does.\<close>

lemma refuse_law:
  "adds live key op \<Longrightarrow> adds live key (refuse used cap op)" "keeps live op' \<Longrightarrow> keeps live (refuse used cap op')"
  "starts live op'' \<Longrightarrow> starts live (refuse used cap op'')"
  unfolding adds_def keeps_def starts_def refuse_def by simp_all

lemma slotted_accounts: "accounts T live \<Longrightarrow> accounts (slotted live cap T) live"
  by (simp add: accounts_def refuse_law del: split_paired_All)

lemma slotted_saves: "saves T \<Longrightarrow> saves (slotted live cap T)"
  by (simp add: saves_def)

section \<open>Computations that fit\<close>

text \<open>\<open>m'\<close> behaves as \<open>m\<close> wherever \<open>n\<close> slots are free.\<close>

definition fits :: "('d \<Rightarrow> handle set) \<Rightarrow> nat \<Rightarrow> nat \<Rightarrow> ('d, 'a) tpm \<Rightarrow> ('d, 'a) tpm \<Rightarrow> bool" where
  "fits live cap n m m' \<longleftrightarrow>
     (\<forall>s. finite (live (cx_dev s)) \<longrightarrow> card (live (cx_dev s)) + n \<le> cap \<longrightarrow> m' s = m s)"

named_theorems fit_intros \<open>computations that need a number of free slots\<close>

lemma fitsD: "fits live cap n m m' \<Longrightarrow> finite (live (cx_dev s)) \<Longrightarrow> card (live (cx_dev s)) + n \<le> cap \<Longrightarrow> m' s = m s"
  by (simp add: fits_def)

lemma fits_mono: "fits live cap n m m' \<Longrightarrow> n \<le> n' \<Longrightarrow> fits live cap n' m m'"
  by (simp add: fits_def)

lemma fits_same [fit_intros]: "fits live cap n m m"
  by (simp add: fits_def)

lemma fits_refuse [fit_intros]: "fits live cap (Suc n) (dev err op) (dev err (refuse live cap op))"
  by (simp add: fits_def dev_def refuse_def)

text \<open>A step after which the same slots are taken, if it succeeds; a step that takes one.\<close>

lemma fits_step:
  fixes live :: "'d \<Rightarrow> handle set"
  assumes "fits live cap n m m'" "\<And>a. fits live cap n (f a) (f' a)"
    "\<And>s a s1. m s = (TOk a, s1) \<Longrightarrow> finite (live (cx_dev s)) \<Longrightarrow>
       finite (live (cx_dev s1)) \<and> card (live (cx_dev s1)) \<le> card (live (cx_dev s))"
  shows "fits live cap n (tbind m f) (tbind m' f')"
  unfolding fits_def
proof (intro allI impI)
  fix s :: "'d tss_context"
  assume fin: "finite (live (cx_dev s))" and room: "card (live (cx_dev s)) + n \<le> cap"
  obtain r s1 where run: "m s = (r, s1)" by fastforce
  have "f' a s1 = f a s1" if "r = TOk a" for a
    using assms(3) [of s a s1] run that fin room by (intro fitsD [OF assms(2)]) auto
  then show "tbind m' f' s = tbind m f s"
    using run fitsD [OF assms(1) fin room] by (cases r) (simp_all add: tbind_def)
qed

lemma fits_alloc:
  fixes live :: "'d \<Rightarrow> handle set"
  assumes "allocs live key m" "fits live cap (Suc n) m m'" "\<And>a. fits live cap n (f a) (f' a)"
  shows "fits live cap (Suc n) (tbind m f) (tbind m' f')"
  unfolding fits_def
proof (intro allI impI)
  fix s :: "'d tss_context"
  assume fin: "finite (live (cx_dev s))" and room: "card (live (cx_dev s)) + Suc n \<le> cap"
  obtain r s1 where run: "m s = (r, s1)" by fastforce
  have "f' a s1 = f a s1" if "r = TOk a" for a
    using allocsD [OF assms(1), of s a s1] run that fin room by (intro fitsD [OF assms(3)]) auto
  then show "tbind m' f' s = tbind m f s"
    using run fitsD [OF assms(2) fin room] by (cases r) (simp_all add: tbind_def)
qed

lemma fits_leaves:
  assumes "leaves live m" "fits live cap n m m'" "\<And>a. fits live cap n (f a) (f' a)"
  shows "fits live cap n (tbind m f) (tbind m' f')"
proof (rule fits_step [OF assms(2,3)])
  fix s a s1 assume "m s = (TOk a, s1)" "finite (live (cx_dev s))"
  then show "finite (live (cx_dev s1)) \<and> card (live (cx_dev s1)) \<le> card (live (cx_dev s))"
    using assms(1) unfolding leaves_def by (metis order_refl snd_conv)
qed

lemma fits_seq:
  assumes "releases live k m" "fits live cap n m m'" "\<And>a. fits live cap n (f a) (f' a)"
  shows "fits live cap n (tbind m f) (tbind m' f')"
proof (rule fits_step [OF assms(2,3)])
  fix s a s1 assume "m s = (TOk a, s1)" "finite (live (cx_dev s))"
  then show "finite (live (cx_dev s1)) \<and> card (live (cx_dev s1)) \<le> card (live (cx_dev s))"
    using freesD [OF assms(1), of s "TOk a" s1] by (simp add: freed_def)
qed

lemma fits_flush [fit_intros]:
  assumes "accounts T live" "\<And>a. fits live cap n (f a) (f' a)"
  shows "fits live cap n (tbind (flush T h) f) (tbind (flush T h) f')"
proof (rule fits_step [OF fits_same assms(2)])
  fix s a s1 assume "flush T h s = (TOk a, s1)" "finite (live (cx_dev s))"
  then show "finite (live (cx_dev s1)) \<and> card (live (cx_dev s1)) \<le> card (live (cx_dev s))"
    by (auto simp: accounts_flush [OF assms(1)] intro: card_mono)
qed

lemma fits_pair [fit_intros]:
  "(\<And>a b. fits live cap n (f a b) (f' a b)) \<Longrightarrow> fits live cap n (case_prod f p) (case_prod f' p)"
  by (cases p) simp

lemma fits_if [fit_intros]:
  "fits live cap n a a' \<Longrightarrow> fits live cap n b b' \<Longrightarrow> fits live cap n (if c then a else b) (if c then a' else b')"
  by simp

lemmas fits_basic [fit_intros] = leaves_basic [THEN fits_leaves, OF fits_same]
lemmas fits_call [fit_intros] = accounts_keeps [THEN leaves_dev, THEN fits_leaves, OF _ fits_same]
lemmas fits_create [fit_intros] = accounts_keeps(11) [THEN leaves_dev, THEN fits_leaves, OF _ fits_refuse]
lemmas fits_new [fit_intros] = accounts_adds(1-4) [THEN allocs_dev, THEN fits_alloc, OF _ fits_refuse]

lemma fits_start [fit_intros]:
  assumes "accounts T live" "\<And>a. fits live cap n (f a) (f' a)"
  shows "fits live cap (Suc n) (tbind (dev err (start_auth_session T ty)) (\<lambda>x. tbind (of_res (ok_or e x)) f))
    (tbind (dev err (refuse live cap (start_auth_session T ty))) (\<lambda>x. tbind (of_res (ok_or e x)) f'))"
  unfolding start_fold
proof (rule fits_alloc [OF allocs_start [OF accounts_adds(5) [OF assms(1)]] _ assms(2)])
  show "fits live cap (Suc n) (tbind (dev err (start_auth_session T ty)) (\<lambda>x. of_res (ok_or e x)))
     (tbind (dev err (refuse live cap (start_auth_session T ty))) (\<lambda>x. of_res (ok_or e x)))"
    by (simp add: fits_def tbind_def dev_def refuse_def)
qed

lemma fits_authorized [fit_intros]:
  assumes "accounts T live" "\<And>a. fits live cap n (f a) (f' a)"
  shows "fits live cap n (tbind (dev_auth err (\<lambda>ss. activate_credential T ss h h' b c)) f)
      (tbind (dev_auth err (\<lambda>ss. activate_credential T ss h h' b c)) f')"
    "fits live cap n (tbind (dev_auth err' (\<lambda>ss. tss_unseal T ss h)) f) (tbind (dev_auth err' (\<lambda>ss. tss_unseal T ss h)) f')"
  using assms(2) fits_leaves [OF leaves_dev_auth fits_same] accounts_keeps(6,12) [OF assms(1)] by metis+

section \<open>What the calls need\<close>

lemma fits_srk: "accounts T live \<Longrightarrow> fits live cap (Suc n) (create_srk Y T) (create_srk Y (slotted live cap T))"
  unfolding create_srk_def slotted_sel by (intro fit_intros)

lemmas fits_after_srk [fit_intros] = fits_alloc [OF create_srk_allocs fits_srk]

lemma fits_digest:
  "accounts T live \<Longrightarrow>
    fits live cap (Suc n) (compute_pcr_policy_digest T sel) (compute_pcr_policy_digest (slotted live cap T) sel)"
  unfolding compute_pcr_policy_digest_def slotted_sel slotted_flush by (intro fit_intros)

lemmas fits_after_digest [fit_intros] = fits_seq [OF policy_digest_frees fits_digest]

lemma fits_seal: "accounts T live \<Longrightarrow> fits live cap 2 (seal_in Y T pt is) (seal_in Y (slotted live cap T) pt is)"
  unfolding seal_in_def slotted_sel slotted_flush numeral_2_eq_2 by (intro fit_intros)

lemma fits_unseal: "accounts T live \<Longrightarrow> fits live cap 3 (unseal_in Y T b) (unseal_in Y (slotted live cap T) b)"
  unfolding unseal_in_def slotted_sel slotted_flush numeral_3_eq_3 by (intro fit_intros)

lemma fits_activate:
  "accounts T live \<Longrightarrow> fits live cap (Suc 0) (activate_with Y T ak ek b c) (activate_with Y (slotted live cap T) ak ek b c)"
  unfolding activate_with_def slotted_sel slotted_flush by (intro fit_intros)

lemma fits_begin:
  "accounts T live \<Longrightarrow> fits live cap 2 (begin_attestation Y T rm) (begin_attestation Y (slotted live cap T) rm)"
  unfolding begin_attestation_def park_def slotted_sel slotted_flush numeral_2_eq_2 by (intro fit_intros)

lemma quote_slotted [simp]: "quote_with Y (slotted live cap T) = quote_with Y T"
  by (intro ext) (simp add: quote_with_def read_pcr_values_def)

lemma cert_slotted [simp]: "read_ek_cert (slotted live cap T) = read_ek_cert T"
  unfolding read_ek_cert_def slotted_sel ..

lemma finish_slotted [simp]: "finish_attestation (slotted live cap T) m = finish_attestation T m"
  unfolding finish_attestation_def flush_state_def slotted_flush ..

lemma save_slotted [simp]: "save_if_needed (slotted live cap T) rm st s = save_if_needed T rm st s"
  unfolding save_if_needed_def slotted_sel slotted_flush ..

lemma load_slotted:
  assumes "card (live (cx_dev s)) < cap"
  shows "ensure_loaded (slotted live cap T) st s = ensure_loaded T st s"
  using assms by (cases st) (simp_all add: ensure_loaded_def dev_def refuse_def)

lemma loaded_room:
  assumes "accounts T live" "ensure_loaded T st s = (r, st', s')" "finite (live (cx_dev s))"
  shows "finite (live (cx_dev s')) \<and> card (live (cx_dev s')) \<le> Suc (card (live (cx_dev s)))"
proof (cases st)
  case (Saved c)
  note load = allocs_dev [OF accounts_adds(4) [OF assms(1)], of "esapi ''context_load failed: ''" c]
  obtain r1 s1 where run: "dev (esapi ''context_load failed: '') (context_load T c) s = (r1, s1)" by fastforce
  then have "s' = s1" using assms(2) Saved by (cases r1) (auto simp: ensure_loaded_def)
  then have "live (cx_dev s') = live (cx_dev s) \<or> (\<exists>h. live (cx_dev s') = insert h (live (cx_dev s)))"
    using load run unfolding allocs_def by (cases r1) fastforce+
  then show ?thesis using assms(3) card_insert_le_m1 by (auto simp: card_insert_if)
qed (use assms in \<open>simp add: ensure_loaded_def\<close>)

text \<open>With three free slots the bounded device cannot be told from the unbounded one, whatever
  the call returns. Activation needs all three: both keys and its policy session.\<close>

lemma activate_slotted:
  assumes "accounts T live" "finite (live (cx_dev s))" "card (live (cx_dev s)) + 3 \<le> cap"
  shows "mgr_activate Y (slotted live cap T) rm m blob secret s = mgr_activate Y T rm m blob secret s"
proof -
  obtain r1 ak s1 where l1: "ensure_loaded T (ms_ak_state m) s = (r1, ak, s1)" by (metis prod_cases3)
  obtain r2 ek s2 where l2: "ensure_loaded T (ms_ek_state m) s1 = (r2, ek, s2)" by (metis prod_cases3)
  note room1 = loaded_room [OF assms(1) l1 assms(2)]
  note room2 = loaded_room [OF assms(1) l2 conjunct1 [OF room1]]
  have "activate_with Y (slotted live cap T) h k blob secret s2 = activate_with Y T h k blob secret s2" for h k
    using room1 room2 assms(3) by (intro fitsD [OF fits_activate [OF assms(1)]]) auto
  moreover have "ensure_loaded (slotted live cap T) (ms_ek_state m) s1 = (r2, ek, s2)"
    using room1 assms(3) l2 load_slotted [of live s1 cap T] by simp
  moreover have "ensure_loaded (slotted live cap T) (ms_ak_state m) s = (r1, ak, s1)"
    using assms(3) l1 load_slotted [of live s cap T] by simp
  ultimately have "activate_inner Y (slotted live cap T) m blob secret s = activate_inner Y T m blob secret s"
    using l1 l2 by (simp add: activate_inner_def activate_loaded_eq Let_def split: tres.split)
  then show ?thesis unfolding mgr_activate_def save_slotted by (rule arg_cong)
qed

lemma quote_mgr_slotted:
  assumes "card (live (cx_dev s)) < cap"
  shows "mgr_quote Y (slotted live cap T) rm m nonce indices s = mgr_quote Y T rm m nonce indices s"
  unfolding mgr_quote_def quote_inner_def quote_loaded_eq save_slotted quote_slotted
    load_slotted [where live = live, OF assms] ..

section \<open>Runs\<close>

text \<open>Two devices on which every call of the manager agrees wherever three slots are free.\<close>

definition agree :: "('d \<Rightarrow> handle set) \<Rightarrow> nat \<Rightarrow> tss_types \<Rightarrow> ('d, 'c) tss \<Rightarrow> ('d, 'c) tss \<Rightarrow> bool" where
  "agree live cap Y T U \<longleftrightarrow> (\<forall>s. finite (live (cx_dev s)) \<longrightarrow> card (live (cx_dev s)) + 3 \<le> cap \<longrightarrow>
     begin_attestation Y U False s = begin_attestation Y T False s \<and>
     (\<forall>m blob secret. mgr_activate Y U False m blob secret s = mgr_activate Y T False m blob secret s) \<and>
     (\<forall>m nonce is. mgr_quote Y U False m nonce is s = mgr_quote Y T False m nonce is s) \<and>
     (\<forall>pt is. mgr_seal_to_pcr Y U pt is s = mgr_seal_to_pcr Y T pt is s) \<and>
     (\<forall>b. mgr_unseal Y U b s = mgr_unseal Y T b s) \<and> mgr_read_ek_cert U s = mgr_read_ek_cert T s \<and>
     (\<forall>m. finish_attestation U m s = finish_attestation T m s))"

lemma slotted_agree:
  assumes "accounts T live"
  shows "agree live cap Y T (slotted live cap T)"
  unfolding agree_def
proof (intro allI impI)
  fix s :: "'a tss_context"
  assume room: "finite (live (cx_dev s))" "card (live (cx_dev s)) + 3 \<le> cap"
  note fit = fitsD [where live = live and s = s, OF fits_mono [where n' = 3] room]
  show "begin_attestation Y (slotted live cap T) False s = begin_attestation Y T False s \<and>
     (\<forall>m blob secret. mgr_activate Y (slotted live cap T) False m blob secret s = mgr_activate Y T False m blob secret s) \<and>
     (\<forall>m nonce is. mgr_quote Y (slotted live cap T) False m nonce is s = mgr_quote Y T False m nonce is s) \<and>
     (\<forall>pt is. mgr_seal_to_pcr Y (slotted live cap T) pt is s = mgr_seal_to_pcr Y T pt is s) \<and>
     (\<forall>b. mgr_unseal Y (slotted live cap T) b s = mgr_unseal Y T b s) \<and>
     mgr_read_ek_cert (slotted live cap T) s = mgr_read_ek_cert T s \<and>
     (\<forall>m. finish_attestation (slotted live cap T) m s = finish_attestation T m s)"
    using room(2) fit [OF fits_begin [OF assms]] fit [OF fits_seal [OF assms]] fit [OF fits_unseal [OF assms]]
    by (simp add: mgr_seal_eq mgr_unseal_eq mgr_read_ek_cert_eq activate_slotted [OF assms room]
        quote_mgr_slotted [where live = live])
qed

lemma agree_sym: "agree live cap Y T U \<Longrightarrow> agree live cap Y U T"
  by (simp add: agree_def)

lemma agreeD:
  assumes "agree live cap Y T U" "finite (live (cx_dev s))" "card (live (cx_dev s)) + 3 \<le> cap"
  shows "begin_attestation Y U False s = begin_attestation Y T False s"
    "mgr_activate Y U False m blob secret s = mgr_activate Y T False m blob secret s"
    "mgr_quote Y U False m nonce indices s = mgr_quote Y T False m nonce indices s"
    "mgr_seal_to_pcr Y U plaintext indices s = mgr_seal_to_pcr Y T plaintext indices s"
    "mgr_unseal Y U sealed s = mgr_unseal Y T sealed s" "mgr_read_ek_cert U s = mgr_read_ek_cert T s"
    "finish_attestation U m s = finish_attestation T m s"
  using spec [OF assms(1) [unfolded agree_def], of s] assms(2,3) by blast+

text \<open>Sessions are parked between the calls, so a reached state has the slots its start had, less
  what was lost.\<close>

lemma mgr_run_room:
  assumes "accounts T live" "saves T" "finite (live (cx_dev s0))" "card (live (cx_dev s0)) + N + 3 \<le> cap"
    "mgr_run Y T False s0 s ms n" "n \<le> N"
  shows "finite (live (cx_dev s))" "card (live (cx_dev s)) + 3 \<le> cap"
proof -
  have "held_all ms = []" using mgr_run_parked [OF assms(2,5)] by (simp add: held_all_def)
  then obtain lost where "finite lost" "card lost \<le> n" "live (cx_dev s) = live (cx_dev s0) \<union> lost"
    using mgr_run_owned [OF assms(1,5)] by (auto simp: owned_def)
  then show "finite (live (cx_dev s))" "card (live (cx_dev s)) + 3 \<le> cap"
    using assms(3,4,6) card_Un_le [of "live (cx_dev s0)" lost] by simp_all
qed

lemma mgr_run_transfer:
  assumes "accounts T live" "saves T" "agree live cap Y T U" "finite (live (cx_dev s0))"
    and "card (live (cx_dev s0)) + N + 3 \<le> cap" "mgr_run Y T False s0 s ms n" "n \<le> N"
  shows "mgr_run Y U False s0 s ms n"
proof -
  note same = agreeD [OF assms(3) mgr_run_room [OF assms(1,2,4,5)]]
  from assms(6,7) show ?thesis
  proof (induction rule: mgr_run.induct)
    case start
    show ?case by (rule mgr_run.start)
  next
    case (begin_ok s ms n m s')
    show ?case by (rule mgr_run.begin_ok [where s = s]) (use begin_ok in \<open>simp_all add: same(1) [OF begin_ok.hyps(1) _ begin_ok.hyps(1)]\<close>)
  next
    case (begin_err s ms n r s')
    show ?case
      by (rule mgr_run.begin_err [where s = s and r = r])
        (use begin_err in \<open>simp_all add: same(1) [OF begin_err.hyps(1) _ begin_err.hyps(1)]\<close>)
  next
    case (activate s xs m ys n blob secret r m' s')
    show ?case
      by (rule mgr_run.activate [where s = s and m = m and blob = blob and secret = secret])
        (use activate in \<open>simp_all add: same(2) [OF activate.hyps(1) _ activate.hyps(1)]\<close>)
  next
    case (quote s xs m ys n nonce indices r m' s')
    show ?case
      by (rule mgr_run.quote [where s = s and m = m and nonce = nonce and indices = indices and r = r])
        (use quote in \<open>simp_all add: same(3) [OF quote.hyps(1) _ quote.hyps(1)]\<close>)
  next
    case (seal s ms n plaintext indices r s')
    show ?case
      by (rule mgr_run.seal [where s = s and plaintext = plaintext and indices = indices])
        (use seal in \<open>simp_all add: same(4) [OF seal.hyps(1) _ seal.hyps(1)]\<close>)
  next
    case (unseal s ms n sealed r s')
    show ?case
      by (rule mgr_run.unseal [where s = s and sealed = sealed]) (use unseal in \<open>simp_all add: same(5) [OF unseal.hyps(1) _ unseal.hyps(1)]\<close>)
  next
    case (read_cert s ms n c s')
    show ?case by (rule mgr_run.read_cert [where s = s and c = c]) (use read_cert in \<open>simp_all add: same(6) [OF read_cert.hyps(1) _ read_cert.hyps(1)]\<close>)
  next
    case (finish s xs m ys n u s')
    show ?case
      by (rule mgr_run.finish [where s = s and m = m and u = u]) (use finish in \<open>simp_all add: same(7) [OF finish.hyps(1) _ finish.hyps(1)]\<close>)
  qed
qed

lemma is_ok_tbind: "is_ok (fst (tbind m f s)) \<longleftrightarrow> (\<exists>a s1. m s = (TOk a, s1) \<and> is_ok (fst (f a s1)))"
  by (cases "m s"; cases "fst (m s)") (auto simp: tbind_def)

section \<open>A device with a bounded number of transient objects\<close>

text \<open>Handles are of two kinds: starting a session returns one of the set \<open>sessions\<close>, creating and
  loading objects return others. Only the objects take slots.\<close>

definition objects_of :: "('d \<Rightarrow> handle set) \<Rightarrow> handle set \<Rightarrow> 'd \<Rightarrow> handle set" where
  "objects_of live sessions d = live d - sessions"

definition kinds :: "('d, 'c) tss \<Rightarrow> handle set \<Rightarrow> bool" where
  "kinds T sessions \<longleftrightarrow>
     (\<forall>hi p d h q d'. create_primary T hi p d = (Inr (h, q), d') \<longrightarrow> h \<notin> sessions) \<and>
     (\<forall>h a p d k d'. tss_load T h a p d = (Inr k, d') \<longrightarrow> k \<notin> sessions) \<and>
     (\<forall>c d h d'. context_load T c d = (Inr h, d') \<longrightarrow> h \<notin> sessions) \<and>
     (\<forall>ty d h d'. start_auth_session T ty d = (Inr (Some h), d') \<longrightarrow> h \<in> sessions)"

definition object_slotted :: "('d \<Rightarrow> handle set) \<Rightarrow> handle set \<Rightarrow> nat \<Rightarrow> ('d, 'c) tss \<Rightarrow> ('d, 'c) tss" where
  "object_slotted live sessions cap T = (slotted (objects_of live sessions) cap T)
     \<lparr>start_auth_session := start_auth_session T\<rparr>"

lemma object_slotted_sel [simp]:
  "create_primary (object_slotted live sessions cap T) = (\<lambda>h p. refuse (objects_of live sessions) cap (create_primary T h p))"
  "tss_create (object_slotted live sessions cap T) = (\<lambda>h p b. refuse (objects_of live sessions) cap (tss_create T h p b))"
  "tss_load (object_slotted live sessions cap T) = (\<lambda>h a p. refuse (objects_of live sessions) cap (tss_load T h a p))"
  "context_load (object_slotted live sessions cap T) = (\<lambda>c. refuse (objects_of live sessions) cap (context_load T c))"
  "start_auth_session (object_slotted live sessions cap T) = start_auth_session T"
  "context_save (object_slotted live sessions cap T) = context_save T"
  by (simp_all add: object_slotted_def)

lemma object_slotted_accounts: "accounts T live \<Longrightarrow> accounts (object_slotted live sessions cap T) live"
  unfolding object_slotted_def by (simp add: accounts_def refuse_law del: split_paired_All)


lemma object_slotted_kinds: "kinds T sessions \<Longrightarrow> kinds (object_slotted live sessions cap T) sessions"
  by (simp add: kinds_def refuse_def)

lemma kindsD:
  assumes "kinds T sessions"
  shows "create_primary T hi p d = (Inr (h, q), d') \<Longrightarrow> h \<notin> sessions" "tss_load T k a p d = (Inr h, d') \<Longrightarrow> h \<notin> sessions"
    "context_load T c d = (Inr h, d') \<Longrightarrow> h \<notin> sessions" "start_auth_session T ty d = (Inr (Some h), d') \<Longrightarrow> h \<in> sessions"
  using assms unfolding kinds_def by blast+

lemma new_object:
  assumes "allocs live key m" "m s = (TOk a, s1)" "key a \<notin> sessions"
  shows "objects_of live sessions (cx_dev s1) = insert (key a) (objects_of live sessions (cx_dev s))"
    "key a \<notin> objects_of live sessions (cx_dev s)"
  using allocsD [OF assms(1,2)] assms(3) by (auto simp: objects_of_def)






section \<open>Properties\<close>

text \<open>C8. Three free slots are enough for the context manager without a resource manager. Take
  a device that accounts for its handles and can save contexts, and bound its slots: as long as
  three are free beside what was loaded at the start and what failed calls lost, the
  manager has exactly the runs it has on the unbounded device, with any number of sessions
  open and any interleaving of its calls. So a call fails for lack of slots only after
  earlier calls have failed.\<close>

theorem managed_runs_fit_three_slots:
  assumes "accounts T live" "saves T" "finite (live (cx_dev s0))" "card (live (cx_dev s0)) + n + 3 \<le> cap"
  shows "mgr_run Y (slotted live cap T) False s0 s ms n \<longleftrightarrow> mgr_run Y T False s0 s ms n"
  using mgr_run_transfer [OF assms(1,2) slotted_agree [OF assms(1)] assms(3,4) _ order_refl]
    mgr_run_transfer [OF slotted_accounts [OF assms(1)] slotted_saves [OF assms(2)]
      agree_sym [OF slotted_agree [OF assms(1)]] assms(3,4) _ order_refl] by blast

lemma last_slot:
  assumes "dev err (refuse (objects_of live sessions) cap op) s = (TOk a, s1)" "adds live key op"
    and "key a \<notin> sessions" "finite (live (cx_dev s))" "cap \<le> Suc (card (objects_of live sessions (cx_dev s)))"
  shows "\<not> card (objects_of live sessions (cx_dev s1)) < cap"
proof -
  have "finite (objects_of live sessions (cx_dev s))" using assms(4) by (simp add: objects_of_def)
  then show ?thesis
    using new_object [OF allocs_dev [OF refuse_law(1) [OF assms(2)]] assms(1,3)] assms(5) by simp
qed

lemma refuse_room: "dev err (refuse used cap op) s = (TOk a, s1) \<Longrightarrow> card (used (cx_dev s)) < cap"
  by (auto simp: dev_def refuse_def split: if_splits)

lemma create_srk_refused:
  assumes "create_srk Y (object_slotted live sessions cap T) s = (TOk h, s1)" "accounts T live" "kinds T sessions"
    and "finite (live (cx_dev s))" "cap \<le> Suc (card (objects_of live sessions (cx_dev s)))"
  shows "\<not> card (objects_of live sessions (cx_dev s1)) < cap"
proof -
  obtain err p q where run: "dev err (refuse (objects_of live sessions) cap (create_primary T Owner p)) s = (TOk (h, q), s1)"
    using assms(1) by (auto simp: create_srk_def tbind_TOk tpure_def split: prod.splits)
  then have "h \<notin> sessions" using kindsD(1) [OF assms(3)] by (auto simp: dev_TOk refuse_def split: if_splits)
  then show ?thesis using last_slot [OF run accounts_adds(2) [OF assms(2)]] assms(4,5) by simp
qed

text \<open>With one free slot no call succeeds that needs two objects at a time.\<close>

lemma one_slot_left:
  assumes "accounts T live" "kinds T sessions" "finite (live (cx_dev s))"
    and "cap \<le> Suc (card (objects_of live sessions (cx_dev s)))"
  shows "\<not> is_ok (fst (begin_attestation Y (object_slotted live sessions cap T) rm s))"
    "\<not> is_ok (fst (mgr_seal_to_pcr Y (object_slotted live sessions cap T) plaintext indices s))"
    "\<not> is_ok (fst (mgr_unseal Y (object_slotted live sessions cap T) sealed s))"
    "held m = [] \<Longrightarrow> \<not> is_ok (fst (mgr_activate Y (object_slotted live sessions cap T) rm m blob secret s))"
proof -
  let ?T = "object_slotted live sessions cap T" and ?objs = "\<lambda>s. objects_of live sessions (cx_dev s)"
  have primary: "\<not> card (?objs s1) < cap"
    if "dev err (refuse (objects_of live sessions) cap (create_primary T hi p)) s = (TOk (h, q), s1)" for err hi p h q s1
    using last_slot [OF that accounts_adds(2) [OF assms(1)]] that kindsD(1) [OF assms(2)] assms(3,4)
    by (auto simp: dev_TOk refuse_def split: if_splits)
  have ctx: "\<not> card (?objs s1) < cap"
    if "dev err (refuse (objects_of live sessions) cap (context_load T c)) s = (TOk h, s1)" for err c h s1
    using last_slot [OF that accounts_adds(4) [OF assms(1)]] that kindsD(3) [OF assms(2)] assms(3,4)
    by (auto simp: dev_TOk refuse_def split: if_splits)
  show "\<not> is_ok (fst (begin_attestation Y ?T rm s))"
    by (auto simp: begin_attestation_def is_ok_tbind of_res_def dest: primary refuse_room split: prod.splits sum.splits)
  show "\<not> is_ok (fst (mgr_unseal Y ?T sealed s))"
    unfolding mgr_unseal_eq using create_srk_refused [OF _ assms, of Y]
    by (auto simp: unseal_in_def is_ok_tbind of_res_def dest: refuse_room split: sum.splits)
  have "\<not> card (?objs s2) < cap"
    if "compute_pcr_policy_digest ?T sel s = (TOk g, s1)" "create_srk Y ?T s1 = (TOk h, s2)" for sel g s1 h s2
  proof -
    have "live (cx_dev s1) = live (cx_dev s)"
      using freesD [OF policy_digest_frees [OF object_slotted_accounts [OF assms(1)]] empty_subsetI that(1)] by (simp add: freed_def)
    then show ?thesis using create_srk_refused [OF that(2) assms(1,2)] assms(3,4) by (simp add: objects_of_def)
  qed
  then show "\<not> is_ok (fst (mgr_seal_to_pcr Y ?T plaintext indices s))"
    unfolding mgr_seal_eq
    by (auto simp: seal_in_def is_ok_tbind of_res_def dest: refuse_room split: sum.splits)
  show "\<not> is_ok (fst (mgr_activate Y ?T rm m blob secret s))" if parked: "held m = []"
  proof -
    obtain c c' where m: "ms_ak_state m = Saved c" "ms_ek_state m = Saved c'"
      using parked by (cases "ms_ak_state m"; cases "ms_ek_state m") (auto simp: held_def)
    show ?thesis
      by (auto simp: mgr_activate_def activate_inner_def m ensure_loaded_def Let_def dest: ctx refuse_room split: prod.splits tres.splits)
  qed
qed

lemma session_objects:
  assumes "accounts T live" "kinds T sessions" "begin_session Y T s = (TOk a, s1)"
  shows "as_ak_handle a \<noteq> as_ek_handle a" "{as_ak_handle a, as_ek_handle a} \<inter> live (cx_dev s) = {}"
    "live (cx_dev s1) = live (cx_dev s) \<union> {as_ak_handle a, as_ek_handle a}" "{as_ak_handle a, as_ek_handle a} \<inter> sessions = {}"
proof -
  show "as_ak_handle a \<noteq> as_ek_handle a" "{as_ak_handle a, as_ek_handle a} \<inter> live (cx_dev s) = {}"
    "live (cx_dev s1) = live (cx_dev s) \<union> {as_ak_handle a, as_ek_handle a}"
    using freesD [OF begin_session_frees [OF assms(1)] _ assms(3)] by (auto simp: freed_def)
  show "{as_ak_handle a, as_ek_handle a} \<inter> sessions = {}"
    using assms(3) kindsD(1) [OF assms(2)]
    by (auto simp: begin_session_def tbind_TOk dev_TOk tpure_def split: prod.splits)
qed

text \<open>C29. The failure the manager exists to avoid. On a device with at most three free slots for
  objects, a begun \<open>AttestationSession\<close> holds two of them, and sealing or unsealing beside it
  cannot succeed, although sessions have slots of their own.\<close>

theorem session_starves_sealing:
  assumes "accounts T live" "kinds T sessions" "finite (live (cx_dev s))"
    and "cap \<le> card (objects_of live sessions (cx_dev s)) + 3"
    and "begin_session Y (object_slotted live sessions cap T) s = (TOk a, s1)"
  shows "\<not> is_ok (fst (seal_in Y (object_slotted live sessions cap T) plaintext indices s1)) \<and>
    \<not> is_ok (fst (unseal_in Y (object_slotted live sessions cap T) sealed s1))"
proof -
  note two = session_objects [OF object_slotted_accounts [OF assms(1)] object_slotted_kinds [OF assms(2)] assms(5)]
  have "objects_of live sessions (cx_dev s1) = {as_ak_handle a, as_ek_handle a} \<union> objects_of live sessions (cx_dev s)"
    using two by (auto simp: objects_of_def)
  moreover have "{as_ak_handle a, as_ek_handle a} \<inter> objects_of live sessions (cx_dev s) = {}" "finite (objects_of live sessions (cx_dev s))"
    using two(2) assms(3) by (auto simp: objects_of_def)
  ultimately have "cap \<le> Suc (card (objects_of live sessions (cx_dev s1)))" using two(1) assms(4) by simp
  moreover have "finite (live (cx_dev s1))" using two(3) assms(3) by simp
  ultimately show ?thesis using one_slot_left(2,3) [OF assms(1,2)] by (simp add: mgr_seal_eq mgr_unseal_eq)
qed


text \<open>On the simulated device with four slots, one of them taken: the manager seals with a
  session open.\<close>

lemmas slotted_run = sim_run slotted_def refuse_def seal_in_def compute_pcr_policy_digest_def
  sealed_object_template_def

theorem managed_runs_fit_three_slots_witness:
  "\<exists>m s. mgr_run plain_types (slotted set 4 (sim True)) False sim_context s [m] 0 \<and> is_ok (fst
     (mgr_seal_to_pcr plain_types (slotted set 4 (sim True)) [1, 2] [0, 7] s))"
proof -
  obtain m where b: "begin_attestation plain_types (sim True) False sim_context = (TOk m, sim_context)"
    using sim_managed [of False] by (auto simp: sim_context_def)
  have "mgr_run plain_types (sim True) False sim_context sim_context [m] 0"
    by (rule mgr_run.begin_ok [OF mgr_run.start b])
  then have "mgr_run plain_types (slotted set 4 (sim True)) False sim_context sim_context [m] 0"
    by (subst managed_runs_fit_three_slots [OF sim_accounts sim_saves]) (simp_all add: sim_context_def)
  moreover have "is_ok (fst (mgr_seal_to_pcr plain_types (slotted set 4 (sim True)) [1, 2] [0, 7] sim_context))"
    by (simp add: mgr_seal_eq slotted_run)
  ultimately show ?thesis by blast
qed

text \<open>A device whose sessions have odd and whose objects have even handles.\<close>

definition kind_add :: "nat \<Rightarrow> (handle \<Rightarrow> 'r) \<Rightarrow> handle list \<Rightarrow> (string + 'r) \<times> handle list" where
  "kind_add k res d = (Inr (res (2 * fresh d + k)), (2 * fresh d + k) # d)"

definition kind_sim :: "bool \<Rightarrow> (handle list, handle) tss" where
  "kind_sim grant = (sim grant)
     \<lparr>load_external_public := \<lambda>_ _. kind_add 0 (\<lambda>h. h), create_primary := \<lambda>_ p. kind_add 0 (\<lambda>h. (h, p)),
      tss_load := \<lambda>_ _ _. kind_add 0 (\<lambda>h. h), context_load := \<lambda>_. kind_add 0 (\<lambda>h. h),
      start_auth_session := \<lambda>_. kind_add 1 Some\<rparr>"

lemma kind_fresh: "2 * fresh d + k \<notin> set d"
proof -
  have "h \<le> foldr max d 0" if "h \<in> set d" for h
    using that by (induction d) auto
  moreover have "foldr max d 0 < 2 * fresh d + k" by (simp add: fresh_def)
  ultimately show ?thesis by fastforce
qed

lemma kind_adds: "adds set key (kind_add k res)" if "\<And>h. key (res h) = h"
  using that kind_fresh by (simp add: adds_def kind_add_def)

lemma kind_starts: "starts set (kind_add k Some)"
  using kind_fresh by (simp add: starts_def kind_add_def)

lemma kind_sim_laws: "accounts (kind_sim grant) set" "saves (kind_sim grant)" "kinds (kind_sim grant) {h. odd h}"
proof -
  show "accounts (kind_sim grant) set"
    unfolding accounts_def kind_sim_def sim_def
    by (simp add: kind_adds kind_starts) (simp add: keeps_def set_minus_filter_out)
  show "saves (kind_sim grant)" by (simp add: saves_def kind_sim_def sim_def)
  show "kinds (kind_sim grant) {h. odd h}" by (auto simp: kinds_def kind_sim_def kind_add_def)
qed

lemma kind_begin:
  "\<exists>a. begin_session plain_types (object_slotted set {h. odd h} 3 (kind_sim True)) \<lparr>cx_dev = [], cx_sessions = NO_SESSIONS\<rparr> =
     (TOk a, \<lparr>cx_dev = [6, 2], cx_sessions = NO_SESSIONS\<rparr>)"
proof -
  obtain spki where "rsa_public_to_spki (replicate 256 0) 65537 = Returns spki"
    by (rule spki_returns [of "replicate 256 0" 65537]) auto
  then show ?thesis
    by (simp add: begin_session_def ek_template_def ak_template_def of_out_def slotted_run object_slotted_def objects_of_def
        kind_sim_def kind_add_def insert_Diff_if)
qed

theorem session_starves_sealing_witness:
  "\<exists>a s1. begin_session plain_types (object_slotted set {h. odd h} 3 (kind_sim True)) \<lparr>cx_dev = [], cx_sessions = NO_SESSIONS\<rparr> =
       (TOk a, s1) \<and>
     \<not> is_ok (fst (seal_in plain_types (object_slotted set {h. odd h} 3 (kind_sim True)) [1, 2] [0, 7] s1))"
proof -
  obtain a s1 where b: "begin_session plain_types (object_slotted set {h. odd h} 3 (kind_sim True))
      \<lparr>cx_dev = [], cx_sessions = NO_SESSIONS\<rparr> = (TOk a, s1)"
    using kind_begin by blast
  from session_starves_sealing [OF kind_sim_laws(1,3) _ _ b] b show ?thesis by auto
qed



end
