(* ===== verification/Tpm_Keys.thy ===== *)
theory Tpm_Keys
  imports Tpm_Manager
begin

text \<open>
  Which keys a managed session works with. The manager saves the keys of its sessions,
  flushes them and loads them again under new handles; this theory follows the key objects
  through that: in every run each open session still has the two keys it was begun with,
  the ones whose public parts it reports, and quotes and activates with these.
\<close>

section \<open>Device contract\<close>

text \<open>
  Documented behaviour of the device, for the object \<open>obj d h\<close> that a loaded handle stands
  for and the object \<open>img c\<close> in a saved context: no operation changes the object of another
  loaded handle; a primary key is created with the public part that is returned; a saved
  context holds the object it was saved from, and loading it gives that object a handle.
\<close>

definition still :: "('d \<Rightarrow> handle set) \<Rightarrow> ('d \<Rightarrow> handle \<Rightarrow> 'k) \<Rightarrow> ('d \<Rightarrow> 'r \<times> 'd) \<Rightarrow> bool" where
  "still live obj op \<longleftrightarrow> (\<forall>d. \<forall>h \<in> live d. obj (snd (op d)) h = obj d h)"

definition stores ::
    "('d, 'c) tss \<Rightarrow> ('d \<Rightarrow> handle set) \<Rightarrow> ('d \<Rightarrow> handle \<Rightarrow> 'k) \<Rightarrow> ('c \<Rightarrow> 'k) \<Rightarrow> ('k \<Rightarrow> tpm_public) \<Rightarrow> bool" where
  "stores T live obj img pub \<longleftrightarrow>
     (\<forall>p h. still live obj (load_external_public T p h)) \<and> (\<forall>h p. still live obj (create_primary T h p)) \<and>
     (\<forall>h a p. still live obj (tss_load T h a p)) \<and> (\<forall>c. still live obj (context_load T c)) \<and>
     (\<forall>ty. still live obj (start_auth_session T ty)) \<and>
     (\<forall>h a b. still live obj (tss_make_credential T h a b)) \<and> (\<forall>i. still live obj (get_capability T i)) \<and>
     (\<forall>i. still live obj (tr_from_tpm_public T i)) \<and> (\<forall>h a b. still live obj (nv_read T h a b)) \<and>
     (\<forall>h. still live obj (policy_secret T h)) \<and> (\<forall>ss a b c e. still live obj (activate_credential T ss a b c e)) \<and>
     (\<forall>h a b. still live obj (tss_quote T h a b)) \<and> (\<forall>sel. still live obj (pcr_read T sel)) \<and>
     (\<forall>h sel. still live obj (policy_pcr T h sel)) \<and> (\<forall>h. still live obj (policy_get_digest T h)) \<and>
     (\<forall>h p b. still live obj (tss_create T h p b)) \<and> (\<forall>ss h. still live obj (tss_unseal T ss h)) \<and>
     (\<forall>h. still live obj (context_save T h)) \<and>
     (\<forall>k d. \<forall>h \<in> live d - {k}. obj (snd (flush_context T k d)) h = obj d h) \<and>
     (\<forall>hi p d h out d'. create_primary T hi p d = (Inr (h, out), d') \<longrightarrow> pub (obj d' h) = out) \<and>
     (\<forall>h d c d'. context_save T h d = (Inr c, d') \<longrightarrow> img c = obj d h) \<and>
     (\<forall>c d h d'. context_load T c d = (Inr h, d') \<longrightarrow> obj d' h = img c)"

section \<open>Calm computations\<close>

text \<open>Every handle loaded before, except those in \<open>H\<close>, is still loaded and stands for the same
  object.\<close>

definition calm :: "('d \<Rightarrow> handle set) \<Rightarrow> ('d \<Rightarrow> handle \<Rightarrow> 'k) \<Rightarrow> handle set \<Rightarrow> 'd \<Rightarrow> 'd \<Rightarrow> bool" where
  "calm live obj H d d' \<longleftrightarrow> (\<forall>h \<in> live d - H. h \<in> live d' \<and> obj d' h = obj d h)"

definition calmly :: "('d \<Rightarrow> handle set) \<Rightarrow> ('d \<Rightarrow> handle \<Rightarrow> 'k) \<Rightarrow> handle set \<Rightarrow> ('d, 'a) tpm \<Rightarrow> bool" where
  "calmly live obj H m \<longleftrightarrow> (\<forall>s. calm live obj H (cx_dev s) (cx_dev (snd (m s))))"

named_theorems calm_intros \<open>computations that leave the objects of others alone\<close>

lemma calm_refl [simp]: "calm live obj H d d"
  by (simp add: calm_def)

lemma calm_trans: "calm live obj H d d1 \<Longrightarrow> calm live obj H d1 d2 \<Longrightarrow> calm live obj H d d2"
  by (auto simp: calm_def)

lemma calm_mono: "calm live obj H d d' \<Longrightarrow> H \<subseteq> H' \<Longrightarrow> calm live obj H' d d'"
  by (auto simp: calm_def)

text \<open>Handles that were not loaded at the start do not matter.\<close>

lemma calm_fresh: "calm live obj H' d d' \<Longrightarrow> H' \<inter> live d \<subseteq> H \<Longrightarrow> calm live obj H d d'"
  by (auto simp: calm_def)

lemma calm_chain:
  assumes "calm live obj H d d1" "calm live obj H1 d1 d2" "H1 \<inter> live d \<subseteq> H"
  shows "calm live obj H d d2"
  unfolding calm_def
proof
  fix h assume h: "h \<in> live d - H"
  then have "h \<in> live d1 - H1" "obj d1 h = obj d h" using assms(1,3) by (auto simp: calm_def)
  then show "h \<in> live d2 \<and> obj d2 h = obj d h" using assms(2) by (simp add: calm_def)
qed

lemma calmlyD: "calmly live obj H m \<Longrightarrow> m s = (r, s') \<Longrightarrow> calm live obj H (cx_dev s) (cx_dev s')"
  unfolding calmly_def by (metis snd_conv)

lemma calmly_basic [calm_intros]:
  "calmly live obj H (tpure a)" "calmly live obj H (of_res r)" "calmly live obj H (of_out x)"
  "calmly live obj H (set_sessions ss)"
  by (simp_all add: calmly_def tpure_def of_res_def of_out_def set_sessions_def)

lemma calmly_tbind:
  assumes "calmly live obj H m" "\<And>a. calmly live obj H (f a)"
  shows "calmly live obj H (tbind m f)"
  unfolding calmly_def
proof
  fix s
  obtain r s' where run: "tbind m f s = (r, s')" by fastforce
  then show "calm live obj H (cx_dev s) (cx_dev (snd (tbind m f s)))"
  proof (cases rule: tbind_cases)
    case (1 a s1)
    then show ?thesis using calm_trans calmlyD [OF assms(1) 1(1)] calmlyD [OF assms(2) 1(2)] run by fastforce
  qed (use calmlyD [OF assms(1)] run in auto)
qed

text \<open>What a computation allocates it may flush.\<close>

lemma calmly_alloc:
  assumes "allocs live key m" "calmly live obj H m" "\<And>a. calmly live obj (insert (key a) H) (f a)"
  shows "calmly live obj H (tbind m f)"
  unfolding calmly_def
proof
  fix s
  obtain r s' where run: "tbind m f s = (r, s')" by fastforce
  then show "calm live obj H (cx_dev s) (cx_dev (snd (tbind m f s)))"
  proof (cases rule: tbind_cases)
    case (1 a s1)
    have "calm live obj (insert (key a) H) (cx_dev s) (cx_dev s')"
      using calm_trans [OF calm_mono [OF calmlyD [OF assms(2) 1(1)]] calmlyD [OF assms(3) 1(2)]] by blast
    then show ?thesis using allocsD [OF assms(1) 1(1)] run by (auto intro: calm_fresh)
  qed (use calmlyD [OF assms(2)] run in auto)
qed

lemma calmly_dev:
  assumes "still live obj op" "\<And>d. live d \<subseteq> live (snd (op d))"
  shows "calmly live obj H (dev err op)"
  unfolding calmly_def
proof
  fix s
  have "cx_dev (snd (dev err op s)) = snd (op (cx_dev s))" by (auto simp: dev_def split: prod.splits sum.splits)
  then show "calm live obj H (cx_dev s) (cx_dev (snd (dev err op s)))"
    using assms by (auto simp: calm_def still_def)
qed

lemma calmly_pair [calm_intros]: "(\<And>a b. p = (a, b) \<Longrightarrow> calmly live obj H (f a b)) \<Longrightarrow> calmly live obj H (case_prod f p)"
  by (cases p) simp

lemma calmly_if [calm_intros]: "calmly live obj H a \<Longrightarrow> calmly live obj H b \<Longrightarrow> calmly live obj H (if c then a else b)"
  by simp

lemma calmly_or_none: "calmly live obj H m \<Longrightarrow> calmly live obj H (or_none m)"
  unfolding calmly_def or_none_def by (auto split: prod.splits tres.splits) (metis snd_conv)+

text \<open>The device laws as rules.\<close>

lemma grows:
  "adds live key op \<Longrightarrow> live d \<subseteq> live (snd (op d))" "keeps live op' \<Longrightarrow> live d \<subseteq> live (snd (op' d))"
  "starts live op'' \<Longrightarrow> live d \<subseteq> live (snd (op'' d))"
  by (auto simp: adds_def keeps_def starts_def split: sum.splits option.splits) (metis insertCI sum.exhaust option.exhaust)+

lemma stores_still:
  assumes "stores T live obj img pub"
  shows "still live obj (load_external_public T p hi)" "still live obj (create_primary T hi p)"
    "still live obj (tss_load T h a p)" "still live obj (context_load T c)" "still live obj (start_auth_session T ty)"
    "still live obj (tss_make_credential T h a b)" "still live obj (get_capability T i)"
    "still live obj (tr_from_tpm_public T i)" "still live obj (nv_read T h x y)" "still live obj (policy_secret T h)"
    "still live obj (activate_credential T ss h h' a b)" "still live obj (tss_quote T h a sel)"
    "still live obj (pcr_read T sel)" "still live obj (policy_pcr T h sel)" "still live obj (policy_get_digest T h)"
    "still live obj (tss_create T h p a)" "still live obj (tss_unseal T ss h)" "still live obj (context_save T h)"
  using assms by (simp_all add: stores_def del: split_paired_All)

lemma calmly_law:
  "adds live key op \<Longrightarrow> still live obj op \<Longrightarrow> calmly live obj H (dev err op)"
  "keeps live op' \<Longrightarrow> still live obj op' \<Longrightarrow> calmly live obj H (dev err op')"
  "starts live op'' \<Longrightarrow> still live obj op'' \<Longrightarrow> calmly live obj H (dev err op'')"
  using grows(1) [of live key op] grows(2) [of live op'] grows(3) [of live op''] by (simp_all add: calmly_dev)

lemmas calmly_new = calmly_law(1) [OF accounts_adds(1) stores_still(1)] calmly_law(1) [OF accounts_adds(2) stores_still(2)]
  calmly_law(1) [OF accounts_adds(3) stores_still(3)] calmly_law(1) [OF accounts_adds(4) stores_still(4)]

lemmas calmly_call [calm_intros] =
  calmly_law(2) [OF accounts_keeps(1) stores_still(6)] calmly_law(2) [OF accounts_keeps(2) stores_still(7)]
  calmly_law(2) [OF accounts_keeps(3) stores_still(8)] calmly_law(2) [OF accounts_keeps(4) stores_still(9)]
  calmly_law(2) [OF accounts_keeps(5) stores_still(10)] calmly_law(2) [OF accounts_keeps(7) stores_still(12)]
  calmly_law(2) [OF accounts_keeps(8) stores_still(13)] calmly_law(2) [OF accounts_keeps(9) stores_still(14)]
  calmly_law(2) [OF accounts_keeps(10) stores_still(15)] calmly_law(2) [OF accounts_keeps(11) stores_still(16)]
  calmly_law(2) [OF accounts_keeps(13) stores_still(18)]

lemma calmly_authorized [calm_intros]:
  assumes "accounts T live" "stores T live obj img pub"
  shows "calmly live obj H (dev_auth err (\<lambda>ss. activate_credential T ss h h' b c))"
    "calmly live obj H (dev_auth err' (\<lambda>ss. tss_unseal T ss h))"
  using calmly_law(2) [OF accounts_keeps(6) stores_still(11), OF assms, of H err]
    calmly_law(2) [OF accounts_keeps(12) stores_still(17), OF assms, of H err']
  unfolding calmly_def dev_auth_def by auto

lemma storesD:
  assumes "stores T live obj img pub"
  shows "h \<in> live d - {k} \<Longrightarrow> obj (snd (flush_context T k d)) h = obj d h"
    "create_primary T hi p d = (Inr (h, out), d') \<Longrightarrow> pub (obj d' h) = out"
    "context_save T h d = (Inr c, d') \<Longrightarrow> img c = obj d h" "context_load T c d = (Inr h, d') \<Longrightarrow> obj d' h = img c"
  using assms unfolding stores_def by blast+

lemma calmly_flush:
  assumes "accounts T live" "stores T live obj img pub" "k \<in> H"
  shows "calmly live obj H (flush T k)"
proof -
  have "cx_dev (snd (flush T k s)) = snd (flush_context T k (cx_dev s))" for s by (simp add: flush_def)
  moreover have "obj (snd (flush_context T k d)) h = obj d h" if "h \<in> live d" "h \<notin> H" for h d
    using storesD(1) [OF assms(2), of h d k] assms(3) that by auto
  ultimately show ?thesis using assms(3) accounts_flush [OF assms(1)] by (auto simp: calmly_def calm_def)
qed

text \<open>Sequences: a new handle may be flushed later, everything else may not.\<close>

lemmas calm_seq [calm_intros] = calmly_basic [THEN calmly_tbind] calmly_call [THEN calmly_tbind]
  calmly_authorized [THEN calmly_tbind] calmly_flush [THEN calmly_tbind]
lemmas calm_new [calm_intros] =
  calmly_alloc [OF accounts_adds(1) [THEN allocs_dev] calmly_new(1)] calmly_alloc [OF accounts_adds(2) [THEN allocs_dev] calmly_new(2)]
  calmly_alloc [OF accounts_adds(3) [THEN allocs_dev] calmly_new(3)] calmly_alloc [OF accounts_adds(4) [THEN allocs_dev] calmly_new(4)]

lemma calm_start [calm_intros]:
  assumes "accounts T live" "stores T live obj img pub" "\<And>a. calmly live obj (insert a H) (f a)"
  shows "calmly live obj H (tbind (tbind (dev err (start_auth_session T ty)) (\<lambda>x. of_res (ok_or e x))) f)"
  by (rule calmly_alloc [OF allocs_start [OF accounts_adds(5) [OF assms(1)]] _ assms(3)])
    (intro calmly_tbind calmly_basic calmly_law(3) [OF accounts_adds(5) [OF assms(1)] stores_still(5) [OF assms(2)]])

lemma calm_conv [calm_intros]: "calmly live obj H (f a) \<Longrightarrow> calmly live obj H (tbind (of_res (conv r err a)) f)"
  by (cases r) (auto simp: conv_def calmly_def tbind_def of_res_def)

lemma activate_with_calm:
  "accounts T live \<Longrightarrow> stores T live obj img pub \<Longrightarrow> calmly live obj {} (activate_with Y T ak ek b c)"
  unfolding activate_with_def start_fold by (intro calm_intros) auto

lemma read_pcr_values_calm [calm_intros]:
  "accounts T live \<Longrightarrow> stores T live obj img pub \<Longrightarrow> calmly live obj H (read_pcr_values Y T is)"
  unfolding read_pcr_values_def by (intro calm_intros)

lemmas calm_read [calm_intros] = read_pcr_values_calm [THEN calmly_tbind]

lemma quote_with_calm:
  "accounts T live \<Longrightarrow> stores T live obj img pub \<Longrightarrow> calmly live obj {} (quote_with Y T h a is)"
  unfolding quote_with_def by (intro calm_intros)

lemma read_ek_cert_calm:
  "accounts T live \<Longrightarrow> stores T live obj img pub \<Longrightarrow> calmly live obj {} (read_ek_cert T)"
  unfolding read_ek_cert_def by (intro calm_intros calmly_or_none)

lemma create_srk_calm:
  "accounts T live \<Longrightarrow> stores T live obj img pub \<Longrightarrow> calmly live obj H (create_srk Y T)"
  unfolding create_srk_def by (intro calm_intros)

lemmas calm_srk [calm_intros] = calmly_alloc [OF create_srk_allocs create_srk_calm]

lemma policy_digest_calm:
  "accounts T live \<Longrightarrow> stores T live obj img pub \<Longrightarrow> calmly live obj H (compute_pcr_policy_digest T sel)"
  unfolding compute_pcr_policy_digest_def start_fold by (intro calm_intros) auto

lemmas calm_digest [calm_intros] = policy_digest_calm [THEN calmly_tbind]

lemma seal_in_calm: "accounts T live \<Longrightarrow> stores T live obj img pub \<Longrightarrow> calmly live obj {} (seal_in Y T pt is)"
  unfolding seal_in_def by (intro calm_intros) auto

lemma unseal_in_calm: "accounts T live \<Longrightarrow> stores T live obj img pub \<Longrightarrow> calmly live obj {} (unseal_in Y T b)"
  unfolding unseal_in_def start_fold by (intro calm_intros) auto

lemma begin_attestation_calm:
  "accounts T live \<Longrightarrow> stores T live obj img pub \<Longrightarrow> calmly live obj {} (begin_attestation Y T rm)"
  unfolding begin_attestation_def park_def tbind_assoc tbind_simps by (intro calm_intros) auto

section \<open>The keys of a session\<close>

definition key_of :: "('d \<Rightarrow> handle \<Rightarrow> 'k) \<Rightarrow> ('c \<Rightarrow> 'k) \<Rightarrow> 'd \<Rightarrow> 'c key_state \<Rightarrow> 'k" where
  "key_of obj img d st = (case st of Live h \<Rightarrow> obj d h | Saved c \<Rightarrow> img c)"

text \<open>The two keys are the ones whose public parts the session reports.\<close>

definition presents ::
    "('d, 'c) tss \<Rightarrow> ('k \<Rightarrow> tpm_public) \<Rightarrow> 'c managed_session \<Rightarrow> 'k \<Rightarrow> 'k \<Rightarrow> bool" where
  "presents T pub m ak ek \<longleftrightarrow> marshall_public T (pub ak) = Inr (ms_ak_pub m) \<and>
     (\<exists>modulus ex. extract_rsa_public (pub ek) = Inr (modulus, ex) \<and>
        rsa_public_to_spki modulus ex = Returns (ms_ek_spki m))"

lemma key_of_calm:
  "calm live obj H d d' \<Longrightarrow> set (held_state st) \<subseteq> live d - H \<Longrightarrow> key_of obj img d' st = key_of obj img d st"
  by (cases st) (auto simp: calm_def key_of_def)

declare of_out_TOk [simp]

lemma tpure_TOk [simp]: "tpure a s = (TOk b, s') \<longleftrightarrow> a = b \<and> s = s'"
  by (simp add: tpure_def)

text \<open>Parking replaces a loaded key by a context that holds it.\<close>

lemma park_keeps_key:
  assumes "accounts T live" "stores T live obj img pub" "park T msg h s = (TOk st, s')"
  shows "key_of obj img d st = obj (cx_dev s) h" "calm live obj {h} (cx_dev s) (cx_dev s')" "held_state st = []"
proof -
  have "calmly live obj {h} (park T msg h)" unfolding park_def using assms(1,2) by (intro calm_intros) auto
  then show "calm live obj {h} (cx_dev s) (cx_dev s')" using assms(3) by (rule calmlyD)
  show "key_of obj img d st = obj (cx_dev s) h" "held_state st = []"
    using assms(3) storesD(3) [OF assms(2)] by (auto simp: park_def tbind_TOk dev_TOk key_of_def)
qed

lemma created_key:
  assumes "accounts T live" "stores T live obj img pub" "dev err (create_primary T hi p) s = (TOk (h, out), s')"
  shows "pub (obj (cx_dev s') h) = out" "h \<notin> live (cx_dev s)" "live (cx_dev s') = insert h (live (cx_dev s))"
    "calm live obj {} (cx_dev s) (cx_dev s')"
  using assms(3) storesD(2) [OF assms(2)] allocsD [OF allocs_dev [OF accounts_adds(2) [OF assms(1)]] assms(3)]
    calmlyD [OF calmly_new(2) [OF assms(1,2)] assms(3)]
  by (auto simp: dev_TOk)

lemma begin_presents:
  assumes "accounts T live" "stores T live obj img pub" "begin_attestation Y T rm s = (TOk m, s')"
  shows "presents T pub m (key_of obj img (cx_dev s') (ms_ak_state m)) (key_of obj img (cx_dev s') (ms_ek_state m))"
proof -
  obtain p q ek eo s1 ak ao s2 n x where
    e: "dev (esapi ''create EK primary failed: '') (create_primary T Endorsement p) s = (TOk (ek, eo), s1)" and
    a: "dev (esapi ''create AK primary failed: '') (create_primary T Endorsement q) s1 = (TOk (ak, ao), s2)" and
    out: "marshall_public T ao = Inr (ms_ak_pub m)" "extract_rsa_public eo = Inr (n, x)"
      "rsa_public_to_spki n x = Returns (ms_ek_spki m)" and
    rest: "rm \<and> ms_ek_state m = Live ek \<and> ms_ak_state m = Live ak \<and> s' = s2 \<or>
      (\<exists>s3. park T ''save EK context: '' ek s2 = (TOk (ms_ek_state m), s3) \<and>
        park T ''save AK context: '' ak s3 = (TOk (ms_ak_state m), s'))"
    using assms(3)
    by (fastforce simp: begin_attestation_def tbind_TOk map_err_Inr split: prod.split_asm if_split_asm)
  note ke = created_key [OF assms(1,2) e] and ka = created_key [OF assms(1,2) a]
  have keys: "pub (obj (cx_dev s2) ek) = eo" "pub (obj (cx_dev s2) ak) = ao" "ek \<noteq> ak" "ek \<in> live (cx_dev s2)" "ak \<in> live (cx_dev s2)"
    using ke ka by (auto simp: calm_def)
  show ?thesis
    using rest
  proof
    assume "rm \<and> ms_ek_state m = Live ek \<and> ms_ak_state m = Live ak \<and> s' = s2"
    then show ?thesis using keys out by (simp add: presents_def key_of_def)
  next
    assume "\<exists>s3. park T ''save EK context: '' ek s2 = (TOk (ms_ek_state m), s3) \<and>
        park T ''save AK context: '' ak s3 = (TOk (ms_ak_state m), s')"
    then obtain s3 where "park T ''save EK context: '' ek s2 = (TOk (ms_ek_state m), s3)"
      and ak: "park T ''save AK context: '' ak s3 = (TOk (ms_ak_state m), s')" by blast
    note ek = park_keeps_key [OF assms(1,2) this(1)]
    have "obj (cx_dev s3) ak = obj (cx_dev s2) ak" using ek(2) keys by (simp add: calm_def)
    then show ?thesis using keys out by (simp add: presents_def ek(1) park_keeps_key(1) [OF assms(1,2) ak])
  qed
qed

section \<open>Loading and saving\<close>

text \<open>The two key states of a session, with different handles loaded in the device.\<close>

definition apart :: "('d \<Rightarrow> handle set) \<Rightarrow> 'd \<Rightarrow> 'c key_state \<Rightarrow> 'c key_state \<Rightarrow> bool" where
  "apart live d st st' \<longleftrightarrow> distinct (held_state st @ held_state st') \<and> set (held_state st @ held_state st') \<subseteq> live d"

text \<open>A step on one key state keeps both keys, and disturbs at most the handle of the first.\<close>

definition keeps_keys ::
    "('d \<Rightarrow> handle set) \<Rightarrow> ('d \<Rightarrow> handle \<Rightarrow> 'k) \<Rightarrow> ('c \<Rightarrow> 'k) \<Rightarrow> 'c key_state \<Rightarrow> 'c key_state \<Rightarrow> 'd \<Rightarrow> 'c key_state \<Rightarrow> 'c key_state \<Rightarrow> 'd \<Rightarrow> bool" where
  "keeps_keys live obj img st other d st' other' d' \<longleftrightarrow> apart live d' st' other' \<and>
     key_of obj img d' st' = key_of obj img d st \<and> key_of obj img d' other' = key_of obj img d other \<and>
     calm live obj (set (held_state st @ held_state other)) d d' \<and>
     set (held_state st' @ held_state other') \<inter> live d \<subseteq> set (held_state st @ held_state other)"

lemma keeps_keys_trans:
  assumes "keeps_keys live obj img a b d a1 b1 d1" "keeps_keys live obj img a1 b1 d1 a2 b2 d2"
  shows "keeps_keys live obj img a b d a2 b2 d2"
proof -
  let ?H = "set (held_state a @ held_state b)" and ?H1 = "set (held_state a1 @ held_state b1)"
    and ?H2 = "set (held_state a2 @ held_state b2)"
  have c: "calm live obj ?H d d1" "calm live obj ?H1 d1 d2" "?H1 \<inter> live d \<subseteq> ?H" "?H2 \<inter> live d1 \<subseteq> ?H1"
    using assms unfolding keeps_keys_def by blast+
  have "calm live obj ?H d d2" using calm_chain [OF c(1-3)] .
  moreover have "?H2 \<inter> live d \<subseteq> ?H" using c unfolding calm_def by blast
  ultimately show ?thesis using assms unfolding keeps_keys_def by auto
qed

lemma keeps_keys_swap: "keeps_keys live obj img a b d a1 b1 d1 \<Longrightarrow> keeps_keys live obj img b a d b1 a1 d1"
  by (auto simp: keeps_keys_def apart_def Un_commute)

lemma keeps_keys_call:
  assumes "apart live d a b" "calm live obj {} d d'"
  shows "keeps_keys live obj img a b d a b d'"
proof -
  have "calm live obj (set (held_state a @ held_state b)) d d'" using assms(2) by (rule calm_mono) simp
  moreover have "key_of obj img d' a = key_of obj img d a" "key_of obj img d' b = key_of obj img d b"
    using assms by (auto simp: apart_def intro!: key_of_calm [OF assms(2)])
  moreover have "apart live d' a b" using assms by (auto simp: apart_def calm_def)
  ultimately show ?thesis by (simp add: keeps_keys_def)
qed

lemma load_keeps_keys:
  assumes "accounts T live" "stores T live obj img pub" "ensure_loaded T st s = (r, st', s')" "apart live (cx_dev s) st other"
  shows "keeps_keys live obj img st other (cx_dev s) st' other (cx_dev s')" "r = TOk h \<Longrightarrow> st' = Live h"
proof -
  show "r = TOk h \<Longrightarrow> st' = Live h"
    using assms(3) by (auto simp: ensure_loaded_def split: key_state.splits prod.splits tres.splits)
  show "keeps_keys live obj img st other (cx_dev s) st' other (cx_dev s')"
  proof (cases st)
    case (Live k)
    then show ?thesis using assms(3,4) by (auto simp: ensure_loaded_def intro!: keeps_keys_call)
  next
    case (Saved c)
    obtain r1 s1 where run: "dev (esapi ''context_load failed: '') (context_load T c) s = (r1, s1)" by fastforce
    have calm: "calm live obj {} (cx_dev s) (cx_dev s1)" by (rule calmlyD [OF calmly_new(4) [OF assms(1,2)] run])
    note call = keeps_keys_call [OF assms(4) calm, of img]
    show ?thesis
    proof (cases r1)
      case (TOk k)
      have new: "k \<notin> live (cx_dev s)" "live (cx_dev s1) = insert k (live (cx_dev s))" "obj (cx_dev s1) k = img c"
        using allocsD [OF allocs_dev [OF accounts_adds(4) [OF assms(1)]], of _ c s k s1] run TOk storesD(4) [OF assms(2)]
        by (auto simp: dev_TOk)
      then show ?thesis using call assms(3,4) Saved run TOk
        by (auto simp: ensure_loaded_def keeps_keys_def apart_def key_of_def)
    qed (use call assms(3) Saved run in \<open>auto simp: ensure_loaded_def\<close>)
  qed
qed

lemma save_keeps_keys:
  assumes "accounts T live" "stores T live obj img pub" "save_if_needed T rm st s = (r, st', s')" "apart live (cx_dev s) st other"
  shows "keeps_keys live obj img st other (cx_dev s) st' other (cx_dev s')"
proof (cases "\<exists>k c s1. \<not> rm \<and> st = Live k \<and> dev (esapi ''context_save failed: '') (context_save T k) s = (TOk c, s1)")
  case True
  then obtain k c s1 where st: "\<not> rm" "st = Live k" and run: "dev (esapi ''context_save failed: '') (context_save T k) s = (TOk c, s1)"
    by blast
  have "park T ''context_save failed: '' k s = (TOk (Saved c), s')" "st' = Saved c"
    using st run assms(3) by (auto simp: save_if_needed_def park_def tbind_TOk flush_def)
  note park = park_keeps_key [OF assms(1,2) this(1)] this(2)
  moreover have "key_of obj img (cx_dev s') other = key_of obj img (cx_dev s) other"
    using assms(4) st by (intro key_of_calm [OF park(2)]) (auto simp: apart_def)
  moreover have "apart live (cx_dev s') (Saved c) other" using park(2) assms(4) st by (auto simp: apart_def calm_def)
  ultimately show ?thesis using st assms(4)
    by (auto simp: keeps_keys_def key_of_def apart_def intro: calm_mono)
next
  case False
  then have st': "st' = st" using assms(3)
    by (auto simp: save_if_needed_def split: key_state.splits prod.splits tres.splits if_splits)
  have "calm live obj {} (cx_dev s) (cx_dev s')"
  proof (cases "rm \<or> (\<exists>c. st = Saved c)")
    case True
    then show ?thesis using assms(3) by (auto simp: save_if_needed_def split: key_state.splits)
  next
    case live: False
    then obtain k where k: "st = Live k" "\<not> rm" by (cases st) auto
    then show ?thesis using assms(3) False calmlyD [OF calmly_call(11) [OF assms(1,2)]]
      by (auto simp: save_if_needed_def split: prod.splits tres.splits)
  qed
  then show ?thesis using keeps_keys_call [OF assms(4)] st' by simp
qed

section \<open>Quoting and activating\<close>

abbreviation keeps_session ::
    "('d \<Rightarrow> handle set) \<Rightarrow> ('d \<Rightarrow> handle \<Rightarrow> 'k) \<Rightarrow> ('c \<Rightarrow> 'k) \<Rightarrow> 'c managed_session \<Rightarrow> 'd \<Rightarrow> 'c managed_session \<Rightarrow> 'd \<Rightarrow> bool" where
  "keeps_session live obj img m d m' d' \<equiv>
     keeps_keys live obj img (ms_ak_state m) (ms_ek_state m) d (ms_ak_state m') (ms_ek_state m') d' \<and>
     ms_ak_pub m' = ms_ak_pub m \<and> ms_ek_spki m' = ms_ek_spki m"

lemma keeps_apart: "keeps_keys live obj img a b d a' b' d' \<Longrightarrow> apart live d' a' b'"
  by (simp add: keeps_keys_def)

lemma apart_sym: "apart live d a b \<Longrightarrow> apart live d b a"
  by (auto simp: apart_def)

lemma quote_inner_keeps:
  assumes "accounts T live" "stores T live obj img pub" "quote_inner Y T m nonce indices s = (r, m', s')"
    "apart live (cx_dev s) (ms_ak_state m) (ms_ek_state m)"
  shows "keeps_session live obj img m (cx_dev s) m' (cx_dev s')"
    "r = TOk out \<Longrightarrow> \<exists>h s1. ms_ak_state m' = Live h \<and> quote_with Y T h nonce indices s1 = (TOk out, s') \<and>
       obj (cx_dev s1) h = key_of obj img (cx_dev s) (ms_ak_state m)"
proof -
  obtain r1 ak s1 where l: "ensure_loaded T (ms_ak_state m) s = (r1, ak, s1)" by (metis prod_cases3)
  note load = load_keeps_keys [OF assms(1,2) l assms(4)]
  have "keeps_session live obj img m (cx_dev s) m' (cx_dev s') \<and>
    (r = TOk out \<longrightarrow> (\<exists>h s1. ms_ak_state m' = Live h \<and> quote_with Y T h nonce indices s1 = (TOk out, s') \<and>
       obj (cx_dev s1) h = key_of obj img (cx_dev s) (ms_ak_state m)))"
  proof (cases r1)
    case (TOk h)
    obtain r2 s2 where q: "quote_with Y T h nonce indices s1 = (r2, s2)" by fastforce
    have m': "m' = m\<lparr>ms_ak_state := ak\<rparr>" "r = r2" "s' = s2"
      using assms(3) l q TOk by (auto simp: quote_inner_def quote_loaded_eq)
    have "keeps_keys live obj img ak (ms_ek_state m) (cx_dev s1) ak (ms_ek_state m) (cx_dev s2)"
      by (rule keeps_keys_call [OF keeps_apart [OF load(1)] calmlyD [OF quote_with_calm [OF assms(1,2)] q]])
    moreover have "obj (cx_dev s1) h = key_of obj img (cx_dev s) (ms_ak_state m)"
      using load TOk by (auto simp: keeps_keys_def key_of_def)
    ultimately show ?thesis using m' q load(2) [OF TOk] keeps_keys_trans [OF load(1)] by auto
  qed (use assms(3) l load in \<open>auto simp: quote_inner_def\<close>)
  then show "keeps_session live obj img m (cx_dev s) m' (cx_dev s')"
    "r = TOk out \<Longrightarrow> \<exists>h s1. ms_ak_state m' = Live h \<and> quote_with Y T h nonce indices s1 = (TOk out, s') \<and>
       obj (cx_dev s1) h = key_of obj img (cx_dev s) (ms_ak_state m)" by auto
qed

lemma mgr_quote_keeps:
  assumes "accounts T live" "stores T live obj img pub" "mgr_quote Y T rm m nonce indices s = (r, m', s')"
    "apart live (cx_dev s) (ms_ak_state m) (ms_ek_state m)"
  shows "keeps_session live obj img m (cx_dev s) m' (cx_dev s')"
proof -
  obtain r1 m1 s1 where i: "quote_inner Y T m nonce indices s = (r1, m1, s1)" by (metis prod_cases3)
  note q = quote_inner_keeps(1) [OF assms(1,2) i assms(4)]
  obtain x ak s2 where a: "save_if_needed T rm (ms_ak_state m1) s1 = (x, ak, s2)" by (metis prod_cases3)
  note sv = save_keeps_keys [OF assms(1,2) a keeps_apart [OF conjunct1 [OF q]]]
  show ?thesis using assms(3) i a q keeps_keys_trans [OF conjunct1 [OF q] sv] by (auto simp: mgr_quote_def split: if_splits)
qed

lemma activate_inner_keeps:
  assumes "accounts T live" "stores T live obj img pub" "activate_inner Y T m blob secret s = (r, m', s')"
    "apart live (cx_dev s) (ms_ak_state m) (ms_ek_state m)"
  shows "keeps_session live obj img m (cx_dev s) m' (cx_dev s') \<and>
    (r = TOk out \<longrightarrow> (\<exists>h k s1. activate_with Y T h k blob secret s1 = (TOk out, s') \<and>
       obj (cx_dev s1) h = key_of obj img (cx_dev s) (ms_ak_state m) \<and>
       obj (cx_dev s1) k = key_of obj img (cx_dev s) (ms_ek_state m)))"
proof -
  obtain r1 ak s1 where l1: "ensure_loaded T (ms_ak_state m) s = (r1, ak, s1)" by (metis prod_cases3)
  note load1 = load_keeps_keys [OF assms(1,2) l1 assms(4)]
  show ?thesis
  proof (cases r1)
    case (TOk h)
    obtain r2 ek s2 where l2: "ensure_loaded T (ms_ek_state m) s1 = (r2, ek, s2)" by (metis prod_cases3)
    note load2 = load_keeps_keys [OF assms(1,2) l2 apart_sym [OF keeps_apart [OF load1(1)]]]
    note both = keeps_keys_trans [OF load1(1) keeps_keys_swap [OF load2(1)]]
    have r1: "r1 = TOk h" by (rule TOk)
    show ?thesis
    proof (cases r2)
      case (TOk k)
      obtain r3 s3 where c: "activate_with Y T h k blob secret s2 = (r3, s3)" by fastforce
      have m': "m' = m\<lparr>ms_ak_state := ak, ms_ek_state := ek\<rparr>" "r = r3" "s' = s3"
        using assms(3) l1 l2 c r1 TOk by (auto simp: activate_inner_def activate_loaded_eq)
      have "keeps_keys live obj img ak ek (cx_dev s2) ak ek (cx_dev s3)"
        by (rule keeps_keys_call [OF keeps_apart [OF both] calmlyD [OF activate_with_calm [OF assms(1,2)] c]])
      moreover have "obj (cx_dev s2) h = key_of obj img (cx_dev s) (ms_ak_state m)"
        "obj (cx_dev s2) k = key_of obj img (cx_dev s) (ms_ek_state m)"
        using both load1(2) [OF r1] load2(2) [OF TOk] by (auto simp: keeps_keys_def key_of_def)
      ultimately show ?thesis using m' c keeps_keys_trans [OF both] by auto
    qed (use assms(3) l1 l2 r1 both in \<open>auto simp: activate_inner_def\<close>)
  qed (use assms(3) l1 load1 in \<open>auto simp: activate_inner_def\<close>)
qed

lemma mgr_activate_keeps:
  assumes "accounts T live" "stores T live obj img pub" "mgr_activate Y T rm m blob secret s = (r, m', s')"
    "apart live (cx_dev s) (ms_ak_state m) (ms_ek_state m)"
  shows "keeps_session live obj img m (cx_dev s) m' (cx_dev s')"
proof -
  obtain r1 m1 s1 where i: "activate_inner Y T m blob secret s = (r1, m1, s1)" by (metis prod_cases3)
  note q = conjunct1 [OF activate_inner_keeps [OF assms(1,2) i assms(4)]]
  obtain x ak s2 where a: "save_if_needed T rm (ms_ak_state m1) s1 = (x, ak, s2)" by (metis prod_cases3)
  obtain y ek s3 where e: "save_if_needed T rm (ms_ek_state m1) s2 = (y, ek, s3)" by (metis prod_cases3)
  note k1 = keeps_keys_trans [OF conjunct1 [OF q] save_keeps_keys [OF assms(1,2) a keeps_apart [OF conjunct1 [OF q]]]]
  note k2 = keeps_keys_trans [OF k1 keeps_keys_swap [OF save_keeps_keys [OF assms(1,2) e apart_sym [OF keeps_apart [OF k1]]]]]
  show ?thesis using assms(3) i a e q k2 by (auto simp: mgr_activate_def split: if_splits)
qed

section \<open>Runs\<close>

definition presents_in ::
    "('d, 'c) tss \<Rightarrow> ('d \<Rightarrow> handle \<Rightarrow> 'k) \<Rightarrow> ('c \<Rightarrow> 'k) \<Rightarrow> ('k \<Rightarrow> tpm_public) \<Rightarrow> 'd \<Rightarrow> 'c managed_session \<Rightarrow> bool" where
  "presents_in T obj img pub d m \<longleftrightarrow>
     presents T pub m (key_of obj img d (ms_ak_state m)) (key_of obj img d (ms_ek_state m))"

text \<open>A session without the handles and contexts its keys happen to be in.\<close>

definition view ::
    "('d \<Rightarrow> handle \<Rightarrow> 'k) \<Rightarrow> ('c \<Rightarrow> 'k) \<Rightarrow> 'd \<Rightarrow> 'c managed_session \<Rightarrow> 'k \<times> 'k \<times> bytes \<times> bytes" where
  "view obj img d m =
     (key_of obj img d (ms_ak_state m), key_of obj img d (ms_ek_state m), ms_ak_pub m, ms_ek_spki m)"

lemma presents_view: "presents_in T obj img pub d m \<Longrightarrow> view obj img d' m' = view obj img d m \<Longrightarrow> presents_in T obj img pub d' m'"
  by (simp add: presents_in_def presents_def view_def)

lemma view_calm:
  assumes "calm live obj H d d'" "set (held m) \<subseteq> live d - H"
  shows "view obj img d' m = view obj img d m"
  using assms(2) by (auto simp: view_def held_def intro!: key_of_calm [OF assms(1)])

lemma view_keeps: "keeps_session live obj img m d m' d' \<Longrightarrow> view obj img d' m' = view obj img d m"
  by (simp add: view_def keeps_keys_def)

lemmas presents_calm = presents_view [OF _ view_calm]
lemmas presents_keeps = presents_view [OF _ view_keeps]

lemma owned_held: "owned B n (held_all ms) (live d) \<Longrightarrow> m \<in> set ms \<Longrightarrow> set (held m) \<subseteq> live d"
  unfolding owned_def held_all_def by auto

lemma held_sub: "m \<in> set ms \<Longrightarrow> set (held m) \<subseteq> set (held_all ms)"
  by (auto simp: held_all_def)

lemma owned_apart:
  assumes "owned B n (held_all (xs @ m # ys)) (live d)"
  shows "apart live d (ms_ak_state m) (ms_ek_state m)" "m2 \<in> set (xs @ ys) \<Longrightarrow> set (held m2) \<subseteq> live d - set (held m)"
proof -
  have d: "distinct (held m)" "set (held m) \<inter> set (held_all (xs @ ys)) = {}" "set (held m) \<subseteq> live d"
    "set (held_all (xs @ ys)) \<subseteq> live d"
    using assms by (auto simp: owned_def)
  show "apart live d (ms_ak_state m) (ms_ek_state m)" using d(1,3) by (simp add: apart_def held_def)
  show "set (held m2) \<subseteq> live d - set (held m)" if "m2 \<in> set (xs @ ys)"
    using held_sub [OF that] d(2,4) by blast
qed

text \<open>A call that disturbs no loaded handle, and one on a session that keeps its keys.\<close>

lemma view_call:
  assumes "owned B n (held_all ms) (live d)" "calm live obj {} d d'"
  shows "map (view obj img d') ms = map (view obj img d) ms"
  using owned_held [where live = live, OF assms(1)] by (auto intro!: view_calm [OF assms(2)])

lemma view_others:
  assumes "owned B n (held_all (xs @ m # ys)) (live d)" "calm live obj (set (held m)) d d'"
  shows "map (view obj img d') (xs @ ys) = map (view obj img d) (xs @ ys)"
  using view_calm [OF assms(2) owned_apart(2) [where live = live, OF assms(1)]] by (intro map_cong) auto

lemma view_session:
  assumes "owned B n (held_all (xs @ m # ys)) (live d)" "keeps_session live obj img m d m' d'"
  shows "map (view obj img d') (xs @ m' # ys) = map (view obj img d) (xs @ m # ys)"
proof -
  have "calm live obj (set (held m)) d d'" using assms(2) by (simp add: keeps_keys_def held_def)
  from view_others [where live = live, OF assms(1) this] show ?thesis using view_keeps [OF assms(2)] by simp
qed

lemma presents_map:
  "\<forall>m \<in> set ms. presents_in T obj img pub d m \<Longrightarrow> map (view obj img d') ms' = map (view obj img d) ms \<Longrightarrow>
   \<forall>m \<in> set ms'. presents_in T obj img pub d' m"
proof
  assume ms: "\<forall>m \<in> set ms. presents_in T obj img pub d m" and eq: "map (view obj img d') ms' = map (view obj img d) ms"
  fix m assume "m \<in> set ms'"
  then have "view obj img d' m \<in> set (map (view obj img d') ms')" by simp
  then obtain m0 where "m0 \<in> set ms" "view obj img d' m = view obj img d m0" unfolding eq by auto
  then show "presents_in T obj img pub d' m" using ms presents_view [of T obj img pub d m0 d' m] by simp
qed

lemma finish_calm:
  assumes "accounts T live" "stores T live obj img pub"
  shows "calmly live obj (set (held m)) (finish_attestation T m)"
proof -
  have "calmly live obj (set (held m)) (flush_state T st)" if "set (held_state st) \<subseteq> set (held m)" for st
    using that calmly_flush [OF assms] by (cases st) (auto simp: flush_state_def calmly_basic)
  then show ?thesis unfolding finish_attestation_def by (intro calmly_tbind) (auto simp: held_def)
qed

text \<open>What each call does to the views of the open sessions, in a reached state.\<close>

lemma run_views:
  assumes "accounts T live" "stores T live obj img pub" "mgr_run Y T rm s0 s ms n"
  shows "begin_attestation Y T rm s = (r1, s') \<Longrightarrow> map (view obj img (cx_dev s')) ms = map (view obj img (cx_dev s)) ms"
    "mgr_seal_to_pcr Y T plaintext indices s = (r2, s') \<Longrightarrow>
       map (view obj img (cx_dev s')) ms = map (view obj img (cx_dev s)) ms"
    "mgr_unseal Y T sealed s = (r3, s') \<Longrightarrow> map (view obj img (cx_dev s')) ms = map (view obj img (cx_dev s)) ms"
    "mgr_read_ek_cert T s = (r4, s') \<Longrightarrow> map (view obj img (cx_dev s')) ms = map (view obj img (cx_dev s)) ms"
proof -
  note same = view_call [where live = live, OF mgr_run_owned [OF assms(1,3)] calmlyD]
  show "begin_attestation Y T rm s = (r1, s') \<Longrightarrow> map (view obj img (cx_dev s')) ms = map (view obj img (cx_dev s)) ms"
    by (rule same [OF begin_attestation_calm [OF assms(1,2)]])
  show "mgr_seal_to_pcr Y T plaintext indices s = (r2, s') \<Longrightarrow>
       map (view obj img (cx_dev s')) ms = map (view obj img (cx_dev s)) ms"
    unfolding mgr_seal_eq by (rule same [OF seal_in_calm [OF assms(1,2)]])
  show "mgr_unseal Y T sealed s = (r3, s') \<Longrightarrow> map (view obj img (cx_dev s')) ms = map (view obj img (cx_dev s)) ms"
    unfolding mgr_unseal_eq by (rule same [OF unseal_in_calm [OF assms(1,2)]])
  show "mgr_read_ek_cert T s = (r4, s') \<Longrightarrow> map (view obj img (cx_dev s')) ms = map (view obj img (cx_dev s)) ms"
    unfolding mgr_read_ek_cert_eq by (rule same [OF read_ek_cert_calm [OF assms(1,2)]])
qed

lemma run_session_views:
  assumes "accounts T live" "stores T live obj img pub" "mgr_run Y T rm s0 s (xs @ m # ys) n"
  shows "mgr_activate Y T rm m blob secret s = (r1, m', s') \<Longrightarrow>
      map (view obj img (cx_dev s')) (xs @ m' # ys) = map (view obj img (cx_dev s)) (xs @ m # ys)"
    "mgr_quote Y T rm m nonce indices s = (r2, m', s') \<Longrightarrow>
      map (view obj img (cx_dev s')) (xs @ m' # ys) = map (view obj img (cx_dev s)) (xs @ m # ys)"
    "finish_attestation T m s = (u, s') \<Longrightarrow>
      map (view obj img (cx_dev s')) (xs @ ys) = map (view obj img (cx_dev s)) (xs @ ys)"
proof -
  note o = mgr_run_owned [OF assms(1,3)]
  note apart = owned_apart(1) [where live = live, OF o]
  show "mgr_activate Y T rm m blob secret s = (r1, m', s') \<Longrightarrow>
      map (view obj img (cx_dev s')) (xs @ m' # ys) = map (view obj img (cx_dev s)) (xs @ m # ys)"
    by (rule view_session [where live = live, OF o mgr_activate_keeps [OF assms(1,2) _ apart]])
  show "mgr_quote Y T rm m nonce indices s = (r2, m', s') \<Longrightarrow>
      map (view obj img (cx_dev s')) (xs @ m' # ys) = map (view obj img (cx_dev s)) (xs @ m # ys)"
    by (rule view_session [where live = live, OF o mgr_quote_keeps [OF assms(1,2) _ apart]])
  show "finish_attestation T m s = (u, s') \<Longrightarrow>
      map (view obj img (cx_dev s')) (xs @ ys) = map (view obj img (cx_dev s)) (xs @ ys)"
    by (rule view_others [where live = live, OF o calmlyD [OF finish_calm [OF assms(1,2)]]])
qed

lemma mgr_run_presents:
  assumes "accounts T live" "stores T live obj img pub" "mgr_run Y T rm s0 s ms n"
  shows "\<forall>m \<in> set ms. presents_in T obj img pub (cx_dev s) m"
  using assms(3)
proof (induction rule: mgr_run.induct)
  case start
  show ?case by simp
next
  case (begin_ok s ms n m s')
  then show ?case
    using presents_map [OF begin_ok.IH run_views(1) [OF assms(1,2) begin_ok.hyps]]
      begin_presents [OF assms(1,2) begin_ok.hyps(2)] by (simp add: presents_in_def)
next
  case (begin_err s ms n r s')
  show ?case by (rule presents_map [OF begin_err.IH run_views(1) [OF assms(1,2) begin_err.hyps(1,2)]])
next
  case (activate s xs m ys n blob secret r m' s')
  show ?case by (rule presents_map [OF activate.IH run_session_views(1) [OF assms(1,2) activate.hyps]])
next
  case (quote s xs m ys n nonce indices r m' s')
  show ?case by (rule presents_map [OF quote.IH run_session_views(2) [OF assms(1,2) quote.hyps]])
next
  case (seal s ms n plaintext indices r s')
  show ?case by (rule presents_map [OF seal.IH run_views(2) [OF assms(1,2) seal.hyps]])
next
  case (unseal s ms n sealed r s')
  show ?case by (rule presents_map [OF unseal.IH run_views(3) [OF assms(1,2) unseal.hyps]])
next
  case (read_cert s ms n c s')
  show ?case by (rule presents_map [OF read_cert.IH run_views(4) [OF assms(1,2) read_cert.hyps]])
next
  case (finish s xs m ys n u s')
  then have "\<forall>m \<in> set (xs @ ys). presents_in T obj img pub (cx_dev s) m" by simp
  then show ?case by (rule presents_map [OF _ run_session_views(3) [OF assms(1,2) finish.hyps]])
qed

section \<open>Properties\<close>

text \<open>C7. A managed session works with its own keys. In every run of the manager, with any
  number of sessions open and their keys saved and loaded again under other handles, each
  session still has the two keys it was begun with: its attestation key has the public
  area the session reports, its endorsement key the reported SPKI. A quote of the session
  is made by that attestation key, and an activation with that pair of keys.\<close>

theorem sessions_keep_their_keys:
  assumes "accounts T live" "stores T live obj img pub" "mgr_run Y T rm s0 s ms n" "m \<in> set ms"
  shows "\<exists>ak ek. presents T pub m ak ek \<and>
    (\<forall>nonce indices out m' s'. mgr_quote Y T rm m nonce indices s = (TOk out, m', s') \<longrightarrow>
       (\<exists>h s1 s2. obj (cx_dev s1) h = ak \<and> quote_with Y T h nonce indices s1 = (TOk out, s2))) \<and>
    (\<forall>blob secret cred m' s'. mgr_activate Y T rm m blob secret s = (TOk cred, m', s') \<longrightarrow>
       (\<exists>h k s1 s2. obj (cx_dev s1) h = ak \<and> obj (cx_dev s1) k = ek \<and>
          activate_with Y T h k blob secret s1 = (TOk cred, s2)))"
proof -
  let ?ak = "key_of obj img (cx_dev s) (ms_ak_state m)" and ?ek = "key_of obj img (cx_dev s) (ms_ek_state m)"
  obtain xs ys where ms: "ms = xs @ m # ys" using assms(4) by (auto dest: split_list)
  note apart = owned_apart(1) [where live = live, OF mgr_run_owned [OF assms(1,3), unfolded ms]]
  have "presents T pub m ?ak ?ek" using mgr_run_presents [OF assms(1-3)] assms(4) by (simp add: presents_in_def)
  moreover have "\<exists>h s1 s2. obj (cx_dev s1) h = ?ak \<and> quote_with Y T h nonce indices s1 = (TOk out, s2)"
    if q: "mgr_quote Y T rm m nonce indices s = (TOk out, m', s')" for nonce indices out m' s'
  proof -
    obtain m1 s1 where "quote_inner Y T m nonce indices s = (TOk out, m1, s1)"
      using q by (auto simp: mgr_quote_def split: prod.splits if_splits)
    then show ?thesis using quote_inner_keeps(2) [OF assms(1,2) _ apart] by blast
  qed
  moreover have "\<exists>h k s1 s2. obj (cx_dev s1) h = ?ak \<and> obj (cx_dev s1) k = ?ek \<and> activate_with Y T h k blob secret s1 = (TOk cred, s2)"
    if a: "mgr_activate Y T rm m blob secret s = (TOk cred, m', s')" for blob secret cred m' s'
  proof -
    obtain m1 s1 where "activate_inner Y T m blob secret s = (TOk cred, m1, s1)"
      using a by (auto simp: mgr_activate_def split: prod.splits if_splits)
    then show ?thesis using activate_inner_keeps [OF assms(1,2) _ apart, of Y blob secret "TOk cred" m1 s1 cred] by blast
  qed
  ultimately show ?thesis by blast
qed

text \<open>C6. The manager implements a ledger of sessions. Abstract from where the keys of the open
  sessions are (loaded under some handle, or saved) to the keys themselves and the public
  parts: in every reached state, that without sessions included, a successful begin adds one
  entry, of the two keys whose public parts the new session reports, finishing removes the
  entry of its session, and a failed begin, quoting, activating, sealing, unsealing and
  reading the certificate, failed ones included, leave the ledger as it is.\<close>

theorem manager_refines_ledger:
  assumes "accounts T live" "stores T live obj img pub" "mgr_run Y T rm s0 s ms n"
  shows "let ledger = (\<lambda>s ms. map (view obj img (cx_dev s)) ms) in
    (\<forall>new s'. begin_attestation Y T rm s = (TOk new, s') \<longrightarrow>
       (\<exists>ak ek. presents T pub new ak ek \<and> ledger s' (new # ms) = (ak, ek, ms_ak_pub new, ms_ek_spki new) # ledger s ms)) \<and>
    (\<forall>r s'. begin_attestation Y T rm s = (r, s') \<and> \<not> is_ok r \<longrightarrow> ledger s' ms = ledger s ms) \<and>
    (\<forall>plaintext indices r s'. mgr_seal_to_pcr Y T plaintext indices s = (r, s') \<longrightarrow> ledger s' ms = ledger s ms) \<and>
    (\<forall>sealed r s'. mgr_unseal Y T sealed s = (r, s') \<longrightarrow> ledger s' ms = ledger s ms) \<and>
    (\<forall>r s'. mgr_read_ek_cert T s = (r, s') \<longrightarrow> ledger s' ms = ledger s ms) \<and>
    (\<forall>xs m ys. ms = xs @ m # ys \<longrightarrow>
       (\<forall>blob secret r m' s'. mgr_activate Y T rm m blob secret s = (r, m', s') \<longrightarrow> ledger s' (xs @ m' # ys) = ledger s ms) \<and>
       (\<forall>nonce indices r m' s'. mgr_quote Y T rm m nonce indices s = (r, m', s') \<longrightarrow> ledger s' (xs @ m' # ys) = ledger s ms) \<and>
       (\<forall>u s'. finish_attestation T m s = (u, s') \<longrightarrow> ledger s' (xs @ ys) = ledger s (xs @ ys)))"
  unfolding Let_def
proof (intro conjI allI impI)
  fix new s' assume b: "begin_attestation Y T rm s = (TOk new, s')"
  from begin_presents [OF assms(1,2) b] run_views(1) [OF assms b]
  show "\<exists>ak ek. presents T pub new ak ek \<and> map (view obj img (cx_dev s')) (new # ms) =
      (ak, ek, ms_ak_pub new, ms_ek_spki new) # map (view obj img (cx_dev s)) ms"
    by (intro exI conjI) (auto simp: view_def)
next
  fix r s' assume "begin_attestation Y T rm s = (r, s') \<and> \<not> is_ok r"
  then show "map (view obj img (cx_dev s')) ms = map (view obj img (cx_dev s)) ms" using run_views(1) [OF assms] by blast
next
  fix xs m ys assume ms: "ms = xs @ m # ys"
  note same = run_session_views [OF assms(1,2) assms(3) [unfolded ms]]
  show "mgr_activate Y T rm m blob secret s = (r, m', s') \<Longrightarrow>
      map (view obj img (cx_dev s')) (xs @ m' # ys) = map (view obj img (cx_dev s)) ms" for blob secret r m' s'
    unfolding ms by (rule same(1))
  show "mgr_quote Y T rm m nonce indices s = (r, m', s') \<Longrightarrow>
      map (view obj img (cx_dev s')) (xs @ m' # ys) = map (view obj img (cx_dev s)) ms" for nonce indices r m' s'
    unfolding ms by (rule same(2))
  show "finish_attestation T m s = (u, s') \<Longrightarrow>
      map (view obj img (cx_dev s')) (xs @ ys) = map (view obj img (cx_dev s)) (xs @ ys)" for u s'
    by (rule same(3))
qed (erule run_views(2-4) [OF assms])+

text \<open>The simulated device once more, with the public part of every loaded object as the object
  and as its saved context.\<close>

definition sim_store :: "tpm_public \<Rightarrow> (handle \<Rightarrow> 'r) \<Rightarrow> (handle \<times> tpm_public) list \<Rightarrow> (string + 'r) \<times> (handle \<times> tpm_public) list" where
  "sim_store p res d = (let h = fresh (map fst d) in (Inr (res h), (h, p) # d))"

definition no_public :: tpm_public where
  "no_public = PublicKeyedHash Sha256 no_attrs [] KeyedHashNull []"

definition stored :: "(handle \<times> tpm_public) list \<Rightarrow> handle \<Rightarrow> tpm_public" where
  "stored d h = (case map_of d h of Some p \<Rightarrow> p | None \<Rightarrow> no_public)"

definition store_sim :: "((handle \<times> tpm_public) list, tpm_public) tss" where
  "store_sim =
    \<lparr>ctx_new = (\<lambda>_. Inr []), load_external_public = (\<lambda>p _. sim_store p (\<lambda>h. h)),
     tss_make_credential = (\<lambda>_ cred name d. (Inr (name, cred), d)),
     create_primary = (\<lambda>_ p. sim_store p (\<lambda>h. (h, p))),
     marshall_public = (\<lambda>_. Inr [0]), unmarshall_public = (\<lambda>_. Inr no_public),
     get_capability = (\<lambda>i d. (Inr (Handles [NvIndex i]), d)), nv_index_new = (\<lambda>_. None),
     tr_from_tpm_public = (\<lambda>_ d. (Inr 0, d)), nv_read = (\<lambda>_ _ _ d. (Inr [1], d)),
     start_auth_session = (\<lambda>_. sim_store no_public Some), to_policy_session = (\<lambda>_. None), policy_secret = (\<lambda>_ d. (Inr (), d)),
     activate_credential = (\<lambda>_ _ _ _ enc d. (Inr enc, d)),
     tss_quote = (\<lambda>_ extra sel d. (Inr (Inr (extra @ map word_of_nat sel), EcDsa [1] [2]), d)),
     pcr_read = (\<lambda>sel d. (Inr (map (\<lambda>i. replicate 32 (word_of_nat i)) sel), d)),
     policy_pcr = (\<lambda>_ _ d. (Inr (), d)), policy_get_digest = (\<lambda>_ d. (Inr [], d)),
     tss_create = (\<lambda>_ p sensitive d. (Inr (sensitive, p), d)), tss_load = (\<lambda>_ _ p. sim_store p (\<lambda>h. h)),
     tss_unseal = (\<lambda>_ _ d. (Inr [7], d)),
     context_save = (\<lambda>h d. (Inr (stored d h), d)), context_load = (\<lambda>c. sim_store c (\<lambda>h. h)),
     flush_context = (\<lambda>h d. (Inr (), filter (\<lambda>x. fst x \<noteq> h) d))\<rparr>"

lemma fresh_fst: "(fresh (map fst d), p) \<notin> set d"
  using fresh_new [of "map fst d"] by force

lemma sim_store_laws:
  "(\<And>h. key (res h) = h) \<Longrightarrow> adds (\<lambda>d. set (map fst d)) key (sim_store p res)"
  "starts (\<lambda>d. set (map fst d)) (sim_store p Some)"
  "still (\<lambda>d. set (map fst d)) stored (sim_store p res')"
  by (auto simp: fresh_fst adds_def starts_def still_def stored_def sim_store_def Let_def split: option.splits)

lemma map_of_without: "a \<noteq> k \<Longrightarrow> map_of (filter (\<lambda>x. fst x \<noteq> k) d) a = map_of d a"
  by (induction d) auto

lemma store_sim_accounts: "accounts store_sim (\<lambda>d. set (map fst d))"
  unfolding accounts_def store_sim_def by (simp add: sim_store_laws del: set_map) (auto simp: keeps_def)

lemma store_sim_stores: "stores store_sim (\<lambda>d. set (map fst d)) stored (\<lambda>c. c) (\<lambda>p. p)"
  unfolding stores_def store_sim_def
  by (simp add: sim_store_laws del: set_map) (auto simp: still_def stored_def sim_store_def Let_def map_of_without)

definition store_context :: "(handle \<times> tpm_public) list tss_context" where
  "store_context = \<lparr>cx_dev = [], cx_sessions = NO_SESSIONS\<rparr>"

lemma store_begin:
  "\<exists>m. begin_attestation plain_types store_sim False store_context = (TOk m, store_context)"
proof -
  obtain spki where "rsa_public_to_spki (replicate 256 0) 65537 = Returns spki"
    by (rule spki_returns [of "replicate 256 0" 65537]) auto
  then show ?thesis
    by (simp add: begin_attestation_def park_def ek_template_def ak_template_def of_out_def sim_run
        store_sim_def sim_store_def store_context_def stored_def)
qed

theorem sessions_keep_their_keys_witness:
  "\<exists>m s ak ek. mgr_run plain_types store_sim False store_context s [m] 0 \<and> presents store_sim (\<lambda>p. p) m ak ek"
proof -
  obtain m where b: "begin_attestation plain_types store_sim False store_context = (TOk m, store_context)"
    using store_begin by blast
  have r: "mgr_run plain_types store_sim False store_context store_context [m] 0"
    by (rule mgr_run.begin_ok [OF mgr_run.start b])
  have "m \<in> set [m]" by simp
  from sessions_keep_their_keys [OF store_sim_accounts store_sim_stores r this]
  obtain ak ek where "presents store_sim (\<lambda>p. p) m ak ek" by (elim exE conjE)
  with r show ?thesis by (intro exI conjI)
qed

theorem manager_refines_ledger_witness:
  "\<exists>m s. mgr_run plain_types store_sim False store_context s [m] 0 \<and>
     (\<forall>blob secret r m' s'. mgr_activate plain_types store_sim False m blob secret s = (r, m', s') \<longrightarrow>
        view stored (\<lambda>c. c) (cx_dev s') m' = view stored (\<lambda>c. c) (cx_dev s) m)"
proof -
  obtain m where b: "begin_attestation plain_types store_sim False store_context = (TOk m, store_context)"
    using store_begin by blast
  have r: "mgr_run plain_types store_sim False store_context store_context ([] @ m # []) 0"
    using mgr_run.begin_ok [OF mgr_run.start b] by simp
  note ledger = manager_refines_ledger [OF store_sim_accounts store_sim_stores r, unfolded Let_def,
      THEN conjunct2, THEN conjunct2, THEN conjunct2, THEN conjunct2, THEN conjunct2,
      THEN spec [of _ "[]"], THEN spec [of _ m], THEN spec [of _ "[]"], THEN mp, OF refl, THEN conjunct1]
  with r show ?thesis by (intro exI [of _ m] exI [of _ store_context]) simp
qed

end
