(* ===== verification/Der_Loops.thy ===== *)
theory Der_Loops
  imports Der_Ext Tpm_Pure "HOL-Library.While_Combinator"
begin

unbundle bit_operations_syntax

text \<open>
  The \<open>while\<close> loops of the DER writers, kept as loops over the variables they change: the
  search for the first significant byte of an ordinal (\<open>ordinal_extension\<close> of \<open>spiffe.rs\<close>),
  the bytes of a length and the leading zeros of an integer (\<open>der_len\<close> and \<open>der_integer\<close> of
  \<open>attestation/tpm.rs\<close>). \<open>while_option\<close> returns a state only if the loop ends; the result is
  compared with the recursions the writers are modelled with.
\<close>

section \<open>The loops\<close>

definition ordinal_while :: "bytes \<Rightarrow> nat option" where
  "ordinal_while bytes =
     while_option (\<lambda>start. start < 3 \<and> bytes ! start = 0 \<and> (bytes ! (start + 1)) AND 0x80 = 0)
       (\<lambda>start. start + 1) 0"

text \<open>\<open>l\<close> is a \<open>usize\<close>.\<close>

definition der_len_while :: "u64 \<Rightarrow> (bytes \<times> u64) option" where
  "der_len_while len =
     while_option (\<lambda>(bytes, l). l > 0) (\<lambda>(bytes, l). (ucast (l AND 0xff) # bytes, drop_bit 8 l)) ([], len)"

definition der_integer_while :: "bytes \<Rightarrow> bytes option" where
  "der_integer_while v = while_option (\<lambda>v. length v > 1 \<and> v ! 0 = 0) (drop 1) v"

section \<open>They end with what the recursions compute\<close>

lemma ordinal_loop:
  "while_option (\<lambda>start. start < 3 \<and> bs ! start = 0 \<and> (bs ! (start + 1)) AND 0x80 = 0) (\<lambda>start. start + 1) i =
     Some (ordinal_start bs i)"
proof (induction bs i rule: ordinal_start.induct)
  case (1 bs i)
  then show ?case by (subst while_option_unfold, subst ordinal_start.simps) simp
qed

lemma strip_loop: "while_option (\<lambda>v. length v > 1 \<and> v ! 0 = 0) (drop 1) v = Some (strip_zeros v)"
  by (induction v rule: strip_zeros.induct) (subst while_option_unfold, simp)+

text \<open>A length below \<open>256 ^ k\<close> is written in at most \<open>k\<close> rounds.\<close>

lemma low_byte: "(ucast (l AND 0xff) :: u8) = word_of_nat (unat l mod 256)" for l :: u64
proof -
  have "l AND 0xff = take_bit 8 l" by (simp add: take_bit_eq_mask mask_eq_exp_minus_1)
  then have "unat (l AND 0xff) = unat l mod 256" by (simp add: take_bit_eq_mod unat_mod_distrib)
  then show ?thesis by (metis of_nat_unat)
qed

lemma unat_drop8: "unat (drop_bit 8 l) = unat l div 256" for l :: u64
  by (simp add: drop_bit_eq_div unat_div_distrib)

lemma len_loop:
  "while_option (\<lambda>(bs, l). l > 0) (\<lambda>(bs, l). (ucast (l AND 0xff) # bs, drop_bit 8 l)) (acc, l) =
     Some (len_bytes (unat l) @ acc, 0)" for l :: u64
proof (induction "unat l" arbitrary: l acc rule: less_induct)
  case less
  show ?case
  proof (cases "l = 0")
    case True
    then show ?thesis by (subst while_option_unfold) (simp add: len_bytes.simps)
  next
    case False
    then have "unat l \<noteq> 0" by (simp add: unat_eq_zero)
    then have "while_option (\<lambda>(bs, l). l > 0) (\<lambda>(bs, l). (ucast (l AND 0xff) # bs, drop_bit 8 l))
        (ucast (l AND 0xff) # acc, drop_bit 8 l) = Some (len_bytes (unat l div 256) @ ucast (l AND 0xff) # acc, 0)"
      using less [of "drop_bit 8 l"] by (simp add: unat_drop8)
    moreover have "l > 0" using False by (simp add: word_gt_0)
    ultimately show ?thesis using \<open>unat l \<noteq> 0\<close>
      by (subst while_option_unfold, subst len_bytes.simps) (simp add: low_byte)
  qed
qed

text \<open>C40. The loops of the DER writers end, with the values the writers are modelled by. The
  search in a four-byte ordinal stops at an index of the array (so that neither it nor the
  look at the next byte leaves the array), the loop over a \<open>usize\<close> length ends with no bits
  left after at most eight bytes, most significant first, and stripping leading zeros ends with
  a non-empty suffix of a non-empty integer.\<close>

theorem der_loops_terminate:
  "ordinal_while (be_bytes 4 ordinal) = Some (ordinal_start (be_bytes 4 ordinal) 0) \<and>
   ordinal_start (be_bytes 4 ordinal) 0 \<le> 3 \<and>
   der_len_while len = Some (len_bytes (unat len), 0) \<and> length (len_bytes (unat len)) \<le> 8 \<and>
   be_nat (len_bytes (unat len)) = unat len \<and>
   der_integer_while v = Some (strip_zeros v) \<and> (strip_zeros v = [] \<longleftrightarrow> v = []) \<and>
   (\<exists>zeros. v = zeros @ strip_zeros v \<and> set zeros \<subseteq> {0})" for ordinal :: u32
proof -
  have "unat len < 256 ^ 8" using unsigned_less [of len] by simp
  then have "length (len_bytes (unat len)) \<le> 8" by (rule length_len_bytes)
  moreover have "start \<le> 3 \<Longrightarrow> ordinal_start bs start \<le> 3" for bs start
    by (induction bs start rule: ordinal_start.induct) (subst ordinal_start.simps, simp)
  moreover have "\<exists>zeros. v = zeros @ strip_zeros v \<and> set zeros \<subseteq> {0}"
  proof (induction v rule: strip_zeros.induct)
    case (1 a b v)
    then show ?case
    proof (cases "a = 0")
      case True
      with 1 obtain zs where "b # v = zs @ strip_zeros (b # v)" "set zs \<subseteq> {0}" by blast
      then show ?thesis using True by (intro exI [of _ "0 # zs"]) simp
    qed simp
  qed auto
  ultimately show ?thesis
    unfolding ordinal_while_def ordinal_loop der_len_while_def len_loop der_integer_while_def strip_loop
    by (simp add: be_nat_len_bytes)
qed

end
