(* ===== verification/Str_Types.thy ===== *)
theory Str_Types
  imports Utf8_Text Svid_Ca Id_Header Naming Policy_Sag
begin

text \<open>
  The type of Rust strings. In the model a \<open>String\<close> is any list of byte-sized characters, and
  \<open>is_rust_str\<close> says that the bytes are valid UTF-8, which the type of the code guarantees.
  This theory shows that the operations which build strings, by cutting others at
  separators, by decoding bytes or by joining, produce valid ones.
\<close>

section \<open>The operations of the crate\<close>

lemma rust_str_literal: "list_all (\<lambda>c. byte_of_char c < 0x80) s \<Longrightarrow> is_rust_str s"
  by (rule rust_str_ascii) (simp add: list_all_iff)

lemma rust_str_pieces:
  "is_rust_str ''spiffe://''" "is_rust_str ''/ns/''" "is_rust_str ''/''" "is_rust_str ''.''" "is_rust_str ''.svc.''"
  by (rule rust_str_literal, code_simp)+

lemma kind_rust_str: "is_rust_str (IdKind_fmt k)"
  by (cases k) (simp_all, (rule rust_str_literal, code_simp)+)

lemma slash_ascii: "byte_of_char (CHR ''/'') < 0x80"
  by code_simp

lemma to_string_rust_str:
  "is_rust_str (si_trust_domain i) \<Longrightarrow> is_rust_str (si_tenant i) \<Longrightarrow> is_rust_str (si_name i) \<Longrightarrow>
   is_rust_str (SpiffeId_to_string i)"
  unfolding SpiffeId_to_string_def by (intro rust_str_append rust_str_pieces kind_rust_str)

lemma from_str_rust_str:
  assumes "is_rust_str s" "SpiffeId_from_str s = Inr i"
  shows "is_rust_str (si_trust_domain i) \<and> is_rust_str (si_tenant i) \<and> is_rust_str (si_name i)"
proof -
  have "s = ''spiffe:/'' @ CHR ''/'' # (si_trust_domain i @ CHR ''/'' # (''ns'' @ CHR ''/'' # (si_tenant i @
      CHR ''/'' # (IdKind_fmt (si_kind i) @ CHR ''/'' # si_name i))))"
    using assms(2) by (simp add: SpiffeId_from_str_iff SpiffeId_to_string_def)
  then show ?thesis using assms(1) rust_str_cut [OF slash_ascii] by metis
qed

lemma role_value_rust_str: "role_of_value val = Some r \<Longrightarrow> is_rust_str (role_as_str r) \<and> role_wf r"
  by (cases "parse_der_tlv val 0x0C"; cases "parse_der_tlv val 0x13")
    (auto simp: role_of_value_def WorkloadRole_try_from_def role_wf_def dest: from_utf8_rust_str
      split: option.split_asm if_split_asm)

lemma extract_role_rust_str: "extract_role der = Some r \<Longrightarrow> is_rust_str (role_as_str r) \<and> role_wf r"
  by (auto simp: extract_role_def bind_eq_Some_conv dest: role_value_rust_str)

lemma read_role_rust_str:
  "read_role svid buf = Returns (Some (svid', role), rest) \<Longrightarrow>
   svid' = svid \<and> (case role of None \<Rightarrow> True | Some r \<Rightarrow> is_rust_str r)"
  by (auto simp: read_role_def obind_def dest: from_utf8_rust_str split: outcome.splits option.splits if_splits prod.splits)

lemma read_header_rust_str:
  assumes "read_header buf = Returns (Some (svid, role), rest)"
  shows "is_rust_str svid \<and> (case role of None \<Rightarrow> True | Some r \<Rightarrow> is_rust_str r)"
proof -
  obtain svid0 b b' where "from_utf8 b = Some svid0" "read_role svid0 b' = Returns (Some (svid, role), rest)"
    using assms by (auto simp: read_header_def Let_def obind_def split: outcome.splits option.splits if_splits prod.splits)
  then show ?thesis using from_utf8_rust_str read_role_rust_str by blast
qed

lemma label_rust_str:
  assumes "label_ok l"
  shows "is_rust_str l"
proof (rule rust_str_ascii, rule)
  fix c assume "c \<in> set l"
  then have "byte_of_char c \<le> 0x7a \<or> byte_of_char c \<le> 0x39 \<or> c = CHR ''-''"
    using assms by (auto simp: label_ok_def label_safe_def list_all_iff is_ascii_lowercase_def is_ascii_digit_def)
  moreover have "byte_of_char (CHR ''-'') < 0x80" by code_simp
  moreover have "(0x7a :: u8) < 0x80" "(0x39 :: u8) < 0x80" by simp_all
  ultimately show "byte_of_char c < 0x80" by (metis le_less_trans)
qed

lemma join_rust_str: "\<forall>x \<in> set xs. is_rust_str x \<Longrightarrow> is_rust_str (join_with (CHR ''.'') xs)"
proof (induction "CHR ''.''" xs rule: join_with.induct)
  case (3 x y xs)
  then show ?case using rust_str_append [OF _ rust_str_append [OF rust_str_pieces(4)]] by simp
qed (simp_all add: is_rust_str_def)

lemma hostname_rust_str:
  assumes "dummy_ip_hostname s r t d = Inr h"
  shows "is_rust_str h"
proof -
  have "list_all label_ok (split_on (CHR ''.'') h)"
    unfolding hostname_labels [OF assms] using assms label_ok_svc by (simp add: dummy_ip_hostname_iff)
  then have "is_rust_str (join_with (CHR ''.'') (split_on (CHR ''.'') h))"
    by (intro join_rust_str) (auto simp: list_all_iff label_rust_str)
  then show ?thesis by (simp add: join_split)
qed

lemma hex_rust_str: "is_rust_str (hex_encode bs)"
proof (rule rust_str_ascii)
  have "list_all (\<lambda>c. byte_of_char c < 0x80) HEX" by code_simp
  then have "n < 16 \<Longrightarrow> byte_of_char (HEX ! n) < 0x80" for n by (simp add: list_all_length HEX_def)
  then show "\<forall>c \<in> set (hex_encode bs). byte_of_char c < 0x80" by (induction bs) auto
qed

text \<open>Strings stay valid UTF-8. An identity parsed from a valid text has valid parts, and
  one with valid parts prints as a valid text; a role read from a certificate and the SVID and
  role read from a header are valid whatever the bytes were, and the role has no NUL; hostnames
  and the hex form of identifiers are valid whatever they are built from.\<close>

theorem strings_are_utf8:
  "(is_rust_str s \<and> SpiffeId_from_str s = Inr i \<longrightarrow>
      is_rust_str (si_trust_domain i) \<and> is_rust_str (si_tenant i) \<and> is_rust_str (si_name i)) \<and>
   (is_rust_str (si_trust_domain i) \<and> is_rust_str (si_tenant i) \<and> is_rust_str (si_name i) \<longrightarrow>
      is_rust_str (SpiffeId_to_string i)) \<and>
   (extract_role der = Some r \<longrightarrow> is_rust_str (role_as_str r) \<and> role_wf r) \<and>
   (read_header buf = Returns (Some (svid, role), rest) \<longrightarrow>
      is_rust_str svid \<and> (case role of None \<Rightarrow> True | Some r \<Rightarrow> is_rust_str r)) \<and>
   (dummy_ip_hostname service rl tenant domain = Inr h \<longrightarrow> is_rust_str h) \<and>
   is_rust_str (hex_encode bs)"
  using from_str_rust_str to_string_rust_str extract_role_rust_str read_header_rust_str hostname_rust_str hex_rust_str
  by (intro conjI impI) blast+

theorem strings_are_utf8_witness:
  "SpiffeId_from_str ''spiffe://fleet.example/ns/acme/sa/db'' = Inr (SpiffeId_new ''fleet.example'' ''acme'' Sa ''db'') \<and>
   is_rust_str ''fleet.example''"
proof -
  have "is_rust_str ''spiffe://fleet.example/ns/acme/sa/db''" by code_simp
  moreover have "SpiffeId_from_str ''spiffe://fleet.example/ns/acme/sa/db'' = Inr (SpiffeId_new ''fleet.example'' ''acme'' Sa ''db'')"
    by code_simp
  ultimately show ?thesis
    using strings_are_utf8 [of "''spiffe://fleet.example/ns/acme/sa/db''" "SpiffeId_new ''fleet.example'' ''acme'' Sa ''db''"]
    by (simp add: SpiffeId_new_def)
qed

end
