(* ===== verification/Pem_Text.thy ===== *)
theory Pem_Text
  imports Svid_Ca
begin

text \<open>
  PEM text both ways: the writer \<open>der_to_pem\<close> that hands a delegated key to the certificate
  library (\<open>spiffe.rs\<close>), and the reader \<open>pem_spki_to_der\<close> with its base64 decoder in the EK
  certificate tests (\<open>attestation.rs\<close>). The base64 crate's encoder is a parameter; \<open>rfc4648\<close>
  says what its standard engine writes.
\<close>

section \<open>The decoder\<close>

definition b64_alphabet :: string where
  "b64_alphabet = ''ABCDEFGHIJKLMNOPQRSTUVWXYZabcdefghijklmnopqrstuvwxyz0123456789+/''"

definition b64_table :: bytes where
  "b64_table = foldl (\<lambda>table (i, c). table[unat (byte_of_char c) := word_of_nat i])
     (replicate 256 255) (List.enumerate 0 b64_alphabet)"

fun b64_loop :: "bytes \<Rightarrow> u32 \<Rightarrow> u32 \<Rightarrow> bytes \<Rightarrow> bytes" where
  "b64_loop out accum bits [] = out"
| "b64_loop out accum bits (b # rest) =
     (let v = b64_table ! unat b in
      if v = 255 then b64_loop out accum bits rest
      else
        let accum = push_bit 6 accum OR ucast v; bits = bits + 6
        in if bits \<ge> 8
           then let bits = bits - 8 in b64_loop (out @ [ucast (drop_bit (unat bits) accum)]) accum bits rest
           else b64_loop out accum bits rest)"

definition base64_decode :: "string \<Rightarrow> bytes" where
  "base64_decode input = b64_loop [] 0 0 (as_bytes input)"

text \<open>\<open>str::lines\<close>: the pieces between line feeds, without a carriage return before the feed and
  without an empty last piece.\<close>

definition strip_cr :: "string \<Rightarrow> string" where
  "strip_cr l = (if l \<noteq> [] \<and> last l = CHR 0x0D then butlast l else l)"

definition str_lines :: "string \<Rightarrow> string list" where
  "str_lines s = (let ps = split_on (CHR 0x0A) s
     in map strip_cr (butlast ps) @ (if last ps = [] then [] else [last ps]))"

definition pem_spki_to_der :: "string \<Rightarrow> bytes" where
  "pem_spki_to_der pem =
     (let body = concat (filter (\<lambda>line. \<not> starts_with ''-----'' line) (str_lines pem))
      in base64_decode body)"

section \<open>What the encoder writes\<close>

text \<open>RFC 4648, section 4: three bytes are four digits of six bits, the last group is padded.\<close>

definition b64_digit :: "u8 \<Rightarrow> char" where
  "b64_digit v = b64_alphabet ! unat v"

fun b64_text :: "bytes \<Rightarrow> string" where
  "b64_text [] = []"
| "b64_text [a] = [b64_digit (drop_bit 2 a), b64_digit (push_bit 4 (a AND 3)), CHR ''='', CHR ''='']"
| "b64_text [a, b] = [b64_digit (drop_bit 2 a), b64_digit (push_bit 4 (a AND 3) OR drop_bit 4 b),
     b64_digit (push_bit 2 (b AND 15)), CHR ''='']"
| "b64_text (a # b # c # rest) = b64_digit (drop_bit 2 a) # b64_digit (push_bit 4 (a AND 3) OR drop_bit 4 b) #
     b64_digit (push_bit 2 (b AND 15) OR drop_bit 6 c) # b64_digit (c AND 63) # b64_text rest"

definition rfc4648 :: "('kp, 'pk, 'iss) rcgen_lib \<Rightarrow> bool" where
  "rfc4648 R \<longleftrightarrow> (\<forall>d. base64_encode R d = b64_text d)"

section \<open>Digits\<close>

lemma table_other:
  assumes "c \<notin> set cs"
  shows "foldl (\<lambda>t (i, c). t[unat (byte_of_char c) := word_of_nat i]) t (List.enumerate k cs) ! unat (byte_of_char c)
    = (t ! unat (byte_of_char c) :: u8)"
  using assms
proof (induction cs arbitrary: k t)
  case (Cons d cs)
  then have "unat (byte_of_char d) \<noteq> unat (byte_of_char c)" by (metis byte_of_char_inj list.set_intros(1) word_unat_eq_iff)
  then show ?case using Cons by simp
qed simp

lemma byte_less: "unat (b :: u8) < 256"
proof -
  have "unat b < 2 ^ LENGTH(8)" by (rule unsigned_less)
  then show ?thesis by simp
qed

lemma table_entry:
  assumes "distinct cs" "n < length cs" "256 \<le> length t"
  shows "foldl (\<lambda>t (i, c). t[unat (byte_of_char c) := word_of_nat i]) t (List.enumerate k cs) ! unat (byte_of_char (cs ! n))
    = (word_of_nat (k + n) :: u8)"
  using assms
proof (induction cs arbitrary: k t n)
  case (Cons d cs)
  have "unat (byte_of_char d) < length t" using Cons.prems(3) byte_less order.strict_trans2 by blast
  then show ?case using Cons by (cases n) (simp_all add: table_other)
qed simp

lemma b64_alphabet_facts: "distinct b64_alphabet" "length b64_alphabet = 64" "CHR ''='' \<notin> set b64_alphabet"
  by (simp_all add: b64_alphabet_def)

lemma b64_entry: "n < 64 \<Longrightarrow> b64_table ! unat (byte_of_char (b64_alphabet ! n)) = word_of_nat n"
  unfolding b64_table_def using table_entry [of b64_alphabet n "replicate 256 255" 0] b64_alphabet_facts by simp

lemma b64_pad: "b64_table ! unat (byte_of_char (CHR ''='')) = 255"
  unfolding b64_table_def using b64_alphabet_facts(3) by (simp add: table_other byte_less)

lemma b64_chars: "list_all (\<lambda>c. byte_of_char c < 0x80 \<and> c \<noteq> CHR 0x0A \<and> c \<noteq> CHR 0x0D \<and> c \<noteq> CHR ''-'') b64_alphabet"
  by code_simp

lemma b64_digit_value: "v < 64 \<Longrightarrow> b64_table ! unat (byte_of_char (b64_digit v)) = v"
  using b64_entry [of "unat v"] by (simp add: b64_digit_def word_less_nat_alt)

lemma masks: "a AND 3 = take_bit 2 a" "a AND 15 = take_bit 4 a" "a AND 63 = take_bit 6 (a :: u8)"
  by (simp_all add: take_bit_eq_mask mask_eq_exp_minus_1)

lemma less_64: "(\<And>n. 6 \<le> n \<Longrightarrow> \<not> bit v n) \<Longrightarrow> v < (64 :: u8)"
proof -
  assume "\<And>n. 6 \<le> n \<Longrightarrow> \<not> bit v n"
  then have "take_bit 6 v = v" by (intro bit_eqI) (auto simp: bit_simps, metis not_le)
  then have "unat v = take_bit 6 (unat v)" by (metis unsigned_take_bit_eq)
  also have "\<dots> < 64" using take_bit_nat_less_exp [of 6 "unat v"] by simp
  finally show ?thesis by (simp add: word_less_nat_alt)
qed

lemma sextets:
  "drop_bit 2 a < (64 :: u8)" "push_bit 4 (take_bit 2 a) < (64 :: u8)" "push_bit 4 (take_bit 2 a) OR drop_bit 4 b < (64 :: u8)"
  "push_bit 2 (take_bit 4 b) < (64 :: u8)" "push_bit 2 (take_bit 4 b) OR drop_bit 6 c < (64 :: u8)" "take_bit 6 c < (64 :: u8)"
  by (rule less_64; auto simp: bit_simps dest: bit_imp_le_length)+

lemma digit_step:
  assumes "v < 64"
  shows "b64_loop out accum bits (byte_of_char (b64_digit v) # rest) =
    (let accum = push_bit 6 accum OR ucast v; bits = bits + 6
     in if bits \<ge> 8
        then let bits = bits - 8 in b64_loop (out @ [ucast (drop_bit (unat bits) accum)]) accum bits rest
        else b64_loop out accum bits rest)"
proof -
  have "v \<noteq> 255" using assms by auto
  then show ?thesis by (simp add: b64_digit_value [OF assms] Let_def)
qed

lemma pad_step: "b64_loop out accum bits (byte_of_char (CHR ''='') # rest) = b64_loop out accum bits rest"
  by (simp add: b64_pad)

lemma byte_high: "8 \<le> n \<Longrightarrow> \<not> bit (w :: u8) n"
  by (auto dest: bit_imp_le_length)

lemma byte_eqI:
  assumes "bit v 0 = bit w 0" "bit v (Suc 0) = bit w (Suc 0)" "bit v 2 = bit w 2" "bit v 3 = bit w 3"
    "bit v 4 = bit w 4" "bit v 5 = bit w 5" "bit v 6 = bit w 6" "bit v 7 = bit w 7"
  shows "v = (w :: u8)"
proof (rule bit_word_eqI)
  fix n :: nat assume "n < LENGTH(8)"
  then have "n \<in> {0, 1, 2, 3, 4, 5, 6, 7}" by auto
  then show "bit v n = bit w n" using assms by auto
qed

lemmas bit_eval = bit_simps byte_high numeral_2_eq_2 [symmetric]

lemma join_first:
  fixes a b :: u8 and acc :: u32
  shows "ucast (drop_bit 4 (push_bit 6 (push_bit 6 acc OR ucast (drop_bit 2 a)) OR ucast (push_bit 4 (take_bit 2 a) OR drop_bit 4 b))) = a"
  by (rule byte_eqI; simp add: bit_eval del: One_nat_def add_2_eq_Suc add_2_eq_Suc')

lemma join_second:
  fixes a b c :: u8 and acc :: u32
  shows "ucast (drop_bit 2 (push_bit 6 (push_bit 6 acc OR ucast (push_bit 4 (take_bit 2 a) OR drop_bit 4 b)) OR
       ucast (push_bit 2 (take_bit 4 b) OR drop_bit 6 c))) = b"
  by (rule byte_eqI; simp add: bit_eval del: One_nat_def add_2_eq_Suc add_2_eq_Suc')

lemma join_third:
  fixes b c :: u8 and acc :: u32
  shows "ucast (push_bit 6 (push_bit 6 acc OR ucast (push_bit 2 (take_bit 4 b) OR drop_bit 6 c)) OR ucast (take_bit 6 c)) = c"
  by (rule byte_eqI; simp add: bit_eval del: One_nat_def add_2_eq_Suc add_2_eq_Suc')

section \<open>The decoder reads what the encoder writes\<close>

lemma decode_text: "b64_loop out acc 0 (as_bytes (b64_text bs)) = out @ bs"
proof (induction bs arbitrary: out acc rule: b64_text.induct)
  case (2 a)
  then show ?case using join_first [of acc a 0]
    by (simp add: as_bytes_Cons masks digit_step sextets pad_step del: b64_loop.simps(2))
next
  case (3 a b)
  then show ?case using join_first [of acc a b] join_second [of _ a b 0]
    by (simp add: as_bytes_Cons masks digit_step sextets pad_step del: b64_loop.simps(2))
next
  case (4 a b c rest)
  then show ?case using join_first [of acc a b] join_second [of _ a b c] join_third [of _ b c]
    by (simp add: as_bytes_Cons masks digit_step sextets del: b64_loop.simps(2))
qed simp

section \<open>Lines\<close>

text \<open>The characters of base64 text: the 64 digits and the padding.\<close>

definition b64_char :: "char \<Rightarrow> bool" where
  "b64_char c \<longleftrightarrow> c \<in> set b64_alphabet \<or> c = CHR ''=''"

lemma digit_char: "v < 64 \<Longrightarrow> b64_char (b64_digit v)"
  using b64_alphabet_facts(2) by (simp add: b64_char_def b64_digit_def word_less_nat_alt)

lemma pad_char: "b64_char (CHR ''='')"
  by (simp add: b64_char_def)

lemma b64_char_plain:
  assumes "b64_char c"
  shows "byte_of_char c < 0x80" "c \<noteq> CHR 0x0A" "c \<noteq> CHR 0x0D" "c \<noteq> CHR ''-''"
proof -
  have "byte_of_char (CHR ''='') < 0x80" by code_simp
  then show "byte_of_char c < 0x80" "c \<noteq> CHR 0x0A" "c \<noteq> CHR 0x0D" "c \<noteq> CHR ''-''"
    using assms b64_chars by (auto simp: b64_char_def list_all_iff)
qed

lemma text_chars: "c \<in> set (b64_text bs) \<Longrightarrow> b64_char c"
  by (induction bs rule: b64_text.induct) (auto simp: masks digit_char sextets pad_char)

lemma rfc4648_ascii: "rfc4648 R \<Longrightarrow> base64_ascii R"
  using text_chars b64_char_plain(1) by (fastforce simp: rfc4648_def base64_ascii_def as_bytes_def)

lemma split_lines:
  "\<forall>l \<in> set ls. CHR 0x0A \<notin> set l \<Longrightarrow> split_on (CHR 0x0A) (concat (map (\<lambda>l. l @ [CHR 0x0A]) ls)) = ls @ [[]]"
  by (induction ls) (auto simp: split_on_append)

lemma str_lines_terminated:
  assumes "\<forall>l \<in> set ls. CHR 0x0A \<notin> set l \<and> (l = [] \<or> last l \<noteq> CHR 0x0D)"
  shows "str_lines (concat (map (\<lambda>l. l @ [CHR 0x0A]) ls)) = ls"
proof -
  have "map strip_cr ls = ls" using assms by (intro map_idI) (auto simp: strip_cr_def)
  then show ?thesis using split_lines [of ls] assms by (simp add: str_lines_def)
qed

text \<open>The lines the writer emits.\<close>

definition body_lines :: "bytes \<Rightarrow> string list" where
  "body_lines der = map of_bytes (chunks 64 (as_bytes (b64_text der)))"

definition pem_lines :: "bytes \<Rightarrow> string \<Rightarrow> string list" where
  "pem_lines der label = (''-----BEGIN '' @ label @ ''-----'') # body_lines der @ [''-----END '' @ label @ ''-----'']"

lemma body_line:
  assumes "l \<in> set (body_lines der)"
  shows "l \<noteq> []" "length l \<le> 64" "list_all b64_char l"
proof -
  obtain c where c: "c \<in> set (chunks 64 (as_bytes (b64_text der)))" "l = of_bytes c"
    using assms by (auto simp: body_lines_def)
  note b = chunks_bounds [OF c(1)]
  show "l \<noteq> []" "length l \<le> 64" using b c(2) by (auto simp: of_bytes_def)
  have "set l \<subseteq> set (b64_text der)" using b c(2) by (auto simp: of_bytes_def as_bytes_def)
  then show "list_all b64_char l" using text_chars by (auto simp: list_all_iff)
qed

text \<open>All lines but the last are full.\<close>

lemma chunks_full: "0 < n \<Longrightarrow> c \<in> set (butlast (chunks n xs)) \<Longrightarrow> length c = n"
proof (induction n xs rule: chunks.induct)
  case (1 n xs)
  have xs: "xs \<noteq> []"
  proof
    assume "xs = []"
    then have "chunks n xs = []" by (subst chunks.simps) simp
    then show False using 1(3) by simp
  qed
  then have e: "chunks n xs = take n xs # chunks n (drop n xs)" using 1(2) by (subst chunks.simps) simp
  show ?case
  proof (cases "drop n xs = []")
    case True
    then have "chunks n (drop n xs) = []" by (subst chunks.simps) simp
    then show ?thesis using 1(3) e by simp
  next
    case False
    then have "chunks n (drop n xs) \<noteq> []" "length (take n xs) = n" using 1(2) by (subst chunks.simps, simp, simp)
    then show ?thesis using 1 e xs by auto
  qed
qed

lemma body_full: "l \<in> set (butlast (body_lines der)) \<Longrightarrow> length l = 64"
  using chunks_full [of 64 _ "as_bytes (b64_text der)"] by (auto simp: body_lines_def of_bytes_def simp flip: map_butlast)

lemma concat_body: "concat (body_lines der) = b64_text der"
proof -
  have "concat (body_lines der) = of_bytes (concat (chunks 64 (as_bytes (b64_text der))))"
    by (simp add: body_lines_def of_bytes_def [abs_def] map_concat)
  then show ?thesis by (simp add: concat_chunks)
qed

lemma der_to_pem_lines:
  assumes "rfc4648 R"
  shows "der_to_pem R der label = Returns (concat (map (\<lambda>l. l @ [CHR 0x0A]) (pem_lines der label)))"
  using assms der_to_pem_ok [OF rfc4648_ascii [OF assms], of der label]
  by (simp add: pem_lines_def body_lines_def rfc4648_def comp_def)

lemma pem_text_lines:
  assumes "CHR 0x0A \<notin> set label"
  shows "str_lines (concat (map (\<lambda>l. l @ [CHR 0x0A]) (pem_lines der label))) = pem_lines der label"
  using assms body_line(1,3) [of _ der] b64_char_plain(2,3)
  by (intro str_lines_terminated) (fastforce simp: pem_lines_def list_all_iff)

lemma read_pem_lines:
  assumes "CHR 0x0A \<notin> set label"
  shows "pem_spki_to_der (concat (map (\<lambda>l. l @ [CHR 0x0A]) (pem_lines der label))) = der"
proof -
  have "\<not> starts_with ''-----'' l" if "l \<in> set (body_lines der)" for l
    using body_line [OF that] b64_char_plain(4) by (cases l) (auto simp: starts_with_def)
  then have "filter (\<lambda>line. \<not> starts_with ''-----'' line) (pem_lines der label) = body_lines der"
    by (simp add: pem_lines_def starts_with_def filter_id_conv)
  then show ?thesis
    using decode_text [of "[]" 0 der]
    by (simp add: pem_spki_to_der_def base64_decode_def concat_body pem_text_lines [OF assms])
qed

section \<open>Property\<close>

text \<open>C39. PEM round trip: with the standard base64 encoding, \<open>der_to_pem\<close> returns, for a label
  without line feeds, exactly the boundary lines around the base64 text of the bytes, cut into
  lines of 64 characters (the last of 1 to 64), every line, the closing boundary too, ended by
  one line feed; the lines hold only base64 digits and padding, and \<open>pem_spki_to_der\<close> reads the
  bytes back.\<close>

theorem pem_roundtrip:
  assumes "rfc4648 R" "CHR 0x0A \<notin> set label"
  shows "\<exists>pem body. der_to_pem R der label = Returns pem \<and> pem_spki_to_der pem = der \<and>
    pem = concat (map (\<lambda>l. l @ [CHR 0x0A])
      ((''-----BEGIN '' @ label @ ''-----'') # body @ [''-----END '' @ label @ ''-----''])) \<and>
    concat body = b64_text der \<and> (\<forall>l \<in> set (butlast body). length l = 64) \<and>
    (\<forall>l \<in> set body. l \<noteq> [] \<and> length l \<le> 64 \<and> list_all b64_char l)"
proof -
  let ?pem = "concat (map (\<lambda>l. l @ [CHR 0x0A]) (pem_lines der label))"
  have "der_to_pem R der label = Returns ?pem" "pem_spki_to_der ?pem = der"
    using der_to_pem_lines [OF assms(1)] read_pem_lines [OF assms(2)] by blast+
  then show ?thesis
    using concat_body [of der] body_full body_line
    by (intro exI [of _ ?pem] exI [of _ "body_lines der"]) (simp only: pem_lines_def, blast)
qed

definition b64_lib :: "(unit, unit, unit) rcgen_lib" where
  "b64_lib = toy_lib\<lparr>base64_encode := b64_text\<rparr>"

theorem pem_roundtrip_witness:
  "\<exists>pem. der_to_pem b64_lib [0x30, 0x01, 0xFF, 0x80] ''PRIVATE KEY'' = Returns pem \<and>
     pem_spki_to_der pem = [0x30, 0x01, 0xFF, 0x80]"
  using pem_roundtrip [of b64_lib "''PRIVATE KEY''" "[0x30, 0x01, 0xFF, 0x80]"]
  by (simp add: rfc4648_def b64_lib_def) blast

end
