(* ===== verification/Renewal_Subject.thy ===== *)
theory Renewal_Subject
  imports Svid_Ca
begin

text \<open>
  Renewal and the role reader together. \<open>sign_svid_delegated\<close> keeps the subject of the request,
  and \<open>extract_role\<close> scans the raw certificate, where the subject stands before the
  extensions (RFC 5280). What a certificate library does with a subject of one attribute is
  the contract \<open>writes_subject\<close>.
\<close>

text \<open>The attribute's bytes are part of the certificate, and nothing before them looks like a role
  extension.\<close>

definition writes_subject :: "('kp, 'pk, 'iss) rcgen_lib \<Rightarrow> bool" where
  "writes_subject R \<longleftrightarrow> (\<forall>p pk iss cert t s. signed_by R p pk iss = Some cert \<longrightarrow> cp_distinguished_name p = [(t, s)] \<longrightarrow>
     (\<exists>pre post. cert = pre @ as_bytes s @ post \<and> no_earlier_hit FLEETOS_ROLE_OID_BYTES pre (as_bytes s @ post)))"

definition role_shaped :: "string \<Rightarrow> string" where
  "role_shaped r = of_bytes (ext_tail FLEETOS_ROLE_OID_BYTES (ext_value (role_extension r)))"

lemma role_shaped_read:
  assumes "role_ok r" "no_earlier_hit FLEETOS_ROLE_OID_BYTES pre (as_bytes (role_shaped r) @ post)"
  shows "extract_role (pre @ as_bytes (role_shaped r) @ post) = Some (WorkloadRole r)"
  using role_ext.reads_back [OF assms(1), of pre post] assms(2) by (auto simp: extract_role_def role_shaped_def)

text \<open>C18. The caller of a renewal chooses the role that is read from the certificate. Take a
  request whose only name is the delegated identity, so that every check passes, and whose
  subject holds the bytes of a role extension: the renewal signs it, and \<open>extract_role\<close>
  returns the role of the subject, whatever role the delegated key stamps.\<close>

theorem renewed_role_is_the_callers:
  assumes "writes_subject R" "base64_ascii R" "key_signs R key" "role_ok r"
    and "csr_from_der R der = Some (p, pk)" "cp_distinguished_name p = [(CommonName, role_shaped r)]"
    and "cp_subject_alt_names p = [San_URI (SpiffeId_to_string (dk_target_svid_id key))]" "spiffe_wf (dk_target_svid_id key)"
    and "now < dk_expires_at_unix key" "dur_secs d \<le> dk_expires_at_unix key - now"
    and "timestamp_ok R (sint now)" "timestamp_ok R (sint now + sint (dur_secs d))"
  shows "\<exists>cert. sign_svid_delegated R key der d now = Returns (Inr cert) \<and> extract_role cert = Some (WorkloadRole r)"
proof -
  have run: "sign_svid_delegated R key der d now = sign_leaf R key (renewed key d now p) pk"
    using assms by (intro sign_svid_delegated_granted) (simp_all add: renewal_granted_def)
  obtain cert where cert: "sign_leaf R key (renewed key d now p) pk = Returns (Inr cert)"
    using sign_leaf_signs [OF assms(2,3)] by blast
  then obtain iss where "signed_by R (renewed key d now p) pk iss = Some cert" by (rule sign_leaf_certificate)
  moreover have "cp_distinguished_name (renewed key d now p) = [(CommonName, role_shaped r)]"
    using assms(6) by (simp add: renewed_def)
  ultimately obtain pre post where "cert = pre @ as_bytes (role_shaped r) @ post"
      "no_earlier_hit FLEETOS_ROLE_OID_BYTES pre (as_bytes (role_shaped r) @ post)"
    using assms(1) unfolding writes_subject_def by blast
  then show ?thesis using run cert role_shaped_read [OF assms(4)] by simp
qed

text \<open>A library whose requests are the subject and whose certificates are the subject and the
  stamps.\<close>

definition subject_bytes :: "cert_params \<Rightarrow> bytes" where
  "subject_bytes p = concat (map (as_bytes \<circ> snd) (cp_distinguished_name p))"

definition subject_lib :: "(unit, unit, unit) rcgen_lib" where
  "subject_lib = toy_lib\<lparr>
     csr_from_der := (\<lambda>d. Some (toy_params\<lparr>cp_distinguished_name := [(CommonName, of_bytes d)],
       cp_subject_alt_names := [San_URI (SpiffeId_to_string (dk_target_svid_id toy_key))]\<rparr>, ())),
     signed_by := (\<lambda>p _ _. Some (0x30 # subject_bytes p @ concat (map ext_value (cp_custom_extensions p))))\<rparr>"

definition replica_key :: delegated_signing_key where
  "replica_key = toy_key\<lparr>dk_target_role := Some (WorkloadRole ''replica'')\<rparr>"

lemma subject_lib_writes: "writes_subject subject_lib"
  unfolding writes_subject_def
proof (intro allI impI)
  fix p pk iss cert t s
  assume "signed_by subject_lib p pk iss = Some cert" "cp_distinguished_name p = [(t, s)]"
  then have "cert = [0x30] @ as_bytes s @ concat (map ext_value (cp_custom_extensions p))"
    by (auto simp: subject_lib_def subject_bytes_def)
  moreover have "oid_ext_at (0x30 # x) FLEETOS_ROLE_OID_BYTES 0 = None" for x
    by (simp add: oid_ext_at_def FLEETOS_ROLE_OID_BYTES_def)
  ultimately show "\<exists>pre post. cert = pre @ as_bytes s @ post \<and> no_earlier_hit FLEETOS_ROLE_OID_BYTES pre (as_bytes s @ post)"
    by (intro exI [of _ "[0x30]"] exI [of _ "concat (map ext_value (cp_custom_extensions p))"]) (auto simp: no_earlier_hit_def)
qed

theorem renewed_role_is_the_callers_witness:
  "\<exists>cert. sign_svid_delegated subject_lib replica_key (as_bytes (role_shaped ''admin'')) \<lparr>dur_secs = 50, dur_nanos = 0\<rparr> 40 =
       Returns (Inr cert) \<and> extract_role cert = Some (WorkloadRole ''admin'')"
proof (rule renewed_role_is_the_callers [OF subject_lib_writes])
  show "base64_ascii subject_lib" using toy_ascii by (simp add: base64_ascii_def subject_lib_def)
  show "key_signs subject_lib replica_key" by (simp add: key_signs_def subject_lib_def toy_lib_def)
  show "role_ok ''admin''" by (simp add: ext_eval)
  show "spiffe_wf (dk_target_svid_id replica_key)" using toy_wf by (simp add: replica_key_def)
qed (simp_all add: subject_lib_def replica_key_def toy_key_def toy_lib_def)+

end
