(* ===== verification/Quote_Tests.thy ===== *)
theory Quote_Tests
  imports Quote_Verify Tpm_Pure
begin

text \<open>
  The unit tests of attestation, as the crate has them: \<open>ak_pub_parse_tests\<close> and
  \<open>pcr_binding_tests\<close> of \<open>attestation/quote.rs\<close>, \<open>cr14_tests\<close> of \<open>attestation.rs\<close> and
  \<open>compute_ak_name_tests\<close> of \<open>attestation/tpm.rs\<close>. Each test is a predicate, its assertions
  joined, over the fixtures it builds; the theorems run them against the model. So the
  model agrees with its authors' expectations wherever they wrote them down, and for every
  hash function instead of the one the tests are linked with.
\<close>

section \<open>Parsing an attestation key\<close>

definition build_ecc_tpmt_public :: "bool \<Rightarrow> bytes \<times> bytes \<times> bytes" where
  "build_ecc_tpmt_public scheme_with_hash =
     (let x = replicate 32 0x11; y = replicate 32 0x22;
          b = be_bytes 2 (0x0023 :: u16);
          b = b @ be_bytes 2 (0x000B :: u16);
          b = b @ be_bytes 4 (0x00050072 :: u32);
          b = b @ be_bytes 2 (0x0000 :: u16);
          b = b @ be_bytes 2 (0x0010 :: u16);
          b = (if scheme_with_hash then b @ be_bytes 2 (0x0018 :: u16) @ be_bytes 2 (0x000B :: u16)
               else b @ be_bytes 2 (0x0010 :: u16));
          b = b @ be_bytes 2 (0x0003 :: u16);
          b = b @ be_bytes 2 (0x0010 :: u16);
          b = b @ be_bytes 2 (word_of_nat (length x) :: u16) @ x;
          b = b @ be_bytes 2 (word_of_nat (length y) :: u16) @ y
      in (b, x, y))"

definition parses_real_tpm_ecdsa_scheme_layout :: bool where
  "parses_real_tpm_ecdsa_scheme_layout =
     (let (bytes, x, y) = build_ecc_tpmt_public True in
      case parse_ak_public bytes of Inr (Ecc px py) \<Rightarrow> px = x \<and> py = y | _ \<Rightarrow> False)"

definition parses_null_scheme_layout :: bool where
  "parses_null_scheme_layout =
     (let (bytes, x, y) = build_ecc_tpmt_public False in
      case parse_ak_public bytes of Inr (Ecc px py) \<Rightarrow> px = x \<and> py = y | _ \<Rightarrow> False)"

section \<open>PCR binding\<close>

definition test_sha256 :: "(hash_kind \<Rightarrow> bytes \<Rightarrow> bytes) \<Rightarrow> bytes \<Rightarrow> bytes" where
  "test_sha256 sha2 data = sha2 Sha256 data"

definition build_quote :: "(hash_kind \<Rightarrow> bytes \<Rightarrow> bytes) \<Rightarrow> bytes \<Rightarrow> bytes \<Rightarrow> bytes \<Rightarrow> bytes \<Rightarrow> bytes" where
  "build_quote sha2 pcr0 pcr7 pcr9 nonce =
     (let q = [0xff, 0x54, 0x43, 0x47];
          q = q @ be_bytes 2 (0x8018 :: u16);
          q = q @ be_bytes 2 (0 :: u16);
          q = q @ be_bytes 2 (word_of_nat (length nonce) :: u16);
          q = q @ nonce;
          q = q @ replicate 17 0;
          q = q @ replicate 8 0;
          q = q @ be_bytes 4 (1 :: u32);
          q = q @ be_bytes 2 (0x000B :: u16);
          q = q @ [3];
          q = q @ [0x81, 0x02, 0x00];
          cat = pcr0 @ pcr7 @ pcr9;
          digest = test_sha256 sha2 cat;
          q = q @ be_bytes 2 (word_of_nat (length digest) :: u16)
      in q @ digest)"

definition submitted :: "bytes \<Rightarrow> bytes \<Rightarrow> bytes \<Rightarrow> pcr_value list" where
  "submitted pcr0 pcr7 pcr9 =
     [\<lparr>pcr_index = 0, pcr_hash_algorithm = 0x000B, pcr_digest = pcr0\<rparr>,
      \<lparr>pcr_index = 7, pcr_hash_algorithm = 0x000B, pcr_digest = pcr7\<rparr>,
      \<lparr>pcr_index = 9, pcr_hash_algorithm = 0x000B, pcr_digest = pcr9\<rparr>]"

text \<open>\<open>is_ok\<close> and \<open>is_err\<close> of a result.\<close>

definition accepted :: "'e + 'a \<Rightarrow> bool" where
  "accepted r = (case r of Inr _ \<Rightarrow> True | Inl _ \<Rightarrow> False)"

abbreviation p0 :: bytes where "p0 \<equiv> replicate 32 1"
abbreviation p7 :: bytes where "p7 \<equiv> replicate 32 2"
abbreviation p9 :: bytes where "p9 \<equiv> replicate 32 3"
abbreviation test_quote :: "(hash_kind \<Rightarrow> bytes \<Rightarrow> bytes) \<Rightarrow> bytes" where
  "test_quote sha2 \<equiv> build_quote sha2 p0 p7 p9 (replicate 32 0xAA)"

definition binding_holds_for_matching_values :: "(hash_kind \<Rightarrow> bytes \<Rightarrow> bytes) \<Rightarrow> bool" where
  "binding_holds_for_matching_values sha2 = accepted (verify_pcr_binding sha2 (test_quote sha2) (submitted p0 p7 p9))"

definition binding_rejects_tampered_pcr_value :: "(hash_kind \<Rightarrow> bytes \<Rightarrow> bytes) \<Rightarrow> bool" where
  "binding_rejects_tampered_pcr_value sha2 =
     (let bad_p9 = replicate 32 0xFF in
      \<not> accepted (verify_pcr_binding sha2 (test_quote sha2) (submitted p0 p7 bad_p9)))"

definition binding_rejects_missing_selected_pcr :: "(hash_kind \<Rightarrow> bytes \<Rightarrow> bytes) \<Rightarrow> bool" where
  "binding_rejects_missing_selected_pcr sha2 =
     (let s = filter (\<lambda>p. pcr_index p \<noteq> 7) (submitted p0 p7 p9) in
      \<not> accepted (verify_pcr_binding sha2 (test_quote sha2) s))"

definition binding_rejects_wrong_algorithm_claim :: "(hash_kind \<Rightarrow> bytes \<Rightarrow> bytes) \<Rightarrow> bool" where
  "binding_rejects_wrong_algorithm_claim sha2 =
     (let s = submitted p0 p7 p9; s = s[1 := (s ! 1)\<lparr>pcr_hash_algorithm := 0x000C\<rparr>] in
      \<not> accepted (verify_pcr_binding sha2 (test_quote sha2) s))"

definition binding_rejects_truncated_or_garbage_quote :: "(hash_kind \<Rightarrow> bytes \<Rightarrow> bytes) \<Rightarrow> bool" where
  "binding_rejects_truncated_or_garbage_quote sha2 \<longleftrightarrow>
     \<not> accepted (verify_pcr_binding sha2 [] []) \<and>
     \<not> accepted (verify_pcr_binding sha2 [0xff, 0x54, 0x43, 0x47] []) \<and>
     (let q = (test_quote sha2)[0 := 0x00] in \<not> accepted (verify_pcr_binding sha2 q (submitted p0 p7 p9)))"

definition extra_unselected_pcrs_are_ignored :: "(hash_kind \<Rightarrow> bytes \<Rightarrow> bytes) \<Rightarrow> bool" where
  "extra_unselected_pcrs_are_ignored sha2 =
     (let s = submitted p0 p7 p9 @ [\<lparr>pcr_index = 12, pcr_hash_algorithm = 0x000B, pcr_digest = replicate 32 9\<rparr>] in
      accepted (verify_pcr_binding sha2 (test_quote sha2) s))"

section \<open>PCR policy and activation proof\<close>

definition pcr :: "u8 \<Rightarrow> bytes \<Rightarrow> pcr_value" where
  "pcr index digest = \<lparr>pcr_index = index, pcr_hash_algorithm = 0x000B, pcr_digest = digest\<rparr>"

definition pcr_policy_passes_when_all_match :: bool where
  "pcr_policy_passes_when_all_match =
     (let policy = \<lparr>expected_pcrs = [pcr 0 (replicate 32 1), pcr 7 (replicate 32 2)]\<rparr>;
          submitted = [pcr 7 (replicate 32 2), pcr 0 (replicate 32 1), pcr 9 (replicate 32 9)]
      in accepted (verify_pcr_policy submitted policy))"

definition pcr_policy_fails_closed_on_missing_register :: bool where
  "pcr_policy_fails_closed_on_missing_register =
     (let policy = \<lparr>expected_pcrs = [pcr 0 (replicate 32 1), pcr 7 (replicate 32 2)]\<rparr>;
          submitted = [pcr 0 (replicate 32 1)]
      in verify_pcr_policy submitted policy = Inl PolicyMismatch)"

definition pcr_policy_fails_closed_on_digest_mismatch :: bool where
  "pcr_policy_fails_closed_on_digest_mismatch =
     (let policy = \<lparr>expected_pcrs = [pcr 0 (replicate 32 1)]\<rparr>;
          submitted = [pcr 0 (replicate 32 0xFF)]
      in verify_pcr_policy submitted policy = Inl PolicyMismatch)"

definition pcr_policy_fails_closed_on_algorithm_mismatch :: bool where
  "pcr_policy_fails_closed_on_algorithm_mismatch =
     (let policy = \<lparr>expected_pcrs = [pcr 0 (replicate 32 1)]\<rparr>;
          submitted = [pcr 0 (replicate 32 1)];
          submitted = submitted[0 := (submitted ! 0)\<lparr>pcr_hash_algorithm := 0x000C\<rparr>]
      in verify_pcr_policy submitted policy = Inl PolicyMismatch)"

definition empty_policy_passes_trivially :: bool where
  "empty_policy_passes_trivially = accepted (verify_pcr_policy [] \<lparr>expected_pcrs = []\<rparr>)"

abbreviation server_nonce_bytes :: bytes where "server_nonce_bytes \<equiv> as_bytes ''server-nonce-bytes''"

definition activation_proof_roundtrip :: "(bytes \<Rightarrow> bytes \<Rightarrow> bytes) \<Rightarrow> bool" where
  "activation_proof_roundtrip keyed_hash =
     (let secret = replicate 32 7;
          proof = compute_activation_proof keyed_hash secret server_nonce_bytes
      in verify_activation_proof keyed_hash secret server_nonce_bytes proof)"

definition activation_proof_rejects_wrong_secret_or_nonce :: "(bytes \<Rightarrow> bytes \<Rightarrow> bytes) \<Rightarrow> bool" where
  "activation_proof_rejects_wrong_secret_or_nonce keyed_hash =
     (let secret = replicate 32 7;
          proof = compute_activation_proof keyed_hash secret server_nonce_bytes
      in \<not> verify_activation_proof keyed_hash (replicate 32 8) server_nonce_bytes proof \<and>
         \<not> verify_activation_proof keyed_hash secret (as_bytes ''other-nonce'') proof)"

section \<open>Names of attestation keys\<close>

definition tpmt_public_with_name_alg :: "u16 \<Rightarrow> bytes" where
  "tpmt_public_with_name_alg name_alg = be_bytes 2 (0x0023 :: u16) @ be_bytes 2 name_alg @ replicate 32 0"

definition ak_name_accepted :: "tss_types \<Rightarrow> (hash_kind \<Rightarrow> bytes \<Rightarrow> bytes) \<Rightarrow> bytes \<Rightarrow> bool" where
  "ak_name_accepted Y sha2 b = accepted (compute_ak_name Y sha2 b)"

definition sha256_name_alg_is_accepted :: "tss_types \<Rightarrow> (hash_kind \<Rightarrow> bytes \<Rightarrow> bytes) \<Rightarrow> bool" where
  "sha256_name_alg_is_accepted Y sha2 = ak_name_accepted Y sha2 (tpmt_public_with_name_alg 0x000B)"

definition sha384_name_alg_is_accepted :: "tss_types \<Rightarrow> (hash_kind \<Rightarrow> bytes \<Rightarrow> bytes) \<Rightarrow> bool" where
  "sha384_name_alg_is_accepted Y sha2 = ak_name_accepted Y sha2 (tpmt_public_with_name_alg 0x000C)"

definition sha512_name_alg_is_accepted :: "tss_types \<Rightarrow> (hash_kind \<Rightarrow> bytes \<Rightarrow> bytes) \<Rightarrow> bool" where
  "sha512_name_alg_is_accepted Y sha2 = ak_name_accepted Y sha2 (tpmt_public_with_name_alg 0x000D)"

definition sha1_name_alg_is_rejected :: "tss_types \<Rightarrow> (hash_kind \<Rightarrow> bytes \<Rightarrow> bytes) \<Rightarrow> bool" where
  "sha1_name_alg_is_rejected Y sha2 = (\<not> ak_name_accepted Y sha2 (tpmt_public_with_name_alg 0x0004))"

definition unknown_name_alg_is_rejected :: "tss_types \<Rightarrow> (hash_kind \<Rightarrow> bytes \<Rightarrow> bytes) \<Rightarrow> bool" where
  "unknown_name_alg_is_rejected Y sha2 = (\<not> ak_name_accepted Y sha2 (tpmt_public_with_name_alg 0xFFFF))"

definition too_short_buffer_is_rejected :: "tss_types \<Rightarrow> (hash_kind \<Rightarrow> bytes \<Rightarrow> bytes) \<Rightarrow> bool" where
  "too_short_buffer_is_rejected Y sha2 = (\<not> ak_name_accepted Y sha2 [0x00, 0x23])"

section \<open>They pass\<close>

lemma ak_pub_parse_pass: "parses_real_tpm_ecdsa_scheme_layout" "parses_null_scheme_layout"
  by code_simp+

lemma build_quote_attest:
  "build_quote sha2 a b c n =
     attest_bytes [] n (replicate 17 0) (replicate 8 0) 0x000B [0x81, 0x02, 0x00] (sha2 Sha256 (a @ b @ c))"
  by (simp add: build_quote_def test_sha256_def attest_bytes_def tpm_consts tpm2b_def Let_def)

lemma test_quote_read:
  assumes "small (sha2 Sha256 (a @ b @ c))" "small n"
  shows "read_quote_info (build_quote sha2 a b c n) = Inr (0x000B, [0x81, 0x02, 0x00], sha2 Sha256 (a @ b @ c))"
  unfolding read_quote_info_iff build_quote_attest
  by (intro exI conjI, rule append_Nil2 [symmetric]) (use assms in \<open>simp_all add: small_def\<close>)

lemma test_selection: "selected_indices [0x81, 0x02, 0x00] = [0, 7, 9]"
  by code_simp

lemma test_binding:
  assumes "small (sha2 Sha256 (p0 @ p7 @ p9))"
  shows "verify_pcr_binding sha2 (test_quote sha2) s = rbind (concat_selected s 0x000B 32 [0, 7, 9]) (\<lambda>cat.
    if sha2 Sha256 cat \<noteq> sha2 Sha256 (p0 @ p7 @ p9) then Inl VerificationFailed else Inr ())"
proof -
  have "small (replicate 32 0xAA)" by (simp add: small_def)
  from test_quote_read [of sha2 p0 p7 p9, OF assms this] show ?thesis
    by (simp add: verify_pcr_binding_def test_selection hash_of_alg_def tpm_consts ct_eq_iff)
qed

lemma name_alg_bytes: "from_be [tpmt_public_with_name_alg a ! 2, tpmt_public_with_name_alg a ! 3] = a"
proof -
  have "[xs ! 2, xs ! 3] = take 2 (drop 2 xs)" if "length xs \<ge> 4" for xs :: bytes
    using that by (intro nth_equalityI) (auto simp: less_Suc_eq numeral_2_eq_2 numeral_3_eq_3)
  from this [of "tpmt_public_with_name_alg a"] show ?thesis by (simp add: tpmt_public_with_name_alg_def)
qed

lemma ak_name_tests:
  assumes "\<forall>b. buffer_try_from Y BName b = None"
  shows "ak_name_accepted Y sha2 (tpmt_public_with_name_alg a) \<longleftrightarrow> a \<in> {0x000B, 0x000C, 0x000D}"
proof -
  have "\<not> length (tpmt_public_with_name_alg a) < 4" by (simp add: tpmt_public_with_name_alg_def)
  then show ?thesis using assms
    by (simp add: ak_name_accepted_def compute_ak_name_def accepted_def name_alg_bytes Let_def rbind_def conv_def)
qed

text \<open>The unit tests of quote verification pass against the model, for every SHA-256 with
  outputs that fit a size field and no collision on the one pair of inputs that
  \<open>binding_rejects_tampered_pcr_value\<close> compares.\<close>

theorem quote_tests_pass:
  assumes "small (sha2 Sha256 (p0 @ p7 @ p9))" "sha2 Sha256 (p0 @ p7 @ replicate 32 0xFF) \<noteq> sha2 Sha256 (p0 @ p7 @ p9)"
  shows "parses_real_tpm_ecdsa_scheme_layout \<and> parses_null_scheme_layout \<and>
    binding_holds_for_matching_values sha2 \<and> binding_rejects_tampered_pcr_value sha2 \<and>
    binding_rejects_missing_selected_pcr sha2 \<and> binding_rejects_wrong_algorithm_claim sha2 \<and>
    binding_rejects_truncated_or_garbage_quote sha2 \<and> extra_unselected_pcrs_are_ignored sha2"
proof -
  note defs = test_binding [of sha2, OF assms(1)] submitted_def accepted_def is_pcr_def Let_def ok_or_def rbind_def
  have "binding_holds_for_matching_values sha2" "extra_unselected_pcrs_are_ignored sha2"
    by (simp_all add: binding_holds_for_matching_values_def extra_unselected_pcrs_are_ignored_def defs)
  moreover have "binding_rejects_tampered_pcr_value sha2"
    using assms(2) by (simp add: binding_rejects_tampered_pcr_value_def defs)
  moreover have "binding_rejects_missing_selected_pcr sha2" "binding_rejects_wrong_algorithm_claim sha2"
    by (simp_all add: binding_rejects_missing_selected_pcr_def binding_rejects_wrong_algorithm_claim_def defs)
  moreover have "binding_rejects_truncated_or_garbage_quote sha2"
    by (simp add: binding_rejects_truncated_or_garbage_quote_def accepted_def verify_pcr_binding_def Let_def
        read_quote_info_def r_take_def r_u16_def rbind_def build_quote_def tpm_consts)
  ultimately show ?thesis using ak_pub_parse_pass by blast
qed

text \<open>The unit tests of the PCR policy, the activation proof and the attestation key name
  pass against the model, for every keyed hash that tells the three calls of the proof
  tests apart and every SHA-2, where \<open>Name\<close> takes what \<open>compute_ak_name\<close> gives it.\<close>

theorem attestation_tests_pass:
  assumes "keyed_hash (replicate 32 8) server_nonce_bytes \<noteq> keyed_hash (replicate 32 7) server_nonce_bytes"
    "keyed_hash (replicate 32 7) (as_bytes ''other-nonce'') \<noteq> keyed_hash (replicate 32 7) server_nonce_bytes"
    "\<forall>b. buffer_try_from Y BName b = None"
  shows "pcr_policy_passes_when_all_match \<and> pcr_policy_fails_closed_on_missing_register \<and>
    pcr_policy_fails_closed_on_digest_mismatch \<and> pcr_policy_fails_closed_on_algorithm_mismatch \<and>
    empty_policy_passes_trivially \<and> activation_proof_roundtrip keyed_hash \<and>
    activation_proof_rejects_wrong_secret_or_nonce keyed_hash \<and>
    sha256_name_alg_is_accepted Y sha2 \<and> sha384_name_alg_is_accepted Y sha2 \<and> sha512_name_alg_is_accepted Y sha2 \<and>
    sha1_name_alg_is_rejected Y sha2 \<and> unknown_name_alg_is_rejected Y sha2 \<and> too_short_buffer_is_rejected Y sha2"
proof -
  have "pcr_policy_passes_when_all_match" "pcr_policy_fails_closed_on_missing_register"
    "pcr_policy_fails_closed_on_digest_mismatch" "pcr_policy_fails_closed_on_algorithm_mismatch"
    "empty_policy_passes_trivially"
    by code_simp+
  moreover have "activation_proof_roundtrip keyed_hash" "activation_proof_rejects_wrong_secret_or_nonce keyed_hash"
    using assms(1,2) by (simp_all add: activation_proof_roundtrip_def activation_proof_rejects_wrong_secret_or_nonce_def
        verify_activation_proof_def compute_activation_proof_def Let_def del: as_bytes_append)
  moreover have "\<not> ak_name_accepted Y sha2 [0x00, 0x23]" by (simp add: ak_name_accepted_def compute_ak_name_def accepted_def)
  ultimately show ?thesis
    by (simp add: ak_name_tests [OF assms(3)] sha256_name_alg_is_accepted_def sha384_name_alg_is_accepted_def sha512_name_alg_is_accepted_def
        sha1_name_alg_is_rejected_def unknown_name_alg_is_rejected_def too_short_buffer_is_rejected_def)
qed

theorem quote_tests_pass_witness:
  "binding_holds_for_matching_values (\<lambda>_ c. c) \<and> binding_rejects_tampered_pcr_value (\<lambda>_ c. c)"
  using quote_tests_pass [of "\<lambda>_ c. c"] by (simp add: small_def)

theorem attestation_tests_pass_witness:
  "activation_proof_rejects_wrong_secret_or_nonce (@) \<and> sha1_name_alg_is_rejected plain_types (\<lambda>_ c. c)"
  using attestation_tests_pass [of "(@)" plain_types "\<lambda>_ c. c"] by (simp add: plain_types_def)

end
