(* ===== verification/Id_Tests.thy ===== *)
theory Id_Tests
  imports Attest_Core Operator_Grant Naming
begin

text \<open>
  The unit tests of the identifiers and of the hostname convention, as the crate has them:
  \<open>ek_fingerprint_tests\<close> of \<open>attestation.rs\<close> and the \<open>tests\<close> modules of \<open>operator.rs\<close> and
  \<open>naming.rs\<close>. Tests that assert different identifiers hold for every hash whose truncation
  tells the few layouts apart that the tests compare; that these layouts differ is part of
  the proof.
\<close>

section \<open>EK fingerprints\<close>

definition test_ek_pub :: "u8 \<Rightarrow> bytes" where
  "test_ek_pub seed = replicate 32 seed"

definition ek_deterministic :: "(bytes \<Rightarrow> bytes) \<Rightarrow> bool" where
  "ek_deterministic blake3 = (of_ek_pub blake3 (test_ek_pub 0x11) = of_ek_pub blake3 (test_ek_pub 0x11))"

definition every_byte_moves_the_fingerprint :: "(bytes \<Rightarrow> bytes) \<Rightarrow> bool" where
  "every_byte_moves_the_fingerprint blake3 =
     (let base = of_ek_pub blake3 (test_ek_pub 0x11);
          flipped = (test_ek_pub 0x11)[17 := test_ek_pub 0x11 ! 17 XOR 0x01];
          longer = replicate 33 0x11
      in base \<noteq> of_ek_pub blake3 flipped \<and> base \<noteq> of_ek_pub blake3 longer)"

definition empty_input_is_distinct :: "(bytes \<Rightarrow> bytes) \<Rightarrow> bool" where
  "empty_input_is_distinct blake3 = (of_ek_pub blake3 [] \<noteq> of_ek_pub blake3 (test_ek_pub 0x00))"

definition acme_grant :: grant_args where
  "acme_grant = \<lparr>ga_operator_id = ''acme'', ga_granted_by = ''acme'', ga_granted_at_unix = 0, ga_expires_at_unix = 0,
     ga_cluster_admin = False, ga_read_only = False, ga_tenants = []\<rparr>"

definition domain_separated_from_other_core_ids :: "(bytes \<Rightarrow> bytes) \<Rightarrow> bool" where
  "domain_separated_from_other_core_ids blake3 =
     (let fp = of_ek_pub blake3 (as_bytes ''acme''); grant = of_grant blake3 acme_grant
      in ek_as_bytes fp \<noteq> OperatorGrantId_as_bytes grant)"

text \<open>\<open>to_uppercase\<close> on ASCII text, and the digits \<open>is_ascii_digit\<close> or in \<open>'a'..='f'\<close>.\<close>

definition ascii_upper :: "char \<Rightarrow> char" where
  "ascii_upper c = (if CHR ''a'' \<le> c \<and> c \<le> CHR ''z'' then char_of (of_char c - 32 :: nat) else c)"

definition lower_hex_digit :: "char \<Rightarrow> bool" where
  "lower_hex_digit c \<longleftrightarrow> is_ascii_digit c \<or> CHR ''a'' \<le> c \<and> c \<le> CHR ''f''"

definition ek_hex_roundtrip_test :: "(bytes \<Rightarrow> bytes) \<Rightarrow> bool" where
  "ek_hex_roundtrip_test blake3 =
     (let fp = of_ek_pub blake3 (test_ek_pub 0x2a); hex = ek_to_hex fp
      in length hex = 32 \<and> list_all lower_hex_digit hex \<and> ek_from_hex hex = Some fp \<and> ek_from_str hex = Inr fp \<and>
         ek_from_hex (map ascii_upper hex) = Some fp \<and>
         ek_from_hex ''nothex'' = None \<and> ek_from_hex (replicate 31 CHR ''0'') = None)"

section \<open>Operator grants\<close>

definition test_grant_args :: "string list \<Rightarrow> grant_args" where
  "test_grant_args tenants =
     \<lparr>ga_operator_id = ''spiffe://admin.example.org/ns/system/operator/alice'',
      ga_granted_by = ''spiffe://admin.example.org/ns/system/operator/root'',
      ga_granted_at_unix = 1700000000, ga_expires_at_unix = 1700003600,
      ga_cluster_admin = False, ga_read_only = False, ga_tenants = tenants\<rparr>"

definition grant :: "(bytes \<Rightarrow> bytes) \<Rightarrow> string list \<Rightarrow> operator_grant_id" where
  "grant blake3 tenants = of_grant blake3 (test_grant_args tenants)"

definition grant_deterministic :: "(bytes \<Rightarrow> bytes) \<Rightarrow> bool" where
  "grant_deterministic blake3 = (grant blake3 [''acme''] = grant blake3 [''acme''])"

definition tenant_order_and_dupes_canonicalized :: "(bytes \<Rightarrow> bytes) \<Rightarrow> bool" where
  "tenant_order_and_dupes_canonicalized blake3 \<longleftrightarrow>
     grant blake3 [''acme'', ''beta''] = grant blake3 [''beta'', ''acme''] \<and>
     grant blake3 [''acme'', ''acme'', ''beta''] = grant blake3 [''beta'', ''acme'']"

definition separator_safety :: "(bytes \<Rightarrow> bytes) \<Rightarrow> bool" where
  "separator_safety blake3 \<longleftrightarrow>
     grant blake3 [''ab'', ''c''] \<noteq> grant blake3 [''abc''] \<and> grant blake3 [''a'', ''bc''] \<noteq> grant blake3 [''ab'', ''c'']"

text \<open>The calls of \<open>every_field_moves_the_id\<close>, each with one field changed.\<close>

definition moved_grants :: "grant_args list" where
  "moved_grants =
     (let a = test_grant_args [''acme''] in
      [a\<lparr>ga_operator_id := ''spiffe://admin.example.org/ns/system/operator/bob''\<rparr>,
       a\<lparr>ga_granted_at_unix := 1700000001\<rparr>, a\<lparr>ga_expires_at_unix := 1700003601\<rparr>,
       a\<lparr>ga_cluster_admin := True\<rparr>, a\<lparr>ga_read_only := True\<rparr>, test_grant_args [''beta'']])"

definition every_field_moves_the_id :: "(bytes \<Rightarrow> bytes) \<Rightarrow> bool" where
  "every_field_moves_the_id blake3 =
     (let base = grant blake3 [''acme''] in list_all (\<lambda>a. base \<noteq> of_grant blake3 a) moved_grants)"

definition grant_hex_roundtrip_test :: "(bytes \<Rightarrow> bytes) \<Rightarrow> bool" where
  "grant_hex_roundtrip_test blake3 =
     (let id = grant blake3 [''acme'']; hex = OperatorGrantId_to_hex id
      in length hex = 32 \<and> OperatorGrantId_from_hex hex = Some id \<and> OperatorGrantId_from_str hex = Inr id \<and>
         OperatorGrantId_from_hex ''nothex'' = None \<and> OperatorGrantId_from_hex (replicate 31 CHR ''0'') = None)"

section \<open>Hostnames\<close>

definition canonical_form :: bool where
  "canonical_form = (dummy_ip_hostname ''db'' ''replica'' ''acme'' ''fleet.example.internal'' =
     Inr ''db.replica.acme.svc.fleet.example.internal'')"

definition lowercases_inputs :: bool where
  "lowercases_inputs = (dummy_ip_hostname ''DB'' ''Replica'' ''ACME'' ''Fleet.Example.Internal'' =
     Inr ''db.replica.acme.svc.fleet.example.internal'')"

definition hostname_ok :: "string \<Rightarrow> string \<Rightarrow> string \<Rightarrow> string \<Rightarrow> bool" where
  "hostname_ok s r t d = (case dummy_ip_hostname s r t d of Inr _ \<Rightarrow> True | Inl _ \<Rightarrow> False)"

definition rejects_unsafe_labels :: bool where
  "rejects_unsafe_labels \<longleftrightarrow>
     \<not> hostname_ok '''' ''r'' ''t'' ''d'' \<and> hostname_ok ''db'' ''r'' ''t'' ''d'' \<and> \<not> hostname_ok ''db_'' ''r'' ''t'' ''d'' \<and>
     \<not> hostname_ok ''-db'' ''r'' ''t'' ''d'' \<and> \<not> hostname_ok ''db-'' ''r'' ''t'' ''d'' \<and>
     \<not> hostname_ok ''db'' ''r'' ''t'' ''fleet..internal''"

section \<open>They pass\<close>

lemma naming_pass: "canonical_form" "lowercases_inputs" "rejects_unsafe_labels"
  by code_simp+

text \<open>Hex digits are lower case, and the upper case form is read as the same digits.\<close>

lemma HEX_char:
  "n < 16 \<Longrightarrow> lower_hex_digit (HEX ! n)"
  "n < 16 \<Longrightarrow> hex_val (byte_of_char (ascii_upper (HEX ! n))) = Some (word_of_nat n)"
proof -
  have "list_all (\<lambda>n. lower_hex_digit (HEX ! n) \<and> hex_val (byte_of_char (ascii_upper (HEX ! n))) = Some (word_of_nat n)) [0..<16]"
    by code_simp
  then show "n < 16 \<Longrightarrow> lower_hex_digit (HEX ! n)"
    "n < 16 \<Longrightarrow> hex_val (byte_of_char (ascii_upper (HEX ! n))) = Some (word_of_nat n)"
    by (simp_all add: list_all_iff)
qed

lemma hex_encode_digits: "list_all lower_hex_digit (hex_encode bs)"
  by (induction bs) (simp_all add: HEX_char)

lemma hex_encode_upper: "hex_pairs (as_bytes (map ascii_upper (hex_encode bs))) = Some bs"
  by (induction bs) (simp_all add: as_bytes_Cons HEX_char nibbles_join)

text \<open>The layouts the tests compare.\<close>

definition test_layouts :: "bytes list" where
  "test_layouts = map ek_preimage [test_ek_pub 0x11, (test_ek_pub 0x11)[17 := 0x10], replicate 33 0x11, [], test_ek_pub 0x00, as_bytes ''acme''] @
     map grant_preimage (acme_grant # map test_grant_args [[''ab'', ''c''], [''abc''], [''a'', ''bc''], [''acme'']] @ moved_grants)"

lemma layouts_apart:
  assumes "inj_on (trunc16 H) (set test_layouts)" "x \<in> set test_layouts" "y \<in> set test_layouts"
  shows "\<not> collides H x y"
  using assms by (auto simp: collides_def dest: inj_onD)

lemma ek_layout:
  "p \<in> {test_ek_pub 0x11, (test_ek_pub 0x11)[17 := 0x10], replicate 33 0x11, [], test_ek_pub 0x00, as_bytes ''acme''} \<Longrightarrow>
     ek_preimage p \<in> set test_layouts"
  by (auto simp: test_layouts_def)

lemma grant_layout:
  "a \<in> set (acme_grant # map test_grant_args [[''ab'', ''c''], [''abc''], [''a'', ''bc''], [''acme'']] @ moved_grants) \<Longrightarrow>
     grant_preimage a \<in> set test_layouts"
  unfolding test_layouts_def by auto

lemma test_grants_wf:
  "list_all grant_wf (map test_grant_args [[''ab'', ''c''], [''abc''], [''a'', ''bc''], [''acme''], [''acme'', ''beta''],
     [''beta'', ''acme''], [''acme'', ''acme'', ''beta'']] @ moved_grants)"
  by (simp add: test_grant_args_def moved_grants_def grant_wf_def)

lemma flipped_ek_pub: "(test_ek_pub 0x11)[17 := test_ek_pub 0x11 ! 17 XOR 0x01] = (test_ek_pub 0x11)[17 := 0x10]"
  by (simp add: test_ek_pub_def)

lemma ek_pubs_differ:
  "test_ek_pub 0x11 \<noteq> (test_ek_pub 0x11)[17 := 0x10]" "test_ek_pub 0x11 \<noteq> replicate 33 0x11" "[] \<noteq> test_ek_pub 0x00"
  by (simp_all add: test_ek_pub_def list_eq_iff_nth_eq exI [of _ 17])

lemma ek_tests:
  assumes "inj_on (trunc16 H) (set test_layouts)"
  shows "every_byte_moves_the_fingerprint H" "empty_input_is_distinct H"
proof -
  note apart = layouts_apart [OF assms ek_layout ek_layout]
  show "every_byte_moves_the_fingerprint H"
    unfolding every_byte_moves_the_fingerprint_def Let_def flipped_ek_pub
    by (simp add: ek_id.ident_eq_iff ek_pubs_differ apart)
  show "empty_input_is_distinct H"
    unfolding empty_input_is_distinct_def by (simp add: ek_id.ident_eq_iff ek_pubs_differ apart)
qed

text \<open>The two domain tags differ before either ends, whatever follows them.\<close>

lemma domain_tags_differ: "ek_preimage p \<noteq> grant_preimage a"
  by (simp add: ek_preimage_def grant_preimage_eq as_bytes_Cons byte_of_char_def)

lemma domains_test:
  assumes "inj_on (trunc16 H) (set test_layouts)"
  shows "domain_separated_from_other_core_ids H"
  using layouts_apart [OF assms ek_layout [of "as_bytes ''acme''"] grant_layout [of acme_grant]]
    domain_tags_differ [of "as_bytes ''acme''" acme_grant]
  by (simp add: domain_separated_from_other_core_ids_def of_ek_pub_def of_grant_def collides_def)

text \<open>What the test grants say.\<close>

lemma test_grant_content [simp]: "grant_content (test_grant_args ts) = grant_content (test_grant_args us) \<longleftrightarrow> set ts = set us"
  by (simp add: grant_content_def test_grant_args_def)

lemma test_grant_eq:
  assumes "grant_wf (test_grant_args ts)" "grant_wf (test_grant_args us)"
  shows "grant H ts = grant H us \<longleftrightarrow>
    set ts = set us \<or> collides H (grant_preimage (test_grant_args ts)) (grant_preimage (test_grant_args us))"
  using grant_id.ident_eq_iff [OF assms] by (simp add: grant_def)

lemma moved_grant_content: "a \<in> set moved_grants \<Longrightarrow> grant_content (test_grant_args [''acme'']) \<noteq> grant_content a"
proof -
  have "list_all (\<lambda>a. grant_content (test_grant_args [''acme'']) \<noteq> grant_content a) moved_grants"
    by (simp add: moved_grants_def Let_def grant_content_def test_grant_args_def)
  then show "a \<in> set moved_grants \<Longrightarrow> grant_content (test_grant_args [''acme'']) \<noteq> grant_content a"
    unfolding list_all_iff by (rule bspec)
qed

lemma tenant_lists_wf: "list_all (\<lambda>t. t \<noteq> [] \<and> CHR 0x00 \<notin> set t) ts \<Longrightarrow> grant_wf (test_grant_args ts)"
  by (simp add: test_grant_args_def grant_wf_def)

lemma tenant_tests:
  assumes "inj_on (trunc16 H) (set test_layouts)"
  shows "tenant_order_and_dupes_canonicalized H" "separator_safety H"
proof -
  show "tenant_order_and_dupes_canonicalized H"
    unfolding tenant_order_and_dupes_canonicalized_def by (subst (1 2) test_grant_eq) (auto intro!: tenant_lists_wf)
  have "\<not> collides H (grant_preimage (test_grant_args ts)) (grant_preimage (test_grant_args us))"
    if "{ts, us} \<subseteq> {[''ab'', ''c''], [''abc''], [''a'', ''bc'']}" for ts us
    using that by (intro layouts_apart [OF assms] grant_layout) auto
  then show "separator_safety H"
    unfolding separator_safety_def by (subst (1 2) test_grant_eq) (auto intro!: tenant_lists_wf)
qed

lemma fields_test:
  assumes "inj_on (trunc16 H) (set test_layouts)"
  shows "every_field_moves_the_id H"
  unfolding every_field_moves_the_id_def Let_def grant_def list_all_iff
proof
  fix a assume a: "a \<in> set moved_grants"
  then have "grant_wf a" "grant_wf (test_grant_args [''acme''])"
    using test_grants_wf by (simp_all only: list_all_append list_all_iff) auto
  then show "of_grant H (test_grant_args [''acme'']) \<noteq> of_grant H a"
    using a moved_grant_content [OF a] layouts_apart [OF assms grant_layout [of "test_grant_args [''acme'']"] grant_layout [of a]]
    by (simp add: grant_id.ident_eq_iff)
qed

lemma hex_tests:
  assumes "hash32 H"
  shows "ek_hex_roundtrip_test H" "grant_hex_roundtrip_test H"
proof -
  have "ek_from_hex (map ascii_upper (ek_to_hex (of_ek_pub H p))) = Some (of_ek_pub H p)" for p
    using assms by (simp add: ek_from_hex_def ek_to_hex_def hex_decode16_def of_ek_pub_def hex_encode_upper)
  then show "ek_hex_roundtrip_test H"
    using assms ek_hex.hex_roundtrip [of "of_ek_pub H (test_ek_pub 0x2a)"] ek_hex.length_to_hex [of "of_ek_pub H (test_ek_pub 0x2a)"]
    by (simp add: ek_hex_roundtrip_test_def Let_def ek_from_str_def ek_hex.wrong_length_rejected of_ek_pub_def
        ek_to_hex_def hex_encode_digits)
  show "grant_hex_roundtrip_test H"
    using assms grant_hex.hex_roundtrip [of "grant H [''acme'']"] grant_hex.length_to_hex [of "grant H [''acme'']"]
    by (simp add: grant_hex_roundtrip_test_def Let_def OperatorGrantId_from_str_def grant_hex.wrong_length_rejected
        grant_def of_grant_def)
qed

section \<open>Property\<close>

text \<open>The unit tests of the fingerprints, of the grant identifiers and of the hostnames pass:
  for every hash of 32 bytes whose first 16 differ on the seventeen layouts the tests
  compare, the same input gives the same identifier, tenants are read up to order and
  repetition, every changed byte, separator or field of a grant and the domain tag moves
  the identifier, and the hex text of an identifier has 32 lower-case digits and is read
  back in either case.\<close>

theorem id_tests_pass:
  assumes "hash32 blake3" and "inj_on (trunc16 blake3) (set test_layouts)"
  shows "ek_deterministic blake3 \<and> every_byte_moves_the_fingerprint blake3 \<and> empty_input_is_distinct blake3 \<and>
    domain_separated_from_other_core_ids blake3 \<and> ek_hex_roundtrip_test blake3 \<and>
    grant_deterministic blake3 \<and> tenant_order_and_dupes_canonicalized blake3 \<and> separator_safety blake3 \<and>
    every_field_moves_the_id blake3 \<and> grant_hex_roundtrip_test blake3 \<and>
    canonical_form \<and> lowercases_inputs \<and> rejects_unsafe_labels"
  using ek_tests [OF assms(2)] domains_test [OF assms(2)] tenant_tests [OF assms(2)] fields_test [OF assms(2)] hex_tests [OF assms(1)] naming_pass
  by (simp add: ek_deterministic_def grant_deterministic_def)

text \<open>A hash that numbers the layouts.\<close>

definition numbering_hash :: "bytes \<Rightarrow> bytes" where
  "numbering_hash x = word_of_nat (length (takeWhile (\<lambda>y. y \<noteq> x) test_layouts)) # replicate 31 0"

lemma position: "z \<in> set xs \<Longrightarrow> length (takeWhile (\<lambda>y. y \<noteq> z) xs) < length xs \<and> xs ! length (takeWhile (\<lambda>y. y \<noteq> z) xs) = z"
  by (induction xs) auto

lemma small_byte_inj: "(word_of_nat a :: u8) = word_of_nat b \<Longrightarrow> a < 17 \<Longrightarrow> b < 17 \<Longrightarrow> a = b"
  by (simp add: word_of_nat_eq_iff take_bit_nat_eq_self)

lemma length_test_layouts: "length test_layouts = 17"
  by (simp add: test_layouts_def moved_grants_def Let_def)

lemma numbering_hash_pos:
  "trunc16 numbering_hash x = trunc16 numbering_hash y \<Longrightarrow>
     (word_of_nat (length (takeWhile (\<lambda>z. z \<noteq> x) test_layouts)) :: u8) = word_of_nat (length (takeWhile (\<lambda>z. z \<noteq> y) test_layouts))"
  unfolding trunc16_def numbering_hash_def take_Cons' by (simp only: list.inject split: if_splits)

lemma numbering_hash_inj: "inj_on (trunc16 numbering_hash) (set test_layouts)"
proof (rule inj_onI)
  fix x y assume "x \<in> set test_layouts" "y \<in> set test_layouts"
    and eq: "trunc16 numbering_hash x = trunc16 numbering_hash y"
  note x = position [OF this(1), unfolded length_test_layouts] and y = position [OF this(2), unfolded length_test_layouts]
  from small_byte_inj [OF numbering_hash_pos [OF eq]] x y show "x = y" by metis
qed

theorem id_tests_pass_witness: "every_field_moves_the_id numbering_hash \<and> ek_hex_roundtrip_test numbering_hash"
  using id_tests_pass [of numbering_hash] numbering_hash_inj by (simp add: hash32_def numbering_hash_def)

end
