(* ===== verification/Svid_Tests.thy ===== *)
theory Svid_Tests
  imports Svid_Ca
begin

text \<open>
  The rejection tests of delegated renewal, module \<open>cr_core_12_tests\<close> of \<open>spiffe.rs\<close>. A test
  is a Boolean of the certificate library, of the key pairs it generates and of the clock
  readings it takes; an \<open>unwrap\<close> that fails makes it false. What the tests rely on of the
  library is \<open>writes_requests\<close>.
\<close>

section \<open>Fixtures\<close>

definition TD :: string where
  "TD = ''fleet.example.internal''"

text \<open>The key of \<open>delegated_setup\<close>: \<open>int_key\<close> and \<open>int_cert\<close> are the generated intermediate's key and
  certificate.\<close>

definition delegated_setup ::
    "bytes \<Rightarrow> bytes \<Rightarrow> u64 \<Rightarrow> string \<Rightarrow> u32 option \<Rightarrow> delegated_signing_key option" where
  "delegated_setup int_key int_cert now role ordinal =
     (case (SpiffeId_from_str (''spiffe://'' @ TD @ ''/ns/system/node/agent-1''),
            SpiffeId_from_str (''spiffe://'' @ TD @ ''/ns/tenant-1/sa/db''), WorkloadRole_try_from role) of
        (Inr node, Inr target, Inr r) \<Rightarrow>
          Some \<lparr>dk_node_id = node, dk_target_svid_id = target, dk_target_ordinal = ordinal, dk_issued_at_unix = now,
            dk_expires_at_unix = now + 14400, dk_signing_key = int_key, dk_intermediate_cert_der = int_cert,
            dk_target_role = Some r\<rparr>
      | _ \<Rightarrow> None)"

text \<open>A successful \<open>unwrap\<close>, and \<open>assert_eq!\<close> on \<open>unwrap_err\<close> of the renewal.\<close>

definition unwrapped :: "'e + 'a \<Rightarrow> ('a \<Rightarrow> bool) \<Rightarrow> bool" where
  "unwrapped r test = (case r of Inl _ \<Rightarrow> False | Inr x \<Rightarrow> test x)"

definition some_unwrapped :: "'a option \<Rightarrow> ('a \<Rightarrow> bool) \<Rightarrow> bool" where
  "some_unwrapped r test = (case r of None \<Rightarrow> False | Some x \<Rightarrow> test x)"

section \<open>Requests for another identity\<close>

definition delegated_renewal_rejects_cross_tenant_csr ::
    "('kp, 'pk, 'iss) rcgen_lib \<Rightarrow> bytes \<Rightarrow> bytes \<Rightarrow> 'kp \<Rightarrow> u64 \<Rightarrow> u64 \<Rightarrow> bool" where
  "delegated_renewal_rejects_cross_tenant_csr R int_key int_cert kp t0 now =
     some_unwrapped (delegated_setup int_key int_cert t0 ''replica'' (Some 0)) (\<lambda>key.
     unwrapped (SpiffeId_from_str (''spiffe://'' @ TD @ ''/ns/tenant-2/sa/db'')) (\<lambda>other.
     unwrapped (build_csr R other kp) (\<lambda>csr.
       sign_svid_delegated R key (csr_der csr) \<lparr>dur_secs = 3600, dur_nanos = 0\<rparr> now = Returns (Inl TargetSvidMismatch))))"

definition delegated_renewal_rejects_cross_service_csr ::
    "('kp, 'pk, 'iss) rcgen_lib \<Rightarrow> bytes \<Rightarrow> bytes \<Rightarrow> 'kp \<Rightarrow> u64 \<Rightarrow> u64 \<Rightarrow> bool" where
  "delegated_renewal_rejects_cross_service_csr R int_key int_cert kp t0 now =
     some_unwrapped (delegated_setup int_key int_cert t0 ''replica'' (Some 0)) (\<lambda>key.
     unwrapped (SpiffeId_from_str (''spiffe://'' @ TD @ ''/ns/tenant-1/sa/web'')) (\<lambda>other.
     unwrapped (build_csr R other kp) (\<lambda>csr.
       sign_svid_delegated R key (csr_der csr) \<lparr>dur_secs = 3600, dur_nanos = 0\<rparr> now = Returns (Inl TargetSvidMismatch))))"

definition delegated_renewal_rejects_cross_trust_domain_csr ::
    "('kp, 'pk, 'iss) rcgen_lib \<Rightarrow> bytes \<Rightarrow> bytes \<Rightarrow> 'kp \<Rightarrow> u64 \<Rightarrow> u64 \<Rightarrow> bool" where
  "delegated_renewal_rejects_cross_trust_domain_csr R int_key int_cert kp t0 now =
     some_unwrapped (delegated_setup int_key int_cert t0 ''replica'' (Some 0)) (\<lambda>key.
     unwrapped (SpiffeId_from_str ''spiffe://other.example.internal/ns/tenant-1/sa/db'') (\<lambda>other.
     unwrapped (build_csr R other kp) (\<lambda>csr.
       sign_svid_delegated R key (csr_der csr) \<lparr>dur_secs = 3600, dur_nanos = 0\<rparr> now = Returns (Inl TargetSvidMismatch))))"

section \<open>Requests with other names\<close>

text \<open>\<open>SanType::DnsName\<close> is one of the names the renewal does not look into.\<close>

definition dns_name :: "string \<Rightarrow> san_type" where
  "dns_name s = San_Other (as_bytes s)"

definition delegated_renewal_rejects_csr_with_dns_san ::
    "('kp, 'pk, 'iss) rcgen_lib \<Rightarrow> bytes \<Rightarrow> bytes \<Rightarrow> 'kp \<Rightarrow> u64 \<Rightarrow> u64 \<Rightarrow> bool" where
  "delegated_renewal_rejects_csr_with_dns_san R int_key int_cert kp t0 now =
     some_unwrapped (delegated_setup int_key int_cert t0 ''replica'' (Some 0)) (\<lambda>key.
     some_unwrapped (params_new R [''db.tenant-1.svc'']) (\<lambda>params.
     some_unwrapped (serialize_request R params kp) (\<lambda>csr.
       sign_svid_delegated R key csr \<lparr>dur_secs = 3600, dur_nanos = 0\<rparr> now = Returns (Inl InvalidFormat))))"

definition delegated_renewal_rejects_csr_with_extra_san ::
    "('kp, 'pk, 'iss) rcgen_lib \<Rightarrow> bytes \<Rightarrow> bytes \<Rightarrow> 'kp \<Rightarrow> u64 \<Rightarrow> u64 \<Rightarrow> bool" where
  "delegated_renewal_rejects_csr_with_extra_san R int_key int_cert kp t0 now =
     some_unwrapped (delegated_setup int_key int_cert t0 ''replica'' (Some 0)) (\<lambda>key.
     some_unwrapped (params_new R []) (\<lambda>params.
     some_unwrapped (ia5_string R (SpiffeId_to_string (dk_target_svid_id key))) (\<lambda>uri.
     some_unwrapped (ia5_string R ''extra.local'') (\<lambda>extra.
     let params = params\<lparr>cp_subject_alt_names := cp_subject_alt_names params @ [San_URI uri]\<rparr>;
         params = params\<lparr>cp_subject_alt_names := cp_subject_alt_names params @ [dns_name extra]\<rparr>
     in some_unwrapped (serialize_request R params kp) (\<lambda>csr.
          sign_svid_delegated R key csr \<lparr>dur_secs = 3600, dur_nanos = 0\<rparr> now = Returns (Inl InvalidFormat))))))"

definition delegated_renewal_rejects_csr_without_san ::
    "('kp, 'pk, 'iss) rcgen_lib \<Rightarrow> bytes \<Rightarrow> bytes \<Rightarrow> 'kp \<Rightarrow> u64 \<Rightarrow> u64 \<Rightarrow> bool" where
  "delegated_renewal_rejects_csr_without_san R int_key int_cert kp t0 now =
     some_unwrapped (delegated_setup int_key int_cert t0 ''replica'' (Some 0)) (\<lambda>key.
     some_unwrapped (params_new R []) (\<lambda>params.
     let params = params\<lparr>cp_distinguished_name := [(CommonName, ''no-san'')]\<rparr>
     in some_unwrapped (serialize_request R params kp) (\<lambda>csr.
          sign_svid_delegated R key csr \<lparr>dur_secs = 3600, dur_nanos = 0\<rparr> now = Returns (Inl InvalidFormat))))"

section \<open>Requests out of time\<close>

text \<open>\<open>t0\<close>, \<open>t1\<close> and \<open>t2\<close> are the readings of the clock for the key, for its changed expiry and for
  the renewal.\<close>

definition delegated_renewal_rejects_expired_key ::
    "('kp, 'pk, 'iss) rcgen_lib \<Rightarrow> bytes \<Rightarrow> bytes \<Rightarrow> 'kp \<Rightarrow> u64 \<Rightarrow> u64 \<Rightarrow> u64 \<Rightarrow> bool" where
  "delegated_renewal_rejects_expired_key R int_key int_cert kp t0 t1 t2 =
     some_unwrapped (delegated_setup int_key int_cert t0 ''replica'' (Some 0)) (\<lambda>key.
     let key = key\<lparr>dk_expires_at_unix := t1 - 1\<rparr>
     in unwrapped (build_csr R (dk_target_svid_id key) kp) (\<lambda>csr.
          sign_svid_delegated R key (csr_der csr) \<lparr>dur_secs = 60, dur_nanos = 0\<rparr> t2 = Returns (Inl DelegationKeyExpired)))"

definition delegated_renewal_rejects_validity_overrun ::
    "('kp, 'pk, 'iss) rcgen_lib \<Rightarrow> bytes \<Rightarrow> bytes \<Rightarrow> 'kp \<Rightarrow> u64 \<Rightarrow> u64 \<Rightarrow> bool" where
  "delegated_renewal_rejects_validity_overrun R int_key int_cert kp t0 now =
     some_unwrapped (delegated_setup int_key int_cert t0 ''replica'' (Some 0)) (\<lambda>key.
     unwrapped (build_csr R (dk_target_svid_id key) kp) (\<lambda>csr.
       sign_svid_delegated R key (csr_der csr) \<lparr>dur_secs = 99999, dur_nanos = 0\<rparr> now = Returns (Inl ValidityOverrun)))"

section \<open>What the tests rely on\<close>

text \<open>New parameters carry the given DNS names, a literal of ASCII characters is an IA5 string,
  and a request without extensions of its own can be written and is read back with the
  names it was written with.\<close>

definition writes_requests :: "('kp, 'pk, 'iss) rcgen_lib \<Rightarrow> bool" where
  "writes_requests R \<longleftrightarrow>
     (\<forall>names. \<exists>p. params_new R names = Some p \<and> cp_subject_alt_names p = map dns_name names \<and> cp_custom_extensions p = []) \<and>
     (\<forall>s. list_all (\<lambda>b. b < 0x80) (as_bytes s) \<longrightarrow> ia5_string R s = Some s) \<and>
     (\<forall>p kp. cp_custom_extensions p = [] \<longrightarrow> (\<exists>der q pk. serialize_request R p kp = Some der \<and>
        csr_from_der R der = Some (q, pk) \<and> cp_subject_alt_names q = cp_subject_alt_names p))"

text \<open>The clock does not go back between two readings, the second comes within the four hours of the
  key, and both are far from the ends of the range.\<close>

definition readings :: "u64 \<Rightarrow> u64 \<Rightarrow> bool" where
  "readings t0 t1 \<longleftrightarrow> 0 < t0 \<and> t0 \<le> t1 \<and> t1 < t0 + 14400 \<and> t0 < 0x4000000000000000"

section \<open>They pass\<close>

definition id_of :: "string \<Rightarrow> string \<Rightarrow> string \<Rightarrow> spiffe_id" where
  "id_of td tenant name = SpiffeId_new td tenant Sa name"

lemma test_ids:
  "SpiffeId_from_str (''spiffe://'' @ TD @ ''/ns/system/node/agent-1'') = Inr (SpiffeId_new TD ''system'' Node ''agent-1'')"
  "SpiffeId_from_str (''spiffe://'' @ TD @ ''/ns/tenant-1/sa/db'') = Inr (id_of TD ''tenant-1'' ''db'')"
  "SpiffeId_from_str (''spiffe://'' @ TD @ ''/ns/tenant-2/sa/db'') = Inr (id_of TD ''tenant-2'' ''db'')"
  "SpiffeId_from_str (''spiffe://'' @ TD @ ''/ns/tenant-1/sa/web'') = Inr (id_of TD ''tenant-1'' ''web'')"
  "SpiffeId_from_str ''spiffe://other.example.internal/ns/tenant-1/sa/db'' = Inr (id_of ''other.example.internal'' ''tenant-1'' ''db'')"
  by (code_simp)+

lemma test_role: "WorkloadRole_try_from ''replica'' = Inr (WorkloadRole ''replica'')"
  by code_simp

definition test_key :: "bytes \<Rightarrow> bytes \<Rightarrow> u64 \<Rightarrow> delegated_signing_key" where
  "test_key int_key int_cert now =
     \<lparr>dk_node_id = SpiffeId_new TD ''system'' Node ''agent-1'', dk_target_svid_id = id_of TD ''tenant-1'' ''db'',
      dk_target_ordinal = Some 0, dk_issued_at_unix = now, dk_expires_at_unix = now + 14400, dk_signing_key = int_key,
      dk_intermediate_cert_der = int_cert, dk_target_role = Some (WorkloadRole ''replica'')\<rparr>"

lemma setup_ok: "delegated_setup int_key int_cert now ''replica'' (Some 0) = Some (test_key int_key int_cert now)"
  unfolding delegated_setup_def test_ids test_role test_key_def by simp

lemma request_written:
  assumes "writes_requests R" "cp_custom_extensions p = []"
  obtains der q pk where "serialize_request R p kp = Some der" "csr_from_der R der = Some (q, pk)"
    "cp_subject_alt_names q = cp_subject_alt_names p"
  using assms unfolding writes_requests_def by blast

lemma params_written:
  assumes "writes_requests R"
  obtains p where "params_new R names = Some p" "cp_subject_alt_names p = map dns_name names" "cp_custom_extensions p = []"
  using assms unfolding writes_requests_def by blast

lemma ia5_written: "writes_requests R \<Longrightarrow> list_all (\<lambda>b. b < 0x80) (as_bytes s) \<Longrightarrow> ia5_string R s = Some s"
  unfolding writes_requests_def by blast

lemma csr_written:
  assumes "writes_requests R" "list_all (\<lambda>b. b < 0x80) (as_bytes (SpiffeId_to_string i))"
  obtains c q pk where "build_csr R i kp = Inr c" "csr_from_der R (csr_der c) = Some (q, pk)"
    "cp_subject_alt_names q = [San_URI (SpiffeId_to_string i)]"
proof -
  obtain p where p: "params_new R [] = Some p" "cp_subject_alt_names p = []" "cp_custom_extensions p = []"
    using params_written [OF assms(1), of "[]"] by auto
  let ?p = "p\<lparr>cp_subject_alt_names := [San_URI (SpiffeId_to_string i)], cp_distinguished_name := [(CommonName, SpiffeId_to_string i)],
    cp_key_usages := [DigitalSignature], cp_extended_key_usages := [ClientAuth, ServerAuth], cp_is_ca := NoCa\<rparr>"
  obtain der q pk where "serialize_request R ?p kp = Some der" "csr_from_der R der = Some (q, pk)"
      "cp_subject_alt_names q = [San_URI (SpiffeId_to_string i)]"
    using request_written [OF assms(1), of ?p kp] p(3) by auto
  then show ?thesis using p ia5_written [OF assms]
    by (intro that [of "\<lparr>csr_der = der\<rparr>" q pk]) (simp_all add: build_csr_def)
qed

text \<open>The checks of the renewal, in their order.\<close>

lemma renewal_of_other:
  assumes "now < dk_expires_at_unix key" "csr_from_der R der = Some (q, pk)"
    and "cp_subject_alt_names q = [San_URI (SpiffeId_to_string i)]" "spiffe_wf i" "i \<noteq> dk_target_svid_id key"
  shows "sign_svid_delegated R key der d now = Returns (Inl TargetSvidMismatch)"
  using assms parse_id_Inr [of "SpiffeId_to_string i" i] starts_with_spiffe [of i]
  by (simp add: sign_svid_delegated_def)

lemma renewal_of_names:
  assumes "now < dk_expires_at_unix key" "csr_from_der R der = Some (q, pk)"
    and "length (cp_subject_alt_names q) \<noteq> 1 \<or> (\<exists>n. cp_subject_alt_names q = [San_Other n])"
  shows "sign_svid_delegated R key der d now = Returns (Inl InvalidFormat)"
  using assms by (auto simp: sign_svid_delegated_def)

lemma renewal_too_long:
  assumes "now < dk_expires_at_unix key" "csr_from_der R der = Some (q, pk)"
    and "cp_subject_alt_names q = [San_URI (SpiffeId_to_string (dk_target_svid_id key))]" "spiffe_wf (dk_target_svid_id key)"
    and "dk_expires_at_unix key - now < dur_secs d"
  shows "sign_svid_delegated R key der d now = Returns (Inl ValidityOverrun)"
  using assms parse_id_Inr [of "SpiffeId_to_string (dk_target_svid_id key)" "dk_target_svid_id key"]
    starts_with_spiffe [of "dk_target_svid_id key"]
  by (simp add: sign_svid_delegated_def Let_def)

lemma renewal_expired:
  "dk_expires_at_unix key \<le> now \<Longrightarrow> sign_svid_delegated R key der d now = Returns (Inl DelegationKeyExpired)"
  by (simp add: sign_svid_delegated_def)

lemma readings_window:
  assumes "readings t0 t1"
  shows "t1 < t0 + 14400" "t0 + 14400 - t1 \<le> 14400" "t0 - 1 \<le> t1" "t0 - 1 < t0"
proof -
  have t: "unat t0 < 0x4000000000000000" "unat t0 \<le> unat t1" "0 < unat t0" "unat t1 < unat (t0 + 14400)"
    using assms by (simp_all add: readings_def word_less_nat_alt word_le_nat_alt unat_gt_0)
  show "t1 < t0 + 14400" using assms by (simp add: readings_def)
  have add: "unat (t0 + 14400) = unat t0 + 14400" using t(1) by (simp add: unat_word_ariths)
  have "unat (t0 + 14400 - t1) = unat t0 + 14400 - unat t1"
    using t(4) by (subst unat_sub) (simp_all add: word_le_nat_alt add)
  then show "t0 + 14400 - t1 \<le> 14400" using t(2) by (simp add: word_le_nat_alt)
  have "unat (t0 - 1) = unat t0 - 1" using t(3) by (subst unat_sub) (simp_all add: word_le_nat_alt)
  then show "t0 - 1 \<le> t1" "t0 - 1 < t0" using t by (simp_all add: word_le_nat_alt word_less_nat_alt)
qed

lemma test_id_texts:
  "list_all (\<lambda>b. b < 0x80) (as_bytes (SpiffeId_to_string (id_of TD ''tenant-1'' ''db'')))"
  "list_all (\<lambda>b. b < 0x80) (as_bytes (SpiffeId_to_string (id_of TD ''tenant-2'' ''db'')))"
  "list_all (\<lambda>b. b < 0x80) (as_bytes (SpiffeId_to_string (id_of TD ''tenant-1'' ''web'')))"
  "list_all (\<lambda>b. b < 0x80) (as_bytes (SpiffeId_to_string (id_of ''other.example.internal'' ''tenant-1'' ''db'')))"
  "list_all (\<lambda>b. b < 0x80) (as_bytes ''extra.local'')"
  by code_simp+

lemma test_ids_wf:
  "spiffe_wf (id_of TD ''tenant-1'' ''db'')" "spiffe_wf (id_of TD ''tenant-2'' ''db'')"
  "spiffe_wf (id_of TD ''tenant-1'' ''web'')" "spiffe_wf (id_of ''other.example.internal'' ''tenant-1'' ''db'')"
  by (rule spiffe_wfI; simp add: id_of_def SpiffeId_new_def TD_def)+

lemma other_ids:
  "id_of TD ''tenant-2'' ''db'' \<noteq> id_of TD ''tenant-1'' ''db''" "id_of TD ''tenant-1'' ''web'' \<noteq> id_of TD ''tenant-1'' ''db''"
  "id_of ''other.example.internal'' ''tenant-1'' ''db'' \<noteq> id_of TD ''tenant-1'' ''db''"
  by (simp_all add: id_of_def SpiffeId_new_def TD_def)

lemma test_key_fields [simp]:
  "dk_expires_at_unix (test_key k c t) = t + 14400" "dk_target_svid_id (test_key k c t) = id_of TD ''tenant-1'' ''db''"
  by (simp_all add: test_key_def)

lemma other_request_rejected:
  assumes "writes_requests R" "readings t0 now" "list_all (\<lambda>b. b < 0x80) (as_bytes (SpiffeId_to_string i))"
    and "spiffe_wf i" "i \<noteq> id_of TD ''tenant-1'' ''db''"
  shows "unwrapped (build_csr R i kp) (\<lambda>csr.
    sign_svid_delegated R (test_key k c t0) (csr_der csr) d now = Returns (Inl TargetSvidMismatch))"
proof -
  obtain csr q pk where q: "build_csr R i kp = Inr csr" "csr_from_der R (csr_der csr) = Some (q, pk)"
      "cp_subject_alt_names q = [San_URI (SpiffeId_to_string i)]"
    using assms(1,3) by (rule csr_written)
  with renewal_of_other [OF _ q(2,3) assms(4), of now "test_key k c t0"] readings_window(1) [OF assms(2)] assms(5)
  show ?thesis by (simp add: unwrapped_def)
qed

lemma identity_tests:
  assumes "writes_requests R" "readings t0 now"
  shows "delegated_renewal_rejects_cross_tenant_csr R k c kp t0 now"
    "delegated_renewal_rejects_cross_service_csr R k c kp t0 now"
    "delegated_renewal_rejects_cross_trust_domain_csr R k c kp t0 now"
  unfolding delegated_renewal_rejects_cross_tenant_csr_def delegated_renewal_rejects_cross_service_csr_def
    delegated_renewal_rejects_cross_trust_domain_csr_def setup_ok some_unwrapped_def option.case test_ids
  unfolding unwrapped_def [of "Inr _"] sum.case
  by (rule other_request_rejected [OF assms test_id_texts(2) test_ids_wf(2) other_ids(1)]
      other_request_rejected [OF assms test_id_texts(3) test_ids_wf(3) other_ids(2)]
      other_request_rejected [OF assms test_id_texts(4) test_ids_wf(4) other_ids(3)])+

lemma named_request_rejected:
  assumes "writes_requests R" "readings t0 now" "cp_custom_extensions p = []"
    and "length (cp_subject_alt_names p) \<noteq> 1 \<or> (\<exists>n. cp_subject_alt_names p = [San_Other n])"
  shows "some_unwrapped (serialize_request R p kp) (\<lambda>csr.
    sign_svid_delegated R (test_key k c t0) csr d now = Returns (Inl InvalidFormat))"
proof -
  obtain der q pk where q: "serialize_request R p kp = Some der" "csr_from_der R der = Some (q, pk)"
      "cp_subject_alt_names q = cp_subject_alt_names p"
    using assms(1,3) by (rule request_written)
  with renewal_of_names [OF _ q(2), of now "test_key k c t0"] readings_window(1) [OF assms(2)] assms(4)
  show ?thesis by (simp add: some_unwrapped_def)
qed

lemma name_tests:
  assumes "writes_requests R" "readings t0 now"
  shows "delegated_renewal_rejects_csr_with_dns_san R k c kp t0 now"
    "delegated_renewal_rejects_csr_with_extra_san R k c kp t0 now"
    "delegated_renewal_rejects_csr_without_san R k c kp t0 now"
proof -
  note rejected = named_request_rejected [OF assms]
  obtain p where p: "params_new R [''db.tenant-1.svc''] = Some p" "cp_subject_alt_names p = [dns_name ''db.tenant-1.svc'']"
      "cp_custom_extensions p = []"
    using params_written [OF assms(1), of "[''db.tenant-1.svc'']"] by auto
  then show "delegated_renewal_rejects_csr_with_dns_san R k c kp t0 now"
    using rejected [of p] by (simp add: delegated_renewal_rejects_csr_with_dns_san_def setup_ok dns_name_def some_unwrapped_def [of "Some _"])
  obtain p where p: "params_new R [] = Some p" "cp_subject_alt_names p = []" "cp_custom_extensions p = []"
    using params_written [OF assms(1), of "[]"] by auto
  show "delegated_renewal_rejects_csr_with_extra_san R k c kp t0 now"
    using p ia5_written [OF assms(1) test_id_texts(1)] ia5_written [OF assms(1) test_id_texts(5)]
    by (simp add: delegated_renewal_rejects_csr_with_extra_san_def setup_ok some_unwrapped_def [of "Some _"] rejected)
  show "delegated_renewal_rejects_csr_without_san R k c kp t0 now"
    using p by (simp add: delegated_renewal_rejects_csr_without_san_def setup_ok some_unwrapped_def [of "Some _"] rejected)
qed

lemma time_tests:
  assumes "writes_requests R" "readings t0 now" "readings t1 t2"
  shows "delegated_renewal_rejects_expired_key R k c kp t0 t1 t2"
    "delegated_renewal_rejects_validity_overrun R k c kp t0 now"
proof -
  obtain csr q pk where q: "build_csr R (id_of TD ''tenant-1'' ''db'') kp = Inr csr" "csr_from_der R (csr_der csr) = Some (q, pk)"
      "cp_subject_alt_names q = [San_URI (SpiffeId_to_string (id_of TD ''tenant-1'' ''db''))]"
    using assms(1) test_id_texts(1) by (rule csr_written)
  show "delegated_renewal_rejects_expired_key R k c kp t0 t1 t2"
    using readings_window(3) [OF assms(3)] q(1)
    by (simp add: delegated_renewal_rejects_expired_key_def setup_ok some_unwrapped_def unwrapped_def renewal_expired)
  have "t0 + 14400 - now < 99999" using readings_window(2) [OF assms(2)] by (rule order.strict_trans1) simp
  then show "delegated_renewal_rejects_validity_overrun R k c kp t0 now"
    using q readings_window(1) [OF assms(2)] test_ids_wf(1)
    by (simp add: delegated_renewal_rejects_validity_overrun_def setup_ok some_unwrapped_def unwrapped_def renewal_too_long)
qed

section \<open>Property\<close>

text \<open>The rejection tests of delegated renewal pass with every certificate library that
  reads a request back with the names it wrote: a request for another tenant, service or
  trust domain is \<open>TargetSvidMismatch\<close>; one with a DNS name, a second name or no name is
  \<open>InvalidFormat\<close>; an expired key is \<open>DelegationKeyExpired\<close> and a validity beyond the key's
  is \<open>ValidityOverrun\<close>.\<close>

theorem renewal_tests_pass:
  assumes "writes_requests R" "readings t0 now" "readings t1 t2"
  shows "delegated_renewal_rejects_cross_tenant_csr R k c kp t0 now \<and>
    delegated_renewal_rejects_cross_service_csr R k c kp t0 now \<and>
    delegated_renewal_rejects_cross_trust_domain_csr R k c kp t0 now \<and>
    delegated_renewal_rejects_csr_with_dns_san R k c kp t0 now \<and>
    delegated_renewal_rejects_csr_with_extra_san R k c kp t0 now \<and>
    delegated_renewal_rejects_csr_without_san R k c kp t0 now \<and>
    delegated_renewal_rejects_expired_key R k c kp t0 t1 t2 \<and>
    delegated_renewal_rejects_validity_overrun R k c kp t0 now"
  using identity_tests [OF assms(1,2)] name_tests [OF assms(1,2)] time_tests [OF assms] by simp

text \<open>A library whose requests list the names: a name starts with its kind, every byte of it
  follows a 1.\<close>

fun name_bytes :: "san_type list \<Rightarrow> bytes" where
  "name_bytes [] = []"
| "name_bytes (San_URI u # ns) = 2 # 0 # concat (map (\<lambda>b. [1, b]) (as_bytes u)) @ name_bytes ns"
| "name_bytes (San_Other b # ns) = 3 # 0 # concat (map (\<lambda>b. [1, b]) b) @ name_bytes ns"

fun bytes_name :: "bytes \<Rightarrow> bytes \<times> san_type list" where
  "bytes_name (t # b # r) =
     (let (buf, ns) = bytes_name r
      in if t = 1 then (b # buf, ns) else if t = 2 then ([], San_URI (of_bytes buf) # ns) else ([], San_Other buf # ns))"
| "bytes_name _ = ([], [])"

definition naming_lib :: "(unit, unit, unit) rcgen_lib" where
  "naming_lib = toy_lib\<lparr>params_new := (\<lambda>names. Some (toy_params\<lparr>cp_subject_alt_names := map dns_name names\<rparr>)),
     serialize_request := (\<lambda>p _. Some (name_bytes (cp_subject_alt_names p))),
     csr_from_der := (\<lambda>d. Some (toy_params\<lparr>cp_subject_alt_names := snd (bytes_name d)\<rparr>, ()))\<rparr>"

lemma bytes_name_bytes: "bytes_name (concat (map (\<lambda>b. [1, b]) bs) @ r) = (bs @ fst (bytes_name r), snd (bytes_name r))"
  by (induction bs) (simp_all add: case_prod_beta Let_def)

lemma bytes_name_of: "bytes_name (name_bytes ns) = ([], ns)"
  by (induction ns rule: name_bytes.induct) (simp_all add: bytes_name_bytes)

lemma naming_lib_writes: "writes_requests naming_lib"
  by (simp add: writes_requests_def naming_lib_def toy_params_def bytes_name_of toy_lib_def)

theorem renewal_tests_pass_witness:
  "delegated_renewal_rejects_cross_tenant_csr naming_lib [1] [2] () 1700000000 1700000001 \<and>
   delegated_renewal_rejects_expired_key naming_lib [1] [2] () 1700000000 1700000001 1700000001"
  using renewal_tests_pass [OF naming_lib_writes, of 1700000000 1700000001 1700000001 1700000001 "[1]" "[2]" "()"]
  by (simp add: readings_def)

end
