(* ===== verification/Renewal_Certificate.thy ===== *)
theory Renewal_Certificate
  imports Svid_Ca Ext_Layout
begin

text \<open>
  Delegated renewal from the request to the relying party: \<open>build_csr\<close> writes the request,
  \<open>sign_svid_delegated\<close> renews it, and \<open>extract_spiffe_id\<close>, \<open>extract_role\<close>, \<open>extract_ordinal\<close>,
  \<open>is_degraded\<close> and \<open>validate_svid\<close> read the certificate (\<open>spiffe.rs\<close>). Certificate generator,
  parser and verifier are parameters; the contracts below say what the chain needs of them.
  The second part says exactly when the renewal panics.
\<close>

section \<open>Contracts\<close>

text \<open>A request of the shape \<open>build_csr\<close> writes: one URI, also in the subject, no certificate
  authority and no extensions of its own. Such a request for the URI \<open>u\<close> under the key pair \<open>kp\<close>
  is written, and read back with the same names, subject and usages (in whatever order).\<close>

definition csr_shaped :: "string \<Rightarrow> cert_params \<Rightarrow> bool" where
  "csr_shaped u p \<longleftrightarrow> cp_subject_alt_names p = [San_URI u] \<and> cp_distinguished_name p = [(CommonName, u)] \<and>
     set (cp_extended_key_usages p) = {ClientAuth, ServerAuth} \<and> cp_is_ca p = NoCa \<and> cp_custom_extensions p = []"

definition requests_survive :: "('kp, 'pk, 'iss) rcgen_lib \<Rightarrow> string \<Rightarrow> 'kp \<Rightarrow> bool" where
  "requests_survive R u kp \<longleftrightarrow>
     (\<exists>p. params_new R [] = Some p \<and> cp_subject_alt_names p = [] \<and> cp_custom_extensions p = []) \<and>
     (\<forall>p. csr_shaped u p \<longrightarrow>
        (\<exists>der q pk. serialize_request R p kp = Some der \<and> csr_from_der R der = Some (q, pk) \<and> csr_shaped u q))"

text \<open>The certificate of one renewal: an end entity named after the target in subject and subject
  alternative name, with the stamps of the key.\<close>

definition leaf_of :: "delegated_signing_key \<Rightarrow> cert_params \<Rightarrow> bool" where
  "leaf_of key q \<longleftrightarrow> cp_subject_alt_names q = [San_URI (SpiffeId_to_string (dk_target_svid_id key))] \<and>
     cp_distinguished_name q = [(CommonName, SpiffeId_to_string (dk_target_svid_id key))] \<and>
     set (cp_extended_key_usages q) = {ClientAuth, ServerAuth} \<and> cp_is_ca q = NoCa \<and> cp_custom_extensions q = stamps key"

text \<open>The key material signs such certificates.\<close>

definition signs_leaves :: "('kp, 'pk, 'iss) rcgen_lib \<Rightarrow> delegated_signing_key \<Rightarrow> bool" where
  "signs_leaves R key \<longleftrightarrow> (\<forall>pem. der_to_pem R (dk_signing_key key) ''PRIVATE KEY'' = Returns pem \<longrightarrow>
     (\<exists>kp iss. keypair_from_pem R pem = Some kp \<and>
        issuer_from_ca_cert_der R (dk_intermediate_cert_der key) kp = Some iss \<and>
        (\<forall>q pk. leaf_of key q \<longrightarrow> signed_by R q pk iss \<noteq> None)))"

text \<open>How such a certificate is laid out (RFC 5280): it parses to its name, and the custom
  extensions, of fewer than 65500 bytes each, stand at the end of the signed part, one after
  the other, before the signature algorithm, which is a sequence. What stands before and behind
  them (serial number, names, dates, the caller's public key, the signature) is not constrained.\<close>

definition lays_out ::
    "('kp, 'pk, 'iss) rcgen_lib \<Rightarrow> (bytes \<Rightarrow> parsed_extension list option) \<Rightarrow> delegated_signing_key \<Rightarrow> bool" where
  "lays_out R parse_x509 key \<longleftrightarrow> (\<forall>q pk iss cert. leaf_of key q \<longrightarrow> signed_by R q pk iss = Some cert \<longrightarrow>
     list_all (\<lambda>e. length (ext_value e) < 65500) (cp_custom_extensions q) \<longrightarrow>
     (\<exists>exts. parse_x509 cert = Some exts \<and> List.find is_san exts =
        Some (SubjectAlternativeName [GN_URI (SpiffeId_to_string (dk_target_svid_id key))])) \<and>
     (\<exists>pre post. cert = pre @ concat (map ext_der (cp_custom_extensions q)) @ 0x30 # post))"

text \<open>The key's private part belongs to its intermediate: a verifier whose only root is the
  intermediate accepts the renewed certificates signed with it during their validity.\<close>

definition chains :: "('kp, 'pk, 'iss) rcgen_lib \<Rightarrow> ('store, 'verifier) tls_lib \<Rightarrow> delegated_signing_key \<Rightarrow> bool" where
  "chains R T key \<longleftrightarrow> (\<exists>store v. store_add T (store_empty T) (dk_intermediate_cert_der key) = Some store \<and>
     verifier_build T store = Some v \<and>
     (\<forall>pem kp iss q pk cert t. der_to_pem R (dk_signing_key key) ''PRIVATE KEY'' = Returns pem \<longrightarrow>
        keypair_from_pem R pem = Some kp \<longrightarrow> issuer_from_ca_cert_der R (dk_intermediate_cert_der key) kp = Some iss \<longrightarrow>
        leaf_of key q \<longrightarrow> signed_by R q pk iss = Some cert \<longrightarrow>
        0 \<le> t \<longrightarrow> cp_not_before q \<le> t \<longrightarrow> t \<le> cp_not_after q \<longrightarrow> verify_client_cert T v cert (nat t)))"

section \<open>Reading a carried extension\<close>

text \<open>\<open>e\<close> is encoded in the certificate, and nothing before it is shaped like it.\<close>

definition carries :: "bytes \<Rightarrow> custom_extension \<Rightarrow> bool" where
  "carries cert e \<longleftrightarrow> (\<exists>pre post. cert = pre @ ext_tail (oid_der (ext_oid e)) (ext_value e) @ post \<and>
     no_earlier_hit (oid_der (ext_oid e)) pre (ext_tail (oid_der (ext_oid e)) (ext_value e) @ post))"

lemma carried_degraded: "carries cert (degraded_extension b) \<Longrightarrow> is_degraded cert = b"
  using degraded_ext.reads_back by (fastforce simp: carries_def stamp_oids is_degraded_def)

lemma carried_role: "carries cert (role_extension r) \<Longrightarrow> role_ok r \<Longrightarrow> extract_role cert = Some (WorkloadRole r)"
  using role_ext.reads_back by (fastforce simp: carries_def stamp_oids extract_role_def)

lemma carried_ordinal:
  "carries cert (ordinal_extension w) \<Longrightarrow> extract_ordinal cert = (if w < 0x80000000 then Some w else None)"
  using ordinal_ext.reads_back by (fastforce simp: carries_def stamp_oids extract_ordinal_def)

lemma laid_out_carried:
  assumes "absent (oid_der (ext_oid e)) pre" "\<not> ext_critical e" "oid_der (ext_oid e) \<in> set fleet_oids"
  shows "carries (pre @ ext_der e @ post) e"
  using laid_out_hit [OF assms, of post] unfolding carries_def by blast

lemma oids_differ: "FLEETOS_ROLE_OID_BYTES \<noteq> FLEETOS_DEGRADED_OID_BYTES" "FLEETOS_ORDINAL_OID_BYTES \<noteq> FLEETOS_DEGRADED_OID_BYTES"
  "FLEETOS_ROLE_OID_BYTES \<noteq> FLEETOS_ORDINAL_OID_BYTES" "FLEETOS_ORDINAL_OID_BYTES \<noteq> FLEETOS_ROLE_OID_BYTES"
  by (simp_all add: FLEETOS_ROLE_OID_BYTES_def FLEETOS_DEGRADED_OID_BYTES_def FLEETOS_ORDINAL_OID_BYTES_def)

text \<open>The two optional stamps, after bytes without the three identifiers and the degraded marker.\<close>

definition role_stamp :: "delegated_signing_key \<Rightarrow> bytes" where
  "role_stamp key = (case dk_target_role key of None \<Rightarrow> [] | Some role \<Rightarrow> ext_der (role_extension (role_as_str role)))"

definition ordinal_stamp :: "delegated_signing_key \<Rightarrow> bytes" where
  "ordinal_stamp key = (case dk_target_ordinal key of None \<Rightarrow> [] | Some w \<Rightarrow> ext_der (ordinal_extension w))"

lemma stamps_der: "concat (map ext_der (stamps key)) = ext_der (degraded_extension True) @ role_stamp key @ ordinal_stamp key"
  by (simp add: stamps_def role_stamp_def ordinal_stamp_def split: option.split)

lemma stamped_role:
  assumes "clean pre" "clean post" "\<forall>r. dk_target_role key = Some (WorkloadRole r) \<longrightarrow> role_ok r"
  shows "extract_role (pre @ concat (map ext_der (stamps key)) @ 0x30 # post) = dk_target_role key"
proof -
  let ?oid = FLEETOS_ROLE_OID_BYTES and ?front = "pre @ ext_der (degraded_extension True)"
  have front: "absent ?oid ?front" using assms(1) oids_differ by (intro absent_degraded) (simp_all add: clean_def)
  show ?thesis
  proof (cases "dk_target_role key")
    case None
    have "absent ?oid (?front @ ordinal_stamp key)"
      using front absent_ordinal [OF front] by (simp add: ordinal_stamp_def split: option.split)
    then have "absent ?oid ((?front @ ordinal_stamp key) @ 0x30 # post)"
      using assms(2) fleet_oid_facts [of ?oid] by (intro absent_sep) (simp_all add: clean_def)
    then show ?thesis
      using absent_find [of ?oid "(?front @ ordinal_stamp key) @ 0x30 # post"] fleet_oid_facts(1) [of ?oid] None
      by (simp add: stamps_der role_stamp_def extract_role_def)
  next
    case (Some role)
    then obtain r where r: "role = WorkloadRole r" "role_ok r" using assms(3) by (cases role) auto
    have "carries (?front @ ext_der (role_extension r) @ ordinal_stamp key @ 0x30 # post) (role_extension r)"
      using front by (intro laid_out_carried) (simp_all add: stamp_oids)
    from carried_role [OF this r(2)] show ?thesis using Some r by (simp add: stamps_der role_stamp_def)
  qed
qed

lemma stamped_ordinal:
  assumes "clean pre" "clean post" "\<forall>r. dk_target_role key = Some (WorkloadRole r) \<longrightarrow> role_ok r"
  shows "extract_ordinal (pre @ concat (map ext_der (stamps key)) @ 0x30 # post) =
    Option.bind (dk_target_ordinal key) (\<lambda>w. if w < 0x80000000 then Some w else None)"
proof -
  let ?oid = FLEETOS_ORDINAL_OID_BYTES and ?front = "(pre @ ext_der (degraded_extension True)) @ role_stamp key"
  have "absent ?oid (pre @ ext_der (degraded_extension True))"
    using assms(1) oids_differ by (intro absent_degraded) (simp_all add: clean_def)
  then have front: "absent ?oid ?front"
  proof (cases "dk_target_role key")
    case (Some role)
    then have "role_ok (role_as_str role)" using assms(3) by (cases role) simp
    then show ?thesis
      using absent_role [of ?oid "pre @ ext_der (degraded_extension True)"] oids_differ(4) Some
        \<open>absent ?oid (pre @ ext_der (degraded_extension True))\<close> by (simp add: role_stamp_def)
  qed (simp add: role_stamp_def)
  show ?thesis
  proof (cases "dk_target_ordinal key")
    case None
    have "absent ?oid (?front @ 0x30 # post)"
      using front assms(2) fleet_oid_facts [of ?oid] by (intro absent_sep) (simp_all add: clean_def)
    then show ?thesis
      using absent_find [of ?oid "?front @ 0x30 # post"] fleet_oid_facts(1) [of ?oid] None
      by (simp add: stamps_der ordinal_stamp_def extract_ordinal_def)
  next
    case (Some w)
    have "carries (?front @ ext_der (ordinal_extension w) @ 0x30 # post) (ordinal_extension w)"
      using front by (intro laid_out_carried) (simp_all add: stamp_oids)
    from carried_ordinal [OF this] show ?thesis using Some by (simp add: stamps_der ordinal_stamp_def)
  qed
qed

lemma stamped_degraded:
  assumes "clean pre"
  shows "is_degraded (pre @ concat (map ext_der (stamps key)) @ 0x30 # post)"
proof -
  have "carries (pre @ ext_der (degraded_extension True) @ role_stamp key @ ordinal_stamp key @ 0x30 # post) (degraded_extension True)"
    using assms by (intro laid_out_carried) (simp_all add: stamp_oids clean_def)
  from carried_degraded [OF this] show ?thesis by (simp add: stamps_der)
qed

section \<open>From the request to the relying party\<close>

lemma stamps_small:
  assumes "\<forall>r. dk_target_role key = Some (WorkloadRole r) \<longrightarrow> role_ok r"
  shows "list_all (\<lambda>e. length (ext_value e) < 65500) (stamps key)"
proof -
  have "length (ext_value (role_extension r)) < 65500" if "role_ok r" for r
    using that length_der_len_prefix(2) [of "length r"] by (simp add: role_extension_def role_ok_def)
  moreover have "length (ext_value (ordinal_extension w)) < 65500" for w by (auto simp: ordinal_extension_def Let_def)
  moreover have "length (ext_value (degraded_extension b)) < 65500" for b by (simp add: degraded_extension_def)
  ultimately show ?thesis
    using assms by (cases "dk_target_role key"; cases "dk_target_ordinal key")
      (auto simp: stamps_def intro: workload_role.exhaust)
qed

lemma leaf_laid_out:
  assumes "lays_out R parse_x509 key" "leaf_of key q" "signed_by R q pk iss = Some cert" "spiffe_wf (dk_target_svid_id key)"
    and "\<forall>r. dk_target_role key = Some (WorkloadRole r) \<longrightarrow> role_ok r"
  shows "extract_spiffe_id parse_x509 cert = Inr (dk_target_svid_id key)"
    "\<exists>pre post. cert = pre @ concat (map ext_der (stamps key)) @ 0x30 # post"
proof -
  have q: "cp_custom_extensions q = stamps key" using assms(2) by (simp add: leaf_of_def)
  have l: "\<exists>exts. parse_x509 cert = Some exts \<and> List.find is_san exts =
        Some (SubjectAlternativeName [GN_URI (SpiffeId_to_string (dk_target_svid_id key))])"
      "\<exists>pre post. cert = pre @ concat (map ext_der (stamps key)) @ 0x30 # post"
    using assms(1-3) stamps_small [OF assms(5)] unfolding lays_out_def q [symmetric] by blast+
  show "\<exists>pre post. cert = pre @ concat (map ext_der (stamps key)) @ 0x30 # post" by (rule l(2))
  show "extract_spiffe_id parse_x509 cert = Inr (dk_target_svid_id key)"
    unfolding extract_Inr using l(1) assms(4) starts_with_spiffe [of "dk_target_svid_id key"] by (elim exE conjE) simp
qed

lemma built_request:
  assumes "requests_survive R (SpiffeId_to_string sid) kp" "ia5_string R (SpiffeId_to_string sid) = Some (SpiffeId_to_string sid)"
  obtains c q pk where "build_csr R sid kp = Inr c" "csr_from_der R (csr_der c) = Some (q, pk)"
    "csr_shaped (SpiffeId_to_string sid) q"
proof -
  let ?t = "SpiffeId_to_string sid"
  obtain p where p: "params_new R [] = Some p" "cp_subject_alt_names p = []" "cp_custom_extensions p = []"
    using assms(1) unfolding requests_survive_def by blast
  let ?p = "p\<lparr>cp_subject_alt_names := [San_URI ?t], cp_distinguished_name := [(CommonName, ?t)],
    cp_key_usages := [DigitalSignature], cp_extended_key_usages := [ClientAuth, ServerAuth], cp_is_ca := NoCa\<rparr>"
  have "csr_shaped ?t ?p" using p by (simp add: csr_shaped_def)
  then obtain der q pk where "serialize_request R ?p kp = Some der" "csr_from_der R der = Some (q, pk)" "csr_shaped ?t q"
    using assms(1) unfolding requests_survive_def by blast
  then show ?thesis using p assms(2) by (intro that [of "\<lparr>csr_der = der\<rparr>" q pk]) (simp_all add: build_csr_def)
qed

lemma leaf_signed:
  assumes "base64_ascii R" "signs_leaves R key" "leaf_of key q"
  shows "\<exists>cert. sign_leaf R key q pk = Returns (Inr cert)"
proof -
  obtain pem where pem: "der_to_pem R (dk_signing_key key) ''PRIVATE KEY'' = Returns pem"
    using der_to_pem_ok [OF assms(1)] by blast
  then obtain kp iss where "keypair_from_pem R pem = Some kp"
      "issuer_from_ca_cert_der R (dk_intermediate_cert_der key) kp = Some iss" "signed_by R q pk iss \<noteq> None"
    using assms(2,3) unfolding signs_leaves_def by blast
  then show ?thesis by (auto simp: sign_leaf_def pem)
qed

lemma leaf_chains:
  assumes "chains R T key" "sign_leaf R key q pk = Returns (Inr cert)" "leaf_of key q"
    and "extract_spiffe_id parse_x509 cert = Inr (dk_target_svid_id key)" "0 \<le> clock" "cp_not_before q \<le> clock" "clock \<le> cp_not_after q"
  shows "validate_svid parse_x509 T clock cert
      \<lparr>tb_trust_domain = si_trust_domain (dk_target_svid_id key), tb_roots = [dk_intermediate_cert_der key]\<rparr> =
    Inr (dk_target_svid_id key)"
proof -
  obtain pem kp iss where i: "der_to_pem R (dk_signing_key key) ''PRIVATE KEY'' = Returns pem" "keypair_from_pem R pem = Some kp"
      "issuer_from_ca_cert_der R (dk_intermediate_cert_der key) kp = Some iss" "signed_by R q pk iss = Some cert"
    using assms(2) by (auto simp: sign_leaf_def obind_eq_Returns rbind_eq_Inr)
  have "unix_now clock = nat clock" by (simp add: unix_now_def)
  then show ?thesis using assms(1,3-7) i unfolding chains_def by (auto simp: validate_svid_def)
qed

lemma renewed_leaf: "csr_shaped (SpiffeId_to_string (dk_target_svid_id key)) q \<Longrightarrow> leaf_of key (renewed key d now q)"
  by (simp add: csr_shaped_def leaf_of_def renewed_def)

definition delegable :: "('kp, 'pk, 'iss) rcgen_lib \<Rightarrow> delegated_signing_key \<Rightarrow> bool" where
  "delegable R key \<longleftrightarrow> spiffe_wf (dk_target_svid_id key) \<and>
     ia5_string R (SpiffeId_to_string (dk_target_svid_id key)) = Some (SpiffeId_to_string (dk_target_svid_id key)) \<and>
     (\<forall>r. dk_target_role key = Some (WorkloadRole r) \<longrightarrow> role_ok r)"

definition in_time :: "('kp, 'pk, 'iss) rcgen_lib \<Rightarrow> delegated_signing_key \<Rightarrow> duration \<Rightarrow> u64 \<Rightarrow> bool" where
  "in_time R key d now \<longleftrightarrow> now < dk_expires_at_unix key \<and> dur_secs d \<le> dk_expires_at_unix key - now \<and>
     timestamp_ok R (sint now) \<and> timestamp_ok R (sint now + sint (dur_secs d))"

lemma renewal_run:
  assumes "requests_survive R (SpiffeId_to_string (dk_target_svid_id key)) kp" "base64_ascii R" "signs_leaves R key"
    and "delegable R key" "in_time R key d now"
  obtains c q pk cert where "build_csr R (dk_target_svid_id key) kp = Inr c"
    "sign_svid_delegated R key (csr_der c) d now = Returns (Inr cert)"
    "sign_leaf R key (renewed key d now q) pk = Returns (Inr cert)" "leaf_of key (renewed key d now q)"
proof -
  obtain c q pk where q: "build_csr R (dk_target_svid_id key) kp = Inr c" "csr_from_der R (csr_der c) = Some (q, pk)"
      "csr_shaped (SpiffeId_to_string (dk_target_svid_id key)) q"
    using assms(1,4) unfolding delegable_def by (metis built_request)
  have "sign_svid_delegated R key (csr_der c) d now = sign_leaf R key (renewed key d now q) pk"
    using q(2,3) assms(4,5)
    by (intro sign_svid_delegated_granted) (simp_all add: renewal_granted_def csr_shaped_def delegable_def in_time_def)
  moreover obtain cert where "sign_leaf R key (renewed key d now q) pk = Returns (Inr cert)"
    using leaf_signed [OF assms(2,3) renewed_leaf [OF q(3)]] by blast
  ultimately show ?thesis using that q(1) renewed_leaf [OF q(3)] by simp
qed

text \<open>C4. A renewed certificate says what was delegated. Let the request for the target be read
  back as written, certificates be laid out as RFC 5280 says, and the verifier accept what the
  intermediate signed. For a key in its time and a validity that fits, the request \<open>build_csr\<close>
  writes for the target is granted; the certificate's identity is the target, \<open>validate_svid\<close>
  against the intermediate accepts it, as the target, for as long as it is valid, and it
  carries the stamps of the key between what stands before and behind them. If
  these two parts (which hold the caller's public key) do not contain the bytes of one of the
  three object identifiers, then every reader of the crate finds what was delegated: the marker
  degraded, the key's role or none, and the key's ordinal or none (lost from 2^31 on).\<close>

theorem renewed_certificate_says_what_was_delegated:
  assumes "requests_survive R (SpiffeId_to_string (dk_target_svid_id key)) kp" "base64_ascii R" "signs_leaves R key"
    and "lays_out R parse_x509 key" "chains R T key" "delegable R key" "in_time R key d now"
  shows "\<exists>c cert. build_csr R (dk_target_svid_id key) kp = Inr c \<and>
    sign_svid_delegated R key (csr_der c) d now = Returns (Inr cert) \<and>
    extract_spiffe_id parse_x509 cert = Inr (dk_target_svid_id key) \<and>
    (\<forall>clock. 0 \<le> clock \<longrightarrow> sint now \<le> clock \<longrightarrow> clock \<le> sint now + sint (dur_secs d) \<longrightarrow>
       validate_svid parse_x509 T clock cert
         \<lparr>tb_trust_domain = si_trust_domain (dk_target_svid_id key), tb_roots = [dk_intermediate_cert_der key]\<rparr> =
       Inr (dk_target_svid_id key)) \<and>
    (\<exists>pre post. cert = pre @ concat (map ext_der (stamps key)) @ 0x30 # post) \<and>
    (\<forall>pre post. cert = pre @ concat (map ext_der (stamps key)) @ 0x30 # post \<longrightarrow> clean pre \<longrightarrow> clean post \<longrightarrow>
       is_degraded cert \<and> extract_role cert = dk_target_role key \<and>
       extract_ordinal cert = Option.bind (dk_target_ordinal key) (\<lambda>w. if w < 0x80000000 then Some w else None))"
proof -
  obtain c q pk cert where run: "build_csr R (dk_target_svid_id key) kp = Inr c"
      "sign_svid_delegated R key (csr_der c) d now = Returns (Inr cert)"
      "sign_leaf R key (renewed key d now q) pk = Returns (Inr cert)" and leaf: "leaf_of key (renewed key d now q)"
    using assms(1-3,6,7) by (rule renewal_run)
  obtain iss where iss: "signed_by R (renewed key d now q) pk iss = Some cert" using run(3) by (rule sign_leaf_certificate)
  have ok: "spiffe_wf (dk_target_svid_id key)" "\<forall>r. dk_target_role key = Some (WorkloadRole r) \<longrightarrow> role_ok r"
    using assms(6) by (simp_all add: delegable_def)
  note lay = leaf_laid_out [OF assms(4) leaf iss ok]
  have reads: "is_degraded cert \<and> extract_role cert = dk_target_role key \<and>
      extract_ordinal cert = Option.bind (dk_target_ordinal key) (\<lambda>w. if w < 0x80000000 then Some w else None)"
    if "cert = pre @ concat (map ext_der (stamps key)) @ 0x30 # post" "clean pre" "clean post" for pre post
    unfolding that(1) using that(2,3) stamped_degraded stamped_role [OF _ _ ok(2)] stamped_ordinal [OF _ _ ok(2)] by blast
  have "validate_svid parse_x509 T clock cert
      \<lparr>tb_trust_domain = si_trust_domain (dk_target_svid_id key), tb_roots = [dk_intermediate_cert_der key]\<rparr> =
    Inr (dk_target_svid_id key)" if "0 \<le> clock" "sint now \<le> clock" "clock \<le> sint now + sint (dur_secs d)" for clock
    using leaf_chains [OF assms(5) run(3) leaf lay(1), of clock] that by (simp add: renewed_def)
  then show ?thesis using run(1,2) lay reads by blast
qed

text \<open>A library, a parser and a verifier for one key: a certificate is a tag, its extensions and
  an empty sequence.\<close>

definition pod_key :: delegated_signing_key where
  "pod_key = toy_key\<lparr>dk_target_role := Some (WorkloadRole ''replica''), dk_target_ordinal := Some 2\<rparr>"

definition pod_lib :: "(unit, unit, unit) rcgen_lib" where
  "pod_lib = toy_lib\<lparr>
     csr_from_der := (\<lambda>d. Some (toy_params\<lparr>cp_subject_alt_names := [San_URI (of_bytes d)],
       cp_distinguished_name := [(CommonName, of_bytes d)], cp_extended_key_usages := [ServerAuth, ClientAuth]\<rparr>, ())),
     signed_by := (\<lambda>p _ _. Some (0x30 # concat (map ext_der (cp_custom_extensions p)) @ [0x30, 0x00]))\<rparr>"

definition pod_parser :: "bytes \<Rightarrow> parsed_extension list option" where
  "pod_parser cert = Some [OtherExtension, SubjectAlternativeName [GN_URI (SpiffeId_to_string (dk_target_svid_id pod_key))]]"

definition open_verifier :: "(unit, unit) tls_lib" where
  "open_verifier = \<lparr>store_empty = (), store_add = (\<lambda>_ _. Some ()), verifier_build = Some, verify_client_cert = (\<lambda>_ _ _. True)\<rparr>"

lemma pod_lays_out: "lays_out pod_lib pod_parser pod_key"
  unfolding lays_out_def
proof (intro allI impI conjI)
  fix q pk iss cert
  assume "signed_by pod_lib q pk iss = Some cert"
  then have "cert = [0x30] @ concat (map ext_der (cp_custom_extensions q)) @ 0x30 # [0x00]" by (simp add: pod_lib_def)
  then show "\<exists>pre post. cert = pre @ concat (map ext_der (cp_custom_extensions q)) @ 0x30 # post" by blast
  show "\<exists>exts. pod_parser cert = Some exts \<and> List.find is_san exts =
      Some (SubjectAlternativeName [GN_URI (SpiffeId_to_string (dk_target_svid_id pod_key))])"
    by (simp add: pod_parser_def)
qed

lemma pod_requests: "requests_survive pod_lib u kp"
  by (simp add: requests_survive_def pod_lib_def toy_lib_def toy_params_def csr_shaped_def toy_san_bytes_def insert_commute)

lemma pod_role: "role_ok ''replica''"
  by (simp add: ext_eval)

lemma pod_certificate:
  assumes "sign_svid_delegated pod_lib pod_key der d now = Returns (Inr cert)"
  shows "cert = [0x30] @ concat (map ext_der (stamps pod_key)) @ 0x30 # [0x00]"
proof -
  obtain p pk where p: "csr_from_der pod_lib der = Some (p, pk)" "renewal_granted pod_key d now p"
    "timestamp_ok pod_lib (sint now)" "timestamp_ok pod_lib (sint now + sint (dur_secs d))"
    using assms by (rule sign_svid_delegated_checks)
  then have "sign_leaf pod_lib pod_key (renewed pod_key d now p) pk = Returns (Inr cert)"
    using assms by (simp only: sign_svid_delegated_granted)
  then obtain iss where "signed_by pod_lib (renewed pod_key d now p) pk iss = Some cert" by (rule sign_leaf_certificate)
  moreover have "cp_custom_extensions (renewed pod_key d now p) = stamps pod_key"
    using p(1) by (auto simp: renewed_def pod_lib_def toy_params_def)
  ultimately show ?thesis by (simp add: pod_lib_def)
qed

lemma pod_clean: "clean [0x30]" "clean [0x00]"
  by code_simp+

theorem renewed_certificate_says_what_was_delegated_witness:
  "\<exists>c cert. build_csr pod_lib (dk_target_svid_id pod_key) () = Inr c \<and>
     sign_svid_delegated pod_lib pod_key (csr_der c) \<lparr>dur_secs = 50, dur_nanos = 0\<rparr> 40 = Returns (Inr cert) \<and>
     validate_svid pod_parser open_verifier 60 cert \<lparr>tb_trust_domain = ''d'', tb_roots = [[]]\<rparr> = Inr (dk_target_svid_id pod_key) \<and>
     is_degraded cert \<and> extract_role cert = Some (WorkloadRole ''replica'') \<and> extract_ordinal cert = Some 2"
proof -
  let ?d = "\<lparr>dur_secs = 50, dur_nanos = 0\<rparr>"
  have "base64_ascii pod_lib" using toy_ascii by (simp add: base64_ascii_def pod_lib_def)
  moreover have "signs_leaves pod_lib pod_key" by (simp add: signs_leaves_def pod_lib_def toy_lib_def)
  moreover have "chains pod_lib open_verifier pod_key" by (simp add: chains_def open_verifier_def)
  moreover have "delegable pod_lib pod_key"
    using toy_wf pod_role by (simp add: delegable_def pod_key_def pod_lib_def toy_lib_def)
  moreover have "in_time pod_lib pod_key ?d 40"
    by (simp add: in_time_def pod_key_def toy_key_def pod_lib_def toy_lib_def)
  ultimately obtain c cert where run: "build_csr pod_lib (dk_target_svid_id pod_key) () = Inr c"
      "sign_svid_delegated pod_lib pod_key (csr_der c) ?d 40 = Returns (Inr cert)"
    and valid: "\<forall>clock. 0 \<le> clock \<longrightarrow> sint (40 :: u64) \<le> clock \<longrightarrow> clock \<le> sint (40 :: u64) + sint (dur_secs ?d) \<longrightarrow>
       validate_svid pod_parser open_verifier clock cert
         \<lparr>tb_trust_domain = si_trust_domain (dk_target_svid_id pod_key), tb_roots = [dk_intermediate_cert_der pod_key]\<rparr> =
       Inr (dk_target_svid_id pod_key)"
    and reads: "\<forall>pre post. cert = pre @ concat (map ext_der (stamps pod_key)) @ 0x30 # post \<longrightarrow> clean pre \<longrightarrow> clean post \<longrightarrow>
       is_degraded cert \<and> extract_role cert = dk_target_role pod_key \<and>
       extract_ordinal cert = Option.bind (dk_target_ordinal pod_key) (\<lambda>w. if w < 0x80000000 then Some w else None)"
    using renewed_certificate_says_what_was_delegated [OF pod_requests _ _ pod_lays_out] by blast
  have "is_degraded cert \<and> extract_role cert = Some (WorkloadRole ''replica'') \<and> extract_ordinal cert = Some 2"
    using reads [rule_format, OF pod_certificate [OF run(2)] pod_clean] by (simp add: pod_key_def)
  moreover have "validate_svid pod_parser open_verifier 60 cert \<lparr>tb_trust_domain = ''d'', tb_roots = [[]]\<rparr> = Inr (dk_target_svid_id pod_key)"
    using valid [rule_format, of 60] by (simp add: pod_key_def) (simp add: toy_key_def SpiffeId_new_def)
  ultimately show ?thesis using run by blast
qed

section \<open>Panics of the renewal\<close>

lemma sign_leaf_no_panic: "base64_ascii R \<Longrightarrow> sign_leaf R key q pk \<noteq> Panics"
  using der_to_pem_ok [of R "dk_signing_key key" "''PRIVATE KEY''"] by (simp add: sign_leaf_def)

lemma renewal_panic_checks:
  assumes "sign_svid_delegated R key der d now = Panics" "base64_ascii R"
  obtains p pk where "csr_from_der R der = Some (p, pk)" "renewal_granted key d now p"
    "timestamp_ok R (sint now)" "\<not> timestamp_ok R (sint now + sint (dur_secs d))"
proof -
  from assms obtain p pk uri where p: "csr_from_der R der = Some (p, pk)"
      "dk_expires_at_unix key > now" "length (cp_subject_alt_names p) = 1"
      "cp_subject_alt_names p ! 0 = San_URI uri" "parse_id uri = Inr (dk_target_svid_id key)"
      "dur_secs d \<le> dk_expires_at_unix key - now" "timestamp_ok R (sint now)"
      "\<not> timestamp_ok R (sint now + sint (min (dur_secs d) (dk_expires_at_unix key - now)))"
    by (auto simp: sign_svid_delegated_def Let_def not_le not_less sign_leaf_no_panic
        split: if_splits option.splits san_type.splits sum.splits)
  then have "cp_subject_alt_names p = [San_URI uri]" by (cases "cp_subject_alt_names p") auto
  then show ?thesis using that p by (simp add: renewal_granted_def parse_id_Inr)
qed

text \<open>C19. When the renewal panics. All checks of a request may pass and the call still panics:
  exactly when the end of the validity, computed as a signed sum, is no date of the time
  library while the start is one. Every other refusal is a returned error.\<close>

theorem renewal_panics_exactly:
  assumes "base64_ascii R"
  shows "sign_svid_delegated R key der d now = Panics \<longleftrightarrow>
    (\<exists>p pk. csr_from_der R der = Some (p, pk) \<and> renewal_granted key d now p \<and>
       timestamp_ok R (sint now) \<and> \<not> timestamp_ok R (sint now + sint (dur_secs d)))"
proof
  assume "sign_svid_delegated R key der d now = Panics"
  then show "\<exists>p pk. csr_from_der R der = Some (p, pk) \<and> renewal_granted key d now p \<and>
       timestamp_ok R (sint now) \<and> \<not> timestamp_ok R (sint now + sint (dur_secs d))"
    using assms by (rule renewal_panic_checks) blast
next
  assume "\<exists>p pk. csr_from_der R der = Some (p, pk) \<and> renewal_granted key d now p \<and>
       timestamp_ok R (sint now) \<and> \<not> timestamp_ok R (sint now + sint (dur_secs d))"
  then obtain p pk where p: "csr_from_der R der = Some (p, pk)" "renewal_granted key d now p"
      "timestamp_ok R (sint now)" "\<not> timestamp_ok R (sint now + sint (dur_secs d))" by blast
  then have "min (dur_secs d) (dk_expires_at_unix key - now) = dur_secs d" by (simp add: renewal_granted_def)
  then show "sign_svid_delegated R key der d now = Panics"
    using p starts_with_spiffe [of "dk_target_svid_id key"]
      parse_id_Inr [of "SpiffeId_to_string (dk_target_svid_id key)" "dk_target_svid_id key"]
    by (auto simp: renewal_granted_def sign_svid_delegated_def Let_def)
qed

text \<open>The range of dates of the time library, years -9999 to 9999, and a key that outlives it.\<close>

definition dated_lib :: "(unit, unit, unit) rcgen_lib" where
  "dated_lib = pod_lib\<lparr>timestamp_ok := (\<lambda>t. -377705116800 \<le> t \<and> t \<le> 253402300799)\<rparr>"

definition eternal_key :: delegated_signing_key where
  "eternal_key = pod_key\<lparr>dk_expires_at_unix := 0x4000000000\<rparr>"

theorem renewal_panics_exactly_witness:
  "sign_svid_delegated dated_lib eternal_key (as_bytes (SpiffeId_to_string (dk_target_svid_id eternal_key)))
     \<lparr>dur_secs = 253402300800, dur_nanos = 0\<rparr> 0 = Panics"
proof -
  have "base64_ascii dated_lib" using toy_ascii by (simp add: base64_ascii_def dated_lib_def pod_lib_def)
  moreover have "spiffe_wf (dk_target_svid_id eternal_key)" using toy_wf by (simp add: eternal_key_def pod_key_def)
  ultimately show ?thesis
    using renewal_panics_exactly [of dated_lib eternal_key "as_bytes (SpiffeId_to_string (dk_target_svid_id eternal_key))"
        "\<lparr>dur_secs = 253402300800, dur_nanos = 0\<rparr>" 0]
    by (simp add: dated_lib_def renewal_granted_def) (simp add: pod_lib_def eternal_key_def)
qed

end
