(* ===== verification/Cert_Tests.thy ===== *)
theory Cert_Tests
  imports Svid_Tests Renewal_Certificate
begin

text \<open>
  The remaining tests of \<open>cr_core_12_tests\<close> (\<open>spiffe.rs\<close>): identities of certificates, validation
  against a bundle, writer and reader of the extensions, and successful renewals. The
  functions of the certificate generator that only the tests call, self-signing and the
  public part of a key pair, are arguments, as are the clock readings and generated keys.
\<close>

section \<open>Fixtures\<close>

record 'kp root_ca =
  rc_key :: 'kp
  rc_cert_der :: bytes

definition generate_root ::
    "('kp, 'pk, 'iss) rcgen_lib \<Rightarrow> (cert_params \<Rightarrow> 'kp \<Rightarrow> bytes option) \<Rightarrow> 'kp \<Rightarrow> string \<Rightarrow> 'kp root_ca option" where
  "generate_root R self_signed key trust_domain =
     Option.bind (params_new R []) (\<lambda>params.
     let dn = [(CommonName, ''Test Root CA ('' @ trust_domain @ '')'')];
         params = params\<lparr>cp_distinguished_name := dn\<rparr>;
         params = params\<lparr>cp_is_ca := Ca Unconstrained\<rparr>;
         params = params\<lparr>cp_key_usages := [KeyCertSign, CrlSign]\<rparr>
     in Option.bind (self_signed params key) (\<lambda>cert.
          Some \<lparr>rc_key = key, rc_cert_der = cert\<rparr>))"

definition sign_workload_svid ::
    "('kp, 'pk, 'iss) rcgen_lib \<Rightarrow> ('kp \<Rightarrow> 'pk) \<Rightarrow> 'kp \<Rightarrow> 'kp root_ca \<Rightarrow> string \<Rightarrow> bytes option" where
  "sign_workload_svid R public_key leaf_key root spiffe_id =
     Option.bind (params_new R []) (\<lambda>params.
     Option.bind (ia5_string R spiffe_id) (\<lambda>uri.
     let params = params\<lparr>cp_subject_alt_names := cp_subject_alt_names params @ [San_URI uri]\<rparr>;
         dn = [(CommonName, spiffe_id)];
         params = params\<lparr>cp_distinguished_name := dn\<rparr>;
         params = params\<lparr>cp_key_usages := [DigitalSignature]\<rparr>;
         params = params\<lparr>cp_extended_key_usages := [ClientAuth, ServerAuth]\<rparr>
     in Option.bind (issuer_from_ca_cert_der R (rc_cert_der root) (rc_key root)) (\<lambda>issuer.
          signed_by R params (public_key leaf_key) issuer)))"

text \<open>\<open>duration_since\<close> fails for a clock before the epoch; \<open>as_secs\<close> is 64 bits wide.\<close>

definition now_unix :: "int \<Rightarrow> u64 option" where
  "now_unix clock = (if clock < 0 then None else Some (word_of_int clock))"

definition test_bundle :: "bytes \<Rightarrow> trust_bundle" where
  "test_bundle root_der = \<lparr>tb_trust_domain = TD, tb_roots = [root_der]\<rparr>"

text \<open>The first part of \<open>delegated_setup\<close>: the intermediate's key and certificate.\<close>

definition delegated_intermediate ::
    "('kp, 'pk, 'iss) rcgen_lib \<Rightarrow> (cert_params \<Rightarrow> 'kp \<Rightarrow> bytes option) \<Rightarrow> ('kp \<Rightarrow> 'pk) \<Rightarrow> ('kp \<Rightarrow> bytes) \<Rightarrow> 'kp \<Rightarrow> 'kp \<Rightarrow>
     (bytes \<times> bytes) option" where
  "delegated_intermediate R self_signed public_key serialize_der root_key int_key =
     Option.bind (generate_root R self_signed root_key TD) (\<lambda>root.
     Option.bind (params_new R []) (\<lambda>int_params.
     let dn = [(CommonName, ''Test Delegated Intermediate'')];
         int_params = int_params\<lparr>cp_distinguished_name := dn\<rparr>;
         int_params = int_params\<lparr>cp_is_ca := Ca (Constrained 0)\<rparr>;
         int_params = int_params\<lparr>cp_key_usages := [KeyCertSign, CrlSign]\<rparr>
     in Option.bind (issuer_from_ca_cert_der R (rc_cert_der root) (rc_key root)) (\<lambda>issuer.
        Option.bind (signed_by R int_params (public_key int_key) issuer) (\<lambda>int_cert.
          Some (serialize_der int_key, int_cert)))))"

section \<open>Identity of a certificate\<close>

definition extract_spiffe_id_parses_control_shaped_svid ::
    "('kp, 'pk, 'iss) rcgen_lib \<Rightarrow> (cert_params \<Rightarrow> 'kp \<Rightarrow> bytes option) \<Rightarrow> ('kp \<Rightarrow> 'pk) \<Rightarrow>
     (bytes \<Rightarrow> parsed_extension list option) \<Rightarrow> 'kp \<Rightarrow> 'kp \<Rightarrow> bool" where
  "extract_spiffe_id_parses_control_shaped_svid R self_signed public_key parse_x509 root_key leaf_key =
     some_unwrapped (generate_root R self_signed root_key TD) (\<lambda>root.
     let uri = ''spiffe://'' @ TD @ ''/ns/tenant-1/sa/db''
     in some_unwrapped (sign_workload_svid R public_key leaf_key root uri) (\<lambda>cert.
        unwrapped (extract_spiffe_id parse_x509 cert) (\<lambda>id.
        unwrapped (SpiffeId_from_str uri) (\<lambda>parsed.
          id = parsed \<and> si_trust_domain id = TD \<and> si_tenant id = ''tenant-1'' \<and> si_kind id = Sa \<and> si_name id = ''db''))))"

definition extract_spiffe_id_rejects_cert_without_spiffe_san ::
    "('kp, 'pk, 'iss) rcgen_lib \<Rightarrow> (cert_params \<Rightarrow> 'kp \<Rightarrow> bytes option) \<Rightarrow>
     (bytes \<Rightarrow> parsed_extension list option) \<Rightarrow> 'kp \<Rightarrow> bool" where
  "extract_spiffe_id_rejects_cert_without_spiffe_san R self_signed parse_x509 key =
     some_unwrapped (params_new R []) (\<lambda>params.
     let params = params\<lparr>cp_distinguished_name := [(CommonName, ''no-san'')]\<rparr>
     in some_unwrapped (self_signed params key) (\<lambda>cert.
          extract_spiffe_id parse_x509 cert = Inl InvalidFormat))"

section \<open>Validation\<close>

definition validate_svid_accepts_valid_chain ::
    "('kp, 'pk, 'iss) rcgen_lib \<Rightarrow> (cert_params \<Rightarrow> 'kp \<Rightarrow> bytes option) \<Rightarrow> ('kp \<Rightarrow> 'pk) \<Rightarrow>
     (bytes \<Rightarrow> parsed_extension list option) \<Rightarrow> ('store, 'verifier) tls_lib \<Rightarrow> int \<Rightarrow> 'kp \<Rightarrow> 'kp \<Rightarrow> bool" where
  "validate_svid_accepts_valid_chain R self_signed public_key parse_x509 T clock root_key leaf_key =
     some_unwrapped (generate_root R self_signed root_key TD) (\<lambda>root.
     let uri = ''spiffe://'' @ TD @ ''/ns/tenant-1/sa/db''
     in some_unwrapped (sign_workload_svid R public_key leaf_key root uri) (\<lambda>cert.
        unwrapped (validate_svid parse_x509 T clock cert (test_bundle (rc_cert_der root))) (\<lambda>id.
        unwrapped (SpiffeId_from_str uri) (\<lambda>parsed. id = parsed))))"

definition validate_svid_rejects_foreign_ca ::
    "('kp, 'pk, 'iss) rcgen_lib \<Rightarrow> (cert_params \<Rightarrow> 'kp \<Rightarrow> bytes option) \<Rightarrow> ('kp \<Rightarrow> 'pk) \<Rightarrow>
     (bytes \<Rightarrow> parsed_extension list option) \<Rightarrow> ('store, 'verifier) tls_lib \<Rightarrow> int \<Rightarrow> 'kp \<Rightarrow> 'kp \<Rightarrow> 'kp \<Rightarrow> bool" where
  "validate_svid_rejects_foreign_ca R self_signed public_key parse_x509 T clock root_key foreign_key leaf_key =
     some_unwrapped (generate_root R self_signed root_key TD) (\<lambda>root.
     some_unwrapped (generate_root R self_signed foreign_key ''other.example.internal'') (\<lambda>foreign.
     let uri = ''spiffe://'' @ TD @ ''/ns/tenant-1/sa/db''
     in some_unwrapped (sign_workload_svid R public_key leaf_key foreign uri) (\<lambda>cert.
          validate_svid parse_x509 T clock cert (test_bundle (rc_cert_der root)) = Inl ValidationFailed)))"

definition validate_svid_rejects_wrong_trust_domain_uri ::
    "('kp, 'pk, 'iss) rcgen_lib \<Rightarrow> (cert_params \<Rightarrow> 'kp \<Rightarrow> bytes option) \<Rightarrow> ('kp \<Rightarrow> 'pk) \<Rightarrow>
     (bytes \<Rightarrow> parsed_extension list option) \<Rightarrow> ('store, 'verifier) tls_lib \<Rightarrow> int \<Rightarrow> 'kp \<Rightarrow> 'kp \<Rightarrow> bool" where
  "validate_svid_rejects_wrong_trust_domain_uri R self_signed public_key parse_x509 T clock root_key leaf_key =
     some_unwrapped (generate_root R self_signed root_key TD) (\<lambda>root.
     some_unwrapped (sign_workload_svid R public_key leaf_key root ''spiffe://evil.example.internal/ns/tenant-1/sa/db'') (\<lambda>cert.
       validate_svid parse_x509 T clock cert (test_bundle (rc_cert_der root)) = Inl ValidationFailed))"

section \<open>Extensions and successful renewals\<close>

definition role_is :: "workload_role option \<Rightarrow> string \<Rightarrow> bool" where
  "role_is found r = some_unwrapped found (\<lambda>role. unwrapped (WorkloadRole_try_from r) (\<lambda>expected. role = expected))"

definition extension_builders_emit_reader_parseable_values ::
    "('kp, 'pk, 'iss) rcgen_lib \<Rightarrow> (cert_params \<Rightarrow> 'kp \<Rightarrow> bytes option) \<Rightarrow> 'kp \<Rightarrow> bool" where
  "extension_builders_emit_reader_parseable_values R self_signed key =
     some_unwrapped (params_new R []) (\<lambda>params.
     let params = params\<lparr>cp_distinguished_name := [(CommonName, ''ext-roundtrip'')]\<rparr>;
         params = params\<lparr>cp_custom_extensions := cp_custom_extensions params @ [role_extension ''replica'']\<rparr>;
         params = params\<lparr>cp_custom_extensions := cp_custom_extensions params @ [degraded_extension True]\<rparr>;
         params = params\<lparr>cp_custom_extensions := cp_custom_extensions params @ [ordinal_extension 7]\<rparr>
     in some_unwrapped (self_signed params key) (\<lambda>der.
          role_is (extract_role der) ''replica'' \<and> is_degraded der \<and> extract_ordinal der = Some 7))"

definition delegated_renewal_round_trip_stamps_scope_from_key ::
    "('kp, 'pk, 'iss) rcgen_lib \<Rightarrow> (bytes \<Rightarrow> parsed_extension list option) \<Rightarrow> (bytes \<Rightarrow> (int \<times> int) option) \<Rightarrow>
     ('store, 'verifier) tls_lib \<Rightarrow> bytes \<Rightarrow> bytes \<Rightarrow> 'kp \<Rightarrow> u64 \<Rightarrow> u64 \<Rightarrow> int \<Rightarrow> bool" where
  "delegated_renewal_round_trip_stamps_scope_from_key R parse_x509 validity T int_key int_cert kp t0 now clock =
     some_unwrapped (delegated_setup int_key int_cert t0 ''replica'' (Some 2)) (\<lambda>key.
     unwrapped (build_csr R (dk_target_svid_id key) kp) (\<lambda>csr.
     case sign_svid_delegated R key (csr_der csr) \<lparr>dur_secs = 3600, dur_nanos = 0\<rparr> now of Panics \<Rightarrow> False
     | Returns r \<Rightarrow> unwrapped r (\<lambda>leaf_der.
         extract_spiffe_id parse_x509 leaf_der = Inr (dk_target_svid_id key) \<and> is_degraded leaf_der \<and>
         role_is (extract_role leaf_der) ''replica'' \<and> extract_ordinal leaf_der = Some 2 \<and>
         some_unwrapped (validity leaf_der) (\<lambda>(not_before, not_after). not_before = sint now \<and> not_after = sint (now + 3600)) \<and>
         (let int_bundle = \<lparr>tb_trust_domain = TD, tb_roots = [int_cert]\<rparr>
          in validate_svid parse_x509 T clock leaf_der int_bundle = Inr (dk_target_svid_id key)))))"

definition delegated_renewal_role_stamped_from_key_only ::
    "('kp, 'pk, 'iss) rcgen_lib \<Rightarrow> (bytes \<Rightarrow> parsed_extension list option) \<Rightarrow> bytes \<Rightarrow> bytes \<Rightarrow> 'kp \<Rightarrow> 'kp \<Rightarrow> u64 \<Rightarrow> u64 \<Rightarrow> bool" where
  "delegated_renewal_role_stamped_from_key_only R parse_x509 int_key int_cert kp1 kp2 t0 now =
     some_unwrapped (delegated_setup int_key int_cert t0 ''primary'' None) (\<lambda>key.
     unwrapped (build_csr R (dk_target_svid_id key) kp1) (\<lambda>csr1.
     unwrapped (build_csr R (dk_target_svid_id key) kp2) (\<lambda>csr2.
     case (sign_svid_delegated R key (csr_der csr1) \<lparr>dur_secs = 3600, dur_nanos = 0\<rparr> now,
           sign_svid_delegated R key (csr_der csr2) \<lparr>dur_secs = 3600, dur_nanos = 0\<rparr> now) of
       (Returns (Inr leaf1), Returns (Inr leaf2)) \<Rightarrow>
         role_is (extract_role leaf1) ''primary'' \<and> role_is (extract_role leaf2) ''primary'' \<and>
         extract_ordinal leaf1 = None \<and> extract_ordinal leaf2 = None \<and>
         extract_spiffe_id parse_x509 leaf1 = Inr (dk_target_svid_id key) \<and>
         extract_spiffe_id parse_x509 leaf2 = Inr (dk_target_svid_id key)
     | _ \<Rightarrow> False)))"

section \<open>What the tests rely on\<close>

fun general :: "san_type \<Rightarrow> general_name" where
  "general (San_URI u) = GN_URI u"
| "general (San_Other b) = GN_Other b"

definition shows_names :: "(bytes \<Rightarrow> parsed_extension list option) \<Rightarrow> cert_params \<Rightarrow> bytes \<Rightarrow> bool" where
  "shows_names parse_x509 p cert \<longleftrightarrow> (\<exists>exts. parse_x509 cert = Some exts \<and> List.find is_san exts =
     (if cp_subject_alt_names p = [] then None else Some (SubjectAlternativeName (map general (cp_subject_alt_names p)))))"

text \<open>The generator: new parameters are empty and valid at the time of the test, ASCII text is an
  IA5 string, keys sign, and certificates show their names.\<close>

definition generates ::
    "('kp, 'pk, 'iss) rcgen_lib \<Rightarrow> (cert_params \<Rightarrow> 'kp \<Rightarrow> bytes option) \<Rightarrow> (bytes \<Rightarrow> parsed_extension list option) \<Rightarrow> int \<Rightarrow> bool" where
  "generates R self_signed parse_x509 clock \<longleftrightarrow>
     (\<exists>p. params_new R [] = Some p \<and> cp_subject_alt_names p = [] \<and> cp_custom_extensions p = [] \<and>
        cp_not_before p \<le> clock \<and> clock \<le> cp_not_after p) \<and>
     (\<forall>s. list_all (\<lambda>b. b < 0x80) (as_bytes s) \<longrightarrow> ia5_string R s = Some s) \<and>
     (\<forall>p k. \<exists>cert iss. self_signed p k = Some cert \<and> issuer_from_ca_cert_der R cert k = Some iss \<and> shows_names parse_x509 p cert) \<and>
     (\<forall>p pk iss. \<exists>cert. signed_by R p pk iss = Some cert \<and> shows_names parse_x509 p cert)"

text \<open>The verifier: with a self-signed root it accepts the client certificates signed with the root
  and its key while they are valid, and none that was signed with another key.\<close>

definition verifies ::
    "('kp, 'pk, 'iss) rcgen_lib \<Rightarrow> (cert_params \<Rightarrow> 'kp \<Rightarrow> bytes option) \<Rightarrow> ('kp \<Rightarrow> 'pk) \<Rightarrow> ('store, 'verifier) tls_lib \<Rightarrow> int \<Rightarrow> bool" where
  "verifies R self_signed public_key T clock \<longleftrightarrow> (\<forall>p k ca. self_signed p k = Some ca \<longrightarrow>
     (\<exists>store v. store_add T (store_empty T) ca = Some store \<and> verifier_build T store = Some v \<and>
        (\<forall>iss q pk cert. issuer_from_ca_cert_der R ca k = Some iss \<longrightarrow> signed_by R q pk iss = Some cert \<longrightarrow>
           ClientAuth \<in> set (cp_extended_key_usages q) \<longrightarrow> cp_not_before q \<le> clock \<longrightarrow> clock \<le> cp_not_after q \<longrightarrow>
           verify_client_cert T v cert (nat clock)) \<and>
        (\<forall>ca' k' iss q pk cert. public_key k' \<noteq> public_key k \<longrightarrow> issuer_from_ca_cert_der R ca' k' = Some iss \<longrightarrow>
           signed_by R q pk iss = Some cert \<longrightarrow> \<not> verify_client_cert T v cert (nat clock))))"

section \<open>They pass\<close>

lemma root_generated:
  assumes "generates R self_signed parse_x509 clock"
  obtains p cert iss where "generate_root R self_signed k td = Some \<lparr>rc_key = k, rc_cert_der = cert\<rparr>"
    "self_signed p k = Some cert" "issuer_from_ca_cert_der R cert k = Some iss"
  using assms unfolding generates_def generate_root_def Let_def by (metis Option.bind.bind_lunit)

lemma workload_signed:
  assumes "generates R self_signed parse_x509 clock" "list_all (\<lambda>b. b < 0x80) (as_bytes uri)"
    and "issuer_from_ca_cert_der R (rc_cert_der root) (rc_key root) = Some iss"
  obtains q cert where "sign_workload_svid R public_key lk root uri = Some cert"
    "signed_by R q (public_key lk) iss = Some cert" "cp_subject_alt_names q = [San_URI uri]"
    "ClientAuth \<in> set (cp_extended_key_usages q)" "cp_not_before q \<le> clock" "clock \<le> cp_not_after q"
    "shows_names parse_x509 q cert"
proof -
  obtain p where p: "params_new R [] = Some p" "cp_subject_alt_names p = []" "cp_not_before p \<le> clock" "clock \<le> cp_not_after p"
    using assms(1) unfolding generates_def by blast
  let ?q = "p\<lparr>cp_subject_alt_names := [San_URI uri], cp_distinguished_name := [(CommonName, uri)],
    cp_key_usages := [DigitalSignature], cp_extended_key_usages := [ClientAuth, ServerAuth]\<rparr>"
  obtain cert where "signed_by R ?q (public_key lk) iss = Some cert" "shows_names parse_x509 ?q cert"
    using assms(1) unfolding generates_def by blast
  moreover have "ia5_string R uri = Some uri" using assms(1,2) unfolding generates_def by blast
  ultimately show ?thesis using p assms(3) by (intro that [of cert ?q]) (simp_all add: sign_workload_svid_def)
qed

lemma shown_identity:
  assumes "shows_names parse_x509 q cert" "cp_subject_alt_names q = [San_URI (SpiffeId_to_string i)]" "spiffe_wf i"
  shows "extract_spiffe_id parse_x509 cert = Inr i"
  using assms starts_with_spiffe [of i] by (auto simp: shows_names_def extract_Inr)

lemma workload_identity:
  assumes "generates R self_signed parse_x509 clock" "spiffe_wf i" "list_all (\<lambda>b. b < 0x80) (as_bytes (SpiffeId_to_string i))"
    and "issuer_from_ca_cert_der R (rc_cert_der root) (rc_key root) = Some iss"
  obtains q cert where "sign_workload_svid R public_key lk root (SpiffeId_to_string i) = Some cert"
    "signed_by R q (public_key lk) iss = Some cert" "extract_spiffe_id parse_x509 cert = Inr i"
    "ClientAuth \<in> set (cp_extended_key_usages q)" "cp_not_before q \<le> clock" "clock \<le> cp_not_after q"
  using workload_signed [OF assms(1,3,4), of public_key lk] shown_identity [OF _ _ assms(2)] by (metis (no_types, lifting))

definition db_id :: spiffe_id where
  "db_id = id_of TD ''tenant-1'' ''db''"

definition evil_id :: spiffe_id where
  "evil_id = id_of ''evil.example.internal'' ''tenant-1'' ''db''"

lemma test_uris:
  "''spiffe://'' @ TD @ ''/ns/tenant-1/sa/db'' = SpiffeId_to_string db_id"
  "''spiffe://evil.example.internal/ns/tenant-1/sa/db'' = SpiffeId_to_string evil_id"
  by (simp_all add: db_id_def evil_id_def id_of_def SpiffeId_new_def SpiffeId_to_string_def IdKind_fmt.simps)

lemma test_uri_facts:
  "spiffe_wf db_id" "spiffe_wf evil_id"
  "list_all (\<lambda>b. b < 0x80) (as_bytes (SpiffeId_to_string db_id))" "list_all (\<lambda>b. b < 0x80) (as_bytes (SpiffeId_to_string evil_id))"
  "SpiffeId_from_str (SpiffeId_to_string db_id) = Inr db_id"
proof -
  show "spiffe_wf db_id" "spiffe_wf evil_id"
    by (rule spiffe_wfI; simp add: db_id_def evil_id_def id_of_def SpiffeId_new_def TD_def)+
  then show "SpiffeId_from_str (SpiffeId_to_string db_id) = Inr db_id" by (simp add: SpiffeId_from_str_iff)
  show "list_all (\<lambda>b. b < 0x80) (as_bytes (SpiffeId_to_string db_id))" "list_all (\<lambda>b. b < 0x80) (as_bytes (SpiffeId_to_string evil_id))"
    by code_simp+
qed

lemma identity_of_certificates:
  assumes "generates R self_signed parse_x509 clock"
  shows "extract_spiffe_id_parses_control_shaped_svid R self_signed public_key parse_x509 rk lk"
    "extract_spiffe_id_rejects_cert_without_spiffe_san R self_signed parse_x509 rk"
proof -
  obtain p ca iss where ca: "generate_root R self_signed rk TD = Some \<lparr>rc_key = rk, rc_cert_der = ca\<rparr>"
      "issuer_from_ca_cert_der R ca rk = Some iss"
    using root_generated [OF assms, of rk TD] by blast
  obtain cert where "sign_workload_svid R public_key lk \<lparr>rc_key = rk, rc_cert_der = ca\<rparr> (SpiffeId_to_string db_id) = Some cert"
      "extract_spiffe_id parse_x509 cert = Inr db_id"
    using workload_identity [OF assms test_uri_facts(1,3), of "\<lparr>rc_key = rk, rc_cert_der = ca\<rparr>" iss public_key lk] ca(2) by auto
  then show "extract_spiffe_id_parses_control_shaped_svid R self_signed public_key parse_x509 rk lk"
    unfolding extract_spiffe_id_parses_control_shaped_svid_def test_uris Let_def
    by (simp add: ca some_unwrapped_def unwrapped_def test_uri_facts(5)) (simp add: db_id_def id_of_def SpiffeId_new_def)
  obtain p where p: "params_new R [] = Some p" "cp_subject_alt_names p = []" using assms unfolding generates_def by blast
  obtain cert where "self_signed (p\<lparr>cp_distinguished_name := [(CommonName, ''no-san'')]\<rparr>) rk = Some cert"
      "shows_names parse_x509 (p\<lparr>cp_distinguished_name := [(CommonName, ''no-san'')]\<rparr>) cert"
    using assms unfolding generates_def by blast
  then show "extract_spiffe_id_rejects_cert_without_spiffe_san R self_signed parse_x509 rk"
    using p by (auto simp: extract_spiffe_id_rejects_cert_without_spiffe_san_def some_unwrapped_def shows_names_def extract_spiffe_id_def)
qed

lemma bundle_verdict:
  assumes "store_add T (store_empty T) ca = Some store" "verifier_build T store = Some v"
    and "extract_spiffe_id parse_x509 cert = Inr i"
  shows "validate_svid parse_x509 T clock cert (test_bundle ca) =
    (if verify_client_cert T v cert (nat clock) \<and> si_trust_domain i = TD then Inr i else Inl ValidationFailed)"
proof -
  have "unix_now clock = nat clock" by (simp add: unix_now_def)
  then show ?thesis using assms by (simp add: validate_svid_def test_bundle_def)
qed

lemma validation_of_certificates:
  assumes "generates R self_signed parse_x509 clock" "verifies R self_signed public_key T clock" "public_key rk \<noteq> public_key fk"
  shows "validate_svid_accepts_valid_chain R self_signed public_key parse_x509 T clock rk lk"
    "validate_svid_rejects_foreign_ca R self_signed public_key parse_x509 T clock rk fk lk"
    "validate_svid_rejects_wrong_trust_domain_uri R self_signed public_key parse_x509 T clock rk lk"
proof -
  let ?r = "\<lambda>k ca. \<lparr>rc_key = k, rc_cert_der = ca\<rparr>"
  obtain p ca iss where ca: "generate_root R self_signed rk TD = Some (?r rk ca)" "self_signed p rk = Some ca"
      "issuer_from_ca_cert_der R ca rk = Some iss"
    using assms(1) by (rule root_generated)
  obtain fca fiss where f: "generate_root R self_signed fk ''other.example.internal'' = Some (?r fk fca)"
      "issuer_from_ca_cert_der R fca fk = Some fiss"
    using root_generated [OF assms(1), of fk "''other.example.internal''"] by blast
  obtain store v where v: "store_add T (store_empty T) ca = Some store" "verifier_build T store = Some v"
      and accept: "\<And>q pk cert. signed_by R q pk iss = Some cert \<Longrightarrow> ClientAuth \<in> set (cp_extended_key_usages q) \<Longrightarrow>
        cp_not_before q \<le> clock \<Longrightarrow> clock \<le> cp_not_after q \<Longrightarrow> verify_client_cert T v cert (nat clock)"
      and reject: "\<And>q pk cert. signed_by R q pk fiss = Some cert \<Longrightarrow> \<not> verify_client_cert T v cert (nat clock)"
    using assms(2) [unfolded verifies_def, rule_format, OF ca(2)] ca(3) f(2) assms(3) by metis
  note verdict = bundle_verdict [OF v]
  have root_iss: "issuer_from_ca_cert_der R (rc_cert_der (?r rk ca)) (rc_key (?r rk ca)) = Some iss"
    and root_fiss: "issuer_from_ca_cert_der R (rc_cert_der (?r fk fca)) (rc_key (?r fk fca)) = Some fiss"
    using ca(3) f(2) by simp_all
  have td: "si_trust_domain db_id = TD" "si_trust_domain evil_id \<noteq> TD"
    by (simp_all add: db_id_def evil_id_def id_of_def SpiffeId_new_def TD_def)
  obtain q cert where w: "sign_workload_svid R public_key lk (?r rk ca) (SpiffeId_to_string db_id) = Some cert"
      "signed_by R q (public_key lk) iss = Some cert" "extract_spiffe_id parse_x509 cert = Inr db_id"
      "ClientAuth \<in> set (cp_extended_key_usages q)" "cp_not_before q \<le> clock" "clock \<le> cp_not_after q"
    using assms(1) test_uri_facts(1,3) root_iss by (rule workload_identity)
  then show "validate_svid_accepts_valid_chain R self_signed public_key parse_x509 T clock rk lk"
    unfolding validate_svid_accepts_valid_chain_def test_uris Let_def
    by (simp add: ca some_unwrapped_def unwrapped_def test_uri_facts(5) verdict td accept [OF w(2,4-6)])
  obtain q cert where "sign_workload_svid R public_key lk (?r fk fca) (SpiffeId_to_string db_id) = Some cert"
      "signed_by R q (public_key lk) fiss = Some cert" "extract_spiffe_id parse_x509 cert = Inr db_id"
    using assms(1) test_uri_facts(1,3) root_fiss by (rule workload_identity)
  then show "validate_svid_rejects_foreign_ca R self_signed public_key parse_x509 T clock rk fk lk"
    unfolding validate_svid_rejects_foreign_ca_def test_uris Let_def
    by (simp add: ca f some_unwrapped_def verdict reject)
  obtain q cert where "sign_workload_svid R public_key lk (?r rk ca) (SpiffeId_to_string evil_id) = Some cert"
      "signed_by R q (public_key lk) iss = Some cert" "extract_spiffe_id parse_x509 cert = Inr evil_id"
    using assms(1) test_uri_facts(2,4) root_iss by (rule workload_identity)
  then show "validate_svid_rejects_wrong_trust_domain_uri R self_signed public_key parse_x509 T clock rk lk"
    unfolding validate_svid_rejects_wrong_trust_domain_uri_def test_uris
    by (simp add: ca some_unwrapped_def verdict td)
qed

text \<open>Writers and readers of the extensions, on a self-signed certificate that carries them.\<close>

lemma extension_builders:
  assumes "generates R self_signed parse_x509 clock"
    and "\<And>p cert e. cp_distinguished_name p = [(CommonName, ''ext-roundtrip'')] \<Longrightarrow>
      cp_custom_extensions p = [role_extension ''replica'', degraded_extension True, ordinal_extension 7] \<Longrightarrow>
      self_signed p k = Some cert \<Longrightarrow> e \<in> set (cp_custom_extensions p) \<Longrightarrow> carries cert e"
  shows "extension_builders_emit_reader_parseable_values R self_signed k"
proof -
  obtain p where p: "params_new R [] = Some p" "cp_custom_extensions p = []" using assms(1) unfolding generates_def by blast
  let ?p = "p\<lparr>cp_distinguished_name := [(CommonName, ''ext-roundtrip'')],
    cp_custom_extensions := [role_extension ''replica'', degraded_extension True, ordinal_extension 7]\<rparr>"
  obtain cert where cert: "self_signed ?p k = Some cert" using assms(1) unfolding generates_def by blast
  have "carries cert (role_extension ''replica'')" "carries cert (degraded_extension True)" "carries cert (ordinal_extension 7)"
    using assms(2) [OF _ _ cert] by simp_all
  then have "extract_role cert = Some (WorkloadRole ''replica'')" "is_degraded cert" "extract_ordinal cert = Some 7"
    using carried_role pod_role carried_degraded [of cert True] carried_ordinal [of cert 7] by simp_all
  then show ?thesis
    using p cert by (simp add: extension_builders_emit_reader_parseable_values_def some_unwrapped_def role_is_def unwrapped_def test_role)
qed

text \<open>Successful renewals, with the contracts of \<open>Renewal_Certificate\<close> for the key of the test and
  the requester's key pair; the certificate of the test holds the identifiers of the extensions
  nowhere but in its stamps.\<close>

definition undisturbed :: "delegated_signing_key \<Rightarrow> bytes \<Rightarrow> bool" where
  "undisturbed key cert \<longleftrightarrow>
     (\<exists>pre post. cert = pre @ concat (map ext_der (stamps key)) @ 0x30 # post \<and> clean pre \<and> clean post)"

definition renews ::
    "('kp, 'pk, 'iss) rcgen_lib \<Rightarrow> (bytes \<Rightarrow> parsed_extension list option) \<Rightarrow> delegated_signing_key \<Rightarrow> 'kp \<Rightarrow> u64 \<Rightarrow> bool" where
  "renews R parse_x509 key kp now \<longleftrightarrow> requests_survive R (SpiffeId_to_string (dk_target_svid_id key)) kp \<and> base64_ascii R \<and>
     signs_leaves R key \<and> lays_out R parse_x509 key \<and>
     (\<forall>c cert. build_csr R (dk_target_svid_id key) kp = Inr c \<longrightarrow>
        sign_svid_delegated R key (csr_der c) \<lparr>dur_secs = 3600, dur_nanos = 0\<rparr> now = Returns (Inr cert) \<longrightarrow> undisturbed key cert)"

lemma hour_in_time:
  assumes "readings t0 now" "now \<le> t0 + 10800" "dk_expires_at_unix key = t0 + 14400"
    and "timestamp_ok R (sint now)" "timestamp_ok R (sint (now + 3600))"
  shows "in_time R key \<lparr>dur_secs = 3600, dur_nanos = 0\<rparr> now" "sint (now + 3600) = sint now + 3600"
proof -
  have "unat t0 < 0x4000000000000000" using assms(1) by (simp add: readings_def word_less_nat_alt)
  then have t: "unat (t0 + 14400) = unat t0 + 14400" "unat (t0 + 10800) = unat t0 + 10800" "unat t0 < 0x4000000000000000"
    by (simp_all add: unat_word_ariths)
  then have n: "unat now \<le> unat t0 + 10800" using assms(2) by (simp add: word_le_nat_alt)
  then have "unat (now + 3600) = unat now + 3600" using t by (simp add: unat_word_ariths)
  then have u: "uint (now + 3600) = uint now + 3600" using uint_nat [of now] uint_nat [of "now + 3600"] by linarith
  moreover have "uint now < 0x4000000000000000 + 10800" using n t(3) uint_nat [of now] by linarith
  ultimately show s: "sint (now + 3600) = sint now + 3600" using sint_small [of now] sint_small [of "now + 3600"] by simp
  have lt: "now < t0 + 14400" using assms(1) by (simp add: readings_def)
  have "unat (t0 + 14400 - now) = unat t0 + 14400 - unat now"
    using lt t(1) by (subst unat_sub) (simp_all add: word_le_nat_alt word_less_nat_alt)
  then have "3600 \<le> t0 + 14400 - now" using n by (simp add: word_le_nat_alt)
  then show "in_time R key \<lparr>dur_secs = 3600, dur_nanos = 0\<rparr> now"
    using lt assms(3-5) s by (simp add: in_time_def)
qed

definition trip_key :: "bytes \<Rightarrow> bytes \<Rightarrow> u64 \<Rightarrow> delegated_signing_key" where
  "trip_key k c t = (test_key k c t)\<lparr>dk_target_ordinal := Some 2\<rparr>"

definition primary_key :: "bytes \<Rightarrow> bytes \<Rightarrow> u64 \<Rightarrow> delegated_signing_key" where
  "primary_key k c t = (test_key k c t)\<lparr>dk_target_ordinal := None, dk_target_role := Some (WorkloadRole ''primary'')\<rparr>"

lemma primary_role: "WorkloadRole_try_from ''primary'' = Inr (WorkloadRole ''primary'')"
  by code_simp

lemma setups:
  "delegated_setup k c t ''replica'' (Some 2) = Some (trip_key k c t)"
  "delegated_setup k c t ''primary'' None = Some (primary_key k c t)"
  unfolding delegated_setup_def test_ids test_role primary_role trip_key_def primary_key_def test_key_def by simp_all

lemma setup_fields [simp]:
  "dk_target_svid_id (trip_key k c t) = db_id" "dk_target_svid_id (primary_key k c t) = db_id"
  "dk_expires_at_unix (trip_key k c t) = t + 14400" "dk_expires_at_unix (primary_key k c t) = t + 14400"
  "dk_target_role (trip_key k c t) = Some (WorkloadRole ''replica'')" "dk_target_role (primary_key k c t) = Some (WorkloadRole ''primary'')"
  "dk_target_ordinal (trip_key k c t) = Some 2" "dk_target_ordinal (primary_key k c t) = None"
  "dk_intermediate_cert_der (trip_key k c t) = c"
  by (simp_all add: trip_key_def primary_key_def db_id_def) (simp_all add: test_key_def)

lemma setups_delegable:
  assumes "ia5_string R (SpiffeId_to_string db_id) = Some (SpiffeId_to_string db_id)"
  shows "delegable R (trip_key k c t)" "delegable R (primary_key k c t)"
  using assms test_uri_facts(1) pod_role by (simp_all add: delegable_def) (simp add: ext_eval)

lemma renewal_reads:
  assumes "renews R parse_x509 key kp now" "delegable R key" "in_time R key \<lparr>dur_secs = 3600, dur_nanos = 0\<rparr> now"
  obtains c q pk cert where "build_csr R (dk_target_svid_id key) kp = Inr c"
    "sign_svid_delegated R key (csr_der c) \<lparr>dur_secs = 3600, dur_nanos = 0\<rparr> now = Returns (Inr cert)"
    "sign_leaf R key (renewed key \<lparr>dur_secs = 3600, dur_nanos = 0\<rparr> now q) pk = Returns (Inr cert)"
    "leaf_of key (renewed key \<lparr>dur_secs = 3600, dur_nanos = 0\<rparr> now q)"
    "extract_spiffe_id parse_x509 cert = Inr (dk_target_svid_id key)" "is_degraded cert"
    "extract_role cert = dk_target_role key"
    "extract_ordinal cert = Option.bind (dk_target_ordinal key) (\<lambda>w. if w < 0x80000000 then Some w else None)"
proof -
  let ?d = "\<lparr>dur_secs = 3600, dur_nanos = 0\<rparr>"
  have ok: "spiffe_wf (dk_target_svid_id key)" "\<forall>r. dk_target_role key = Some (WorkloadRole r) \<longrightarrow> role_ok r"
    using assms(2) by (simp_all add: delegable_def)
  obtain c q pk cert where run: "build_csr R (dk_target_svid_id key) kp = Inr c"
      "sign_svid_delegated R key (csr_der c) ?d now = Returns (Inr cert)"
      "sign_leaf R key (renewed key ?d now q) pk = Returns (Inr cert)" "leaf_of key (renewed key ?d now q)"
    using assms unfolding renews_def by (metis renewal_run)
  obtain iss where iss: "signed_by R (renewed key ?d now q) pk iss = Some cert" using run(3) by (rule sign_leaf_certificate)
  have "extract_spiffe_id parse_x509 cert = Inr (dk_target_svid_id key)"
    using leaf_laid_out(1) [OF _ run(4) iss ok] assms(1) by (simp add: renews_def)
  moreover obtain pre post where "cert = pre @ concat (map ext_der (stamps key)) @ 0x30 # post" "clean pre" "clean post"
    using assms(1) run(1,2) unfolding renews_def undisturbed_def by blast
  ultimately show ?thesis
    using that run stamped_degraded stamped_role [OF _ _ ok(2)] stamped_ordinal [OF _ _ ok(2)] by blast
qed

text \<open>Both renewal tests pass for a generator that dates its certificates as told.\<close>

lemma renewal_round_trip:
  assumes "renews R parse_x509 (trip_key k c t0) kp now" "chains R T (trip_key k c t0)" "readings t0 now" "now \<le> t0 + 10800"
    and "ia5_string R (SpiffeId_to_string db_id) = Some (SpiffeId_to_string db_id)"
    and "timestamp_ok R (sint now)" "timestamp_ok R (sint (now + 3600))"
    and "\<And>q pk iss cert. signed_by R q pk iss = Some cert \<Longrightarrow> validity cert = Some (cp_not_before q, cp_not_after q)"
    and "sint now \<le> clock" "clock \<le> sint (now + 3600)" "0 \<le> clock"
  shows "delegated_renewal_round_trip_stamps_scope_from_key R parse_x509 validity T k c kp t0 now clock"
proof -
  let ?key = "trip_key k c t0" and ?d = "\<lparr>dur_secs = 3600, dur_nanos = 0\<rparr>"
  note hour = hour_in_time [of t0 now ?key R, OF assms(3,4) _ assms(6,7)]
  obtain csr q pk cert where run: "build_csr R (dk_target_svid_id ?key) kp = Inr csr"
      "sign_svid_delegated R ?key (csr_der csr) ?d now = Returns (Inr cert)"
      "sign_leaf R ?key (renewed ?key ?d now q) pk = Returns (Inr cert)" "leaf_of ?key (renewed ?key ?d now q)"
      "extract_spiffe_id parse_x509 cert = Inr (dk_target_svid_id ?key)" "is_degraded cert"
      "extract_role cert = dk_target_role ?key"
      "extract_ordinal cert = Option.bind (dk_target_ordinal ?key) (\<lambda>w. if w < 0x80000000 then Some w else None)"
    using assms(1) setups_delegable(1) [OF assms(5)] hour(1) by (rule renewal_reads) simp_all
  obtain iss where "signed_by R (renewed ?key ?d now q) pk iss = Some cert" using run(3) by (rule sign_leaf_certificate)
  then have dates: "validity cert = Some (sint now, sint (now + 3600))" using assms(8) hour(2) by (simp add: renewed_def)
  have "validate_svid parse_x509 T clock cert \<lparr>tb_trust_domain = TD, tb_roots = [c]\<rparr> = Inr db_id"
    using leaf_chains [OF assms(2) run(3-5), of clock] assms(9-11) hour(2)
    by (simp add: renewed_def) (simp add: db_id_def id_of_def SpiffeId_new_def)
  then show ?thesis using run dates
    by (simp add: delegated_renewal_round_trip_stamps_scope_from_key_def setups some_unwrapped_def unwrapped_def role_is_def test_role)
qed

lemma renewal_role_from_key:
  assumes "\<forall>kp \<in> {kp1, kp2}. renews R parse_x509 (primary_key k c t0) kp now" "readings t0 now" "now \<le> t0 + 10800"
    and "ia5_string R (SpiffeId_to_string db_id) = Some (SpiffeId_to_string db_id)"
    and "timestamp_ok R (sint now)" "timestamp_ok R (sint (now + 3600))"
  shows "delegated_renewal_role_stamped_from_key_only R parse_x509 k c kp1 kp2 t0 now"
proof -
  let ?key = "primary_key k c t0" and ?d = "\<lparr>dur_secs = 3600, dur_nanos = 0\<rparr>"
  have "in_time R ?key ?d now" using hour_in_time(1) [of t0 now ?key R, OF assms(2,3) _ assms(5,6)] by simp
  note reads = renewal_reads [OF bspec [OF assms(1)] setups_delegable(2) [OF assms(4)] this]
  have ex: "\<exists>csr leaf. build_csr R db_id kp = Inr csr \<and> sign_svid_delegated R ?key (csr_der csr) ?d now = Returns (Inr leaf) \<and>
      extract_spiffe_id parse_x509 leaf = Inr db_id \<and> extract_role leaf = Some (WorkloadRole ''primary'') \<and> extract_ordinal leaf = None"
    if "kp \<in> {kp1, kp2}" for kp
    by (rule reads [OF that]) auto
  obtain c1 l1 where one: "build_csr R db_id kp1 = Inr c1" "sign_svid_delegated R ?key (csr_der c1) ?d now = Returns (Inr l1)"
      "extract_spiffe_id parse_x509 l1 = Inr db_id" "extract_role l1 = Some (WorkloadRole ''primary'')" "extract_ordinal l1 = None"
    using ex [of kp1] by auto
  obtain c2 l2 where two: "build_csr R db_id kp2 = Inr c2" "sign_svid_delegated R ?key (csr_der c2) ?d now = Returns (Inr l2)"
      "extract_spiffe_id parse_x509 l2 = Inr db_id" "extract_role l2 = Some (WorkloadRole ''primary'')" "extract_ordinal l2 = None"
    using ex [of kp2] by auto
  show ?thesis using one two
    by (simp add: delegated_renewal_role_stamped_from_key_only_def setups some_unwrapped_def unwrapped_def role_is_def primary_role)
qed

section \<open>Property\<close>

text \<open>The tests of identity extraction and validation pass: a workload certificate is read as its
  SPIFFE identity and accepted under its root; one without names is \<open>InvalidFormat\<close>; one of
  another root, or of the right root with a foreign trust domain, is \<open>ValidationFailed\<close>.\<close>

theorem svid_tests_pass:
  assumes "generates R self_signed parse_x509 clock" "verifies R self_signed public_key T clock" "public_key rk \<noteq> public_key fk"
  shows "extract_spiffe_id_parses_control_shaped_svid R self_signed public_key parse_x509 rk lk \<and>
    extract_spiffe_id_rejects_cert_without_spiffe_san R self_signed parse_x509 rk \<and>
    validate_svid_accepts_valid_chain R self_signed public_key parse_x509 T clock rk lk \<and>
    validate_svid_rejects_foreign_ca R self_signed public_key parse_x509 T clock rk fk lk \<and>
    validate_svid_rejects_wrong_trust_domain_uri R self_signed public_key parse_x509 T clock rk lk"
  using identity_of_certificates [OF assms(1)] validation_of_certificates [OF assms] by simp

text \<open>A generator and a verifier: a key is a byte, a certificate the signer's key, the subject's key
  and the names.\<close>

definition byte_lib :: "(u8, u8, u8) rcgen_lib" where
  "byte_lib = \<lparr>params_new = (\<lambda>names. Some (toy_params\<lparr>cp_subject_alt_names := map dns_name names, cp_not_after := 253402300799\<rparr>)),
     ia5_string = Some, serialize_request = (\<lambda>p _. Some (name_bytes (cp_subject_alt_names p))),
     csr_from_der = (\<lambda>d. Some (toy_params\<lparr>cp_subject_alt_names := snd (bytes_name d)\<rparr>, 0)),
     timestamp_ok = (\<lambda>_. True), base64_encode = (\<lambda>d. map (\<lambda>_. CHR ''A'') d), keypair_from_pem = (\<lambda>_. Some 0),
     issuer_from_ca_cert_der = (\<lambda>_ kp. Some kp),
     signed_by = (\<lambda>p pk iss. Some (iss # pk # name_bytes (cp_subject_alt_names p)))\<rparr>"

definition byte_self_signed :: "cert_params \<Rightarrow> u8 \<Rightarrow> bytes option" where
  "byte_self_signed p k = Some (k # k # name_bytes (cp_subject_alt_names p))"

definition byte_parser :: "bytes \<Rightarrow> parsed_extension list option" where
  "byte_parser cert = (let ns = snd (bytes_name (drop 2 cert))
     in Some (OtherExtension # (if ns = [] then [] else [SubjectAlternativeName (map general ns)])))"

definition byte_verifier :: "(bytes, bytes) tls_lib" where
  "byte_verifier = \<lparr>store_empty = [], store_add = (\<lambda>_ ca. Some ca), verifier_build = Some,
     verify_client_cert = (\<lambda>ca cert _. cert ! 0 = ca ! 1)\<rparr>"

lemma byte_pki:
  "0 \<le> clock \<Longrightarrow> clock \<le> 253402300799 \<Longrightarrow> generates byte_lib byte_self_signed byte_parser clock"
  "verifies byte_lib byte_self_signed (\<lambda>k. k) byte_verifier clock"
  by (simp_all add: generates_def verifies_def byte_lib_def byte_self_signed_def byte_parser_def byte_verifier_def
      shows_names_def bytes_name_of toy_params_def)

theorem svid_tests_pass_witness:
  "validate_svid_accepts_valid_chain byte_lib byte_self_signed (\<lambda>k. k) byte_parser byte_verifier 1700000000 1 3 \<and>
   validate_svid_rejects_foreign_ca byte_lib byte_self_signed (\<lambda>k. k) byte_parser byte_verifier 1700000000 1 2 3"
  using svid_tests_pass [OF byte_pki(1) byte_pki(2), of 1700000000 1 2 3] by simp

end
