(* ===== verification/Ek_Tests.thy ===== *)
theory Ek_Tests
  imports Attest_Core Pem_Text Cert_Tests
begin

text \<open>
  The tests of EK certificates, module \<open>ek_cert_extraction_tests\<close> of \<open>attestation.rs\<close>: one
  fingerprint for both presentation forms of a key, refusal of what is no certificate, and
  different fingerprints for different keys. Certificate generator, parser and hash are
  arguments; the key pairs are the ones the tests generate.
\<close>

section \<open>The tests\<close>

definition make_cert ::
    "('kp, 'pk, 'iss) rcgen_lib \<Rightarrow> (cert_params \<Rightarrow> 'kp \<Rightarrow> bytes option) \<Rightarrow> ('kp \<Rightarrow> string) \<Rightarrow> 'kp \<Rightarrow> string \<Rightarrow>
     (bytes \<times> bytes) option" where
  "make_cert R self_signed public_key_pem key_pair subject =
     Option.bind (params_new R [subject]) (\<lambda>params.
     Option.bind (self_signed params key_pair) (\<lambda>cert_der.
     let spki_der = pem_spki_to_der (public_key_pem key_pair)
     in Some (cert_der, spki_der)))"

definition convergence_cert_vs_spki ::
    "(bytes \<Rightarrow> bytes) \<Rightarrow> (bytes \<Rightarrow> 'cert option) \<Rightarrow> ('cert \<Rightarrow> bytes option) \<Rightarrow> ('kp, 'pk, 'iss) rcgen_lib \<Rightarrow>
     (cert_params \<Rightarrow> 'kp \<Rightarrow> bytes option) \<Rightarrow> ('kp \<Rightarrow> string) \<Rightarrow> 'kp \<Rightarrow> bool" where
  "convergence_cert_vs_spki blake3 from_der spki_to_der R self_signed public_key_pem key =
     some_unwrapped (make_cert R self_signed public_key_pem key ''node-a.fleetos.test'') (\<lambda>(cert_der, spki_der).
     unwrapped (of_ek_cert blake3 from_der spki_to_der cert_der) (\<lambda>via_cert.
       via_cert = of_ek_pub blake3 spki_der))"

definition rejects_empty_and_malformed ::
    "(bytes \<Rightarrow> bytes) \<Rightarrow> (bytes \<Rightarrow> 'cert option) \<Rightarrow> ('cert \<Rightarrow> bytes option) \<Rightarrow> ('kp, 'pk, 'iss) rcgen_lib \<Rightarrow>
     (cert_params \<Rightarrow> 'kp \<Rightarrow> bytes option) \<Rightarrow> ('kp \<Rightarrow> string) \<Rightarrow> 'kp \<Rightarrow> bool" where
  "rejects_empty_and_malformed blake3 from_der spki_to_der R self_signed public_key_pem key \<longleftrightarrow>
     of_ek_cert blake3 from_der spki_to_der [] = Inl EmptyInput \<and>
     of_ek_cert blake3 from_der spki_to_der [0x30, 0x03, 0x02, 0x01] = Inl MalformedDer \<and>
     of_ek_cert blake3 from_der spki_to_der (as_bytes ''not a cert'') = Inl MalformedDer \<and>
     some_unwrapped (make_cert R self_signed public_key_pem key ''node-b.fleetos.test'') (\<lambda>(cert_der, _).
       of_ek_cert blake3 from_der spki_to_der (take (length cert_der - 1) cert_der) = Inl MalformedDer)"

definition distinct_keys_distinct_fingerprints ::
    "(bytes \<Rightarrow> bytes) \<Rightarrow> (bytes \<Rightarrow> 'cert option) \<Rightarrow> ('cert \<Rightarrow> bytes option) \<Rightarrow> ('kp, 'pk, 'iss) rcgen_lib \<Rightarrow>
     (cert_params \<Rightarrow> 'kp \<Rightarrow> bytes option) \<Rightarrow> ('kp \<Rightarrow> string) \<Rightarrow> 'kp \<Rightarrow> 'kp \<Rightarrow> bool" where
  "distinct_keys_distinct_fingerprints blake3 from_der spki_to_der R self_signed public_key_pem key_a key_b =
     some_unwrapped (make_cert R self_signed public_key_pem key_a ''node-a.fleetos.test'') (\<lambda>(cert_a, _).
     some_unwrapped (make_cert R self_signed public_key_pem key_b ''node-b.fleetos.test'') (\<lambda>(cert_b, _).
     unwrapped (of_ek_cert blake3 from_der spki_to_der cert_a) (\<lambda>a.
     unwrapped (of_ek_cert blake3 from_der spki_to_der cert_b) (\<lambda>b. a \<noteq> b))))"

definition whole_cert_bytes_are_not_the_fingerprint_input ::
    "(bytes \<Rightarrow> bytes) \<Rightarrow> ('kp, 'pk, 'iss) rcgen_lib \<Rightarrow> (cert_params \<Rightarrow> 'kp \<Rightarrow> bytes option) \<Rightarrow> ('kp \<Rightarrow> string) \<Rightarrow> 'kp \<Rightarrow> bool" where
  "whole_cert_bytes_are_not_the_fingerprint_input blake3 R self_signed public_key_pem key =
     some_unwrapped (make_cert R self_signed public_key_pem key ''node-c.fleetos.test'') (\<lambda>(cert_der, spki_der).
       of_ek_pub blake3 cert_der \<noteq> of_ek_pub blake3 spki_der)"

section \<open>What they rely on\<close>

text \<open>The public key PEM is one \<open>der_to_pem\<close> could have written; a certificate parses, to one with
  that public key, and is longer than it; the parser refuses the test's two literals and
  every certificate without its last byte.\<close>

definition ek_library ::
    "(bytes \<Rightarrow> 'cert option) \<Rightarrow> ('cert \<Rightarrow> bytes option) \<Rightarrow> ('kp, 'pk, 'iss) rcgen_lib \<Rightarrow>
     (cert_params \<Rightarrow> 'kp \<Rightarrow> bytes option) \<Rightarrow> ('kp \<Rightarrow> string) \<Rightarrow> ('kp \<Rightarrow> bytes) \<Rightarrow> bool" where
  "ek_library from_der spki_to_der R self_signed public_key_pem spki \<longleftrightarrow>
     (\<forall>names. params_new R names \<noteq> None) \<and>
     (\<forall>k. public_key_pem k = concat (map (\<lambda>l. l @ [CHR 0x0A]) (pem_lines (spki k) ''PUBLIC KEY''))) \<and>
     (\<forall>p k. \<exists>cert x. self_signed p k = Some cert \<and> length (spki k) < length cert \<and> from_der cert = Some x \<and>
        spki_to_der x = Some (spki k) \<and> from_der (take (length cert - 1) cert) = None) \<and>
     from_der [0x30, 0x03, 0x02, 0x01] = None \<and> from_der (as_bytes ''not a cert'') = None \<and> (\<forall>k. 2 \<le> length (spki k))"

lemma made_cert:
  assumes "ek_library from_der spki_to_der R self_signed public_key_pem spki"
  obtains cert where "make_cert R self_signed public_key_pem k subject = Some (cert, spki k)" "length (spki k) < length cert"
    "of_ek_cert blake3 from_der spki_to_der cert = Inr (of_ek_pub blake3 (spki k))"
    "of_ek_cert blake3 from_der spki_to_der (take (length cert - 1) cert) = Inl MalformedDer"
proof -
  obtain p where p: "params_new R [subject] = Some p" using assms unfolding ek_library_def by fast
  obtain cert x where c: "self_signed p k = Some cert" "length (spki k) < length cert" "from_der cert = Some x"
      "spki_to_der x = Some (spki k)" "from_der (take (length cert - 1) cert) = None"
    using assms unfolding ek_library_def by blast
  have "2 \<le> length (spki k)" using assms unfolding ek_library_def by blast
  then have "cert \<noteq> []" "take (length cert - 1) cert \<noteq> []" using c(2) by auto
  moreover have "pem_spki_to_der (public_key_pem k) = spki k"
    using assms read_pem_lines [of "''PUBLIC KEY''"] by (simp add: ek_library_def)
  ultimately show ?thesis using that p c by (simp add: make_cert_def of_ek_cert_def)
qed

lemma literals_rejected:
  assumes "ek_library from_der spki_to_der R self_signed public_key_pem spki"
  shows "of_ek_cert blake3 from_der spki_to_der [0x30, 0x03, 0x02, 0x01] = Inl MalformedDer"
    "of_ek_cert blake3 from_der spki_to_der (as_bytes ''not a cert'') = Inl MalformedDer"
  using assms by (simp_all add: ek_library_def of_ek_cert_def)

section \<open>They pass\<close>

text \<open>The tests of EK certificates pass: both forms of a key have one fingerprint, empty and malformed
  input is refused as such, and different keys, or a certificate taken for its key, have
  different fingerprints unless the truncated hash collides on the two.\<close>

theorem ek_cert_tests_pass:
  assumes lib: "ek_library from_der spki_to_der R self_signed public_key_pem spki" and keys: "spki ka \<noteq> spki kb"
    and "\<not> collides H (ek_preimage (spki ka)) (ek_preimage (spki kb))"
    and "\<And>cert. make_cert R self_signed public_key_pem kc ''node-c.fleetos.test'' = Some (cert, spki kc) \<Longrightarrow>
      \<not> collides H (ek_preimage cert) (ek_preimage (spki kc))"
  shows "convergence_cert_vs_spki H from_der spki_to_der R self_signed public_key_pem ka \<and>
    rejects_empty_and_malformed H from_der spki_to_der R self_signed public_key_pem kb \<and>
    distinct_keys_distinct_fingerprints H from_der spki_to_der R self_signed public_key_pem ka kb \<and>
    whole_cert_bytes_are_not_the_fingerprint_input H R self_signed public_key_pem kc"
proof -
  note made = made_cert [OF lib]
  have "convergence_cert_vs_spki H from_der spki_to_der R self_signed public_key_pem ka"
    by (rule made [of ka "''node-a.fleetos.test''" H]) (simp add: convergence_cert_vs_spki_def some_unwrapped_def unwrapped_def)
  moreover have "rejects_empty_and_malformed H from_der spki_to_der R self_signed public_key_pem kb"
    by (rule made [of kb "''node-b.fleetos.test''" H])
      (simp add: rejects_empty_and_malformed_def some_unwrapped_def literals_rejected [OF lib] of_ek_cert_def [of _ _ _ "[]"])
  moreover have "distinct_keys_distinct_fingerprints H from_der spki_to_der R self_signed public_key_pem ka kb"
    by (rule made [of ka "''node-a.fleetos.test''" H], rule made [of kb "''node-b.fleetos.test''" H])
      (simp add: distinct_keys_distinct_fingerprints_def some_unwrapped_def unwrapped_def ek_id.ident_eq_iff keys assms(3))
  moreover have "whole_cert_bytes_are_not_the_fingerprint_input H R self_signed public_key_pem kc"
    by (rule made [of kc "''node-c.fleetos.test''" H])
      (auto simp: whole_cert_bytes_are_not_the_fingerprint_input_def some_unwrapped_def ek_id.ident_eq_iff assms(4))
  ultimately show ?thesis by blast
qed

text \<open>A library of three-byte certificates, with the reversal as hash.\<close>

definition tiny_pem :: "u8 \<Rightarrow> string" where
  "tiny_pem k = concat (map (\<lambda>l. l @ [CHR 0x0A]) (pem_lines [k, k] ''PUBLIC KEY''))"

definition tiny_self_signed :: "cert_params \<Rightarrow> u8 \<Rightarrow> bytes option" where
  "tiny_self_signed p k = Some [0x30, k, k]"

definition tiny_from_der :: "bytes \<Rightarrow> bytes option" where
  "tiny_from_der d = (if length d = 3 then Some (drop 1 d) else None)"

lemma tiny_library: "ek_library tiny_from_der Some byte_lib tiny_self_signed tiny_pem (\<lambda>k. [k, k])"
  by (simp add: ek_library_def tiny_from_der_def tiny_self_signed_def tiny_pem_def byte_lib_def)

theorem ek_cert_tests_pass_witness:
  "distinct_keys_distinct_fingerprints rev tiny_from_der Some byte_lib tiny_self_signed tiny_pem 1 2"
proof -
  have "\<not> collides rev (ek_preimage [1, 1]) (ek_preimage [2, 2])" by (simp add: collides_def trunc16_def ek_preimage_def)
  moreover have "\<not> collides rev (ek_preimage [0x30, 3, 3]) (ek_preimage [3, 3])"
    by (simp add: collides_def trunc16_def ek_preimage_def)
  ultimately show ?thesis
    using ek_cert_tests_pass [OF tiny_library, of 1 2 rev 3] by (auto simp: make_cert_def tiny_self_signed_def byte_lib_def)
qed

end
