(* ===== verification/Spec2Isabelle.thy ===== *)
theory Spec2Isabelle
  imports Prelude Rust_Str Utf8_Text Hex_Id Primitives Spiffe_Id Der_Ext Ext_Layout Svid_Ca Attest_Core Quote_Verify
    Identity_Hash Policy_Sag Operator_Grant Secret_Seal Id_Header Vsock_Frame Naming
    Tpm_Pure Tpm_Session Tpm_Handles Tpm_Manager Attest_Flow Tpm_Secrets Tpm_Slots Tpm_Keys
    Der_Loops Str_Types Pem_Text Renewal_Subject Quote_Tests Id_Tests Svid_Tests
    Renewal_Certificate Cert_Tests Ek_Tests
begin

text \<open>
  \<^bold>\<open>A verification of fleetos-core.\<close> The crate (\<open>src/src\<close>) is the part of the FleetOS
  orchestrator that its control plane and its node agents share: workload identities and
  the certificates that carry them, hardware attestation, content-addressed identifiers,
  the sealing of secrets and a few wire formats. It has almost no state of its own; the
  exception is the TPM client, which drives a device with a small number of slots.

  \<^bold>\<open>How the parts interact.\<close> A node begins an attestation session on its TPM
  (\<open>attestation/tpm.rs\<close>), sends its endorsement and attestation keys, activates the
  credential the server made for them and quotes the PCRs the server's nonce asks for. The
  server parses the attestation key, checks signature, nonce field and PCR binding
  (\<open>attestation/quote.rs\<close>) and the PCR policy (\<open>attestation.rs\<close>). An admitted workload gets
  a certificate with a SPIFFE identity and three private extensions (\<open>spiffe.rs\<close>); a node
  renews it under a delegated key. Identity and role are hashed to fingerprints (\<open>hash.rs\<close>),
  rules and grants to identifiers (\<open>policy.rs\<close>, \<open>operator.rs\<close>); secrets are sealed to an
  X25519 key (\<open>crypto.rs\<close>) or to PCRs (\<open>attestation/tpm.rs\<close>).

  \<^bold>\<open>Conventions.\<close> \<open>Result\<close> is a sum with the error on the left, \<open>Option\<close> is \<open>option\<close>, a panic
  is the value \<open>Panics\<close> (\<open>TPanic\<close> in TPM computations), integers keep their width as words,
  lengths and indices into slices are \<open>nat\<close>. A \<open>String\<close> is a list of its UTF-8 bytes as
  characters, \<open>is_rust_str\<close> its validity. Code outside the crate (blake3, SHA-2, signature
  schemes, AEAD, certificate parser and generator, TLS verifier, postcard, tss_esapi and
  the TPM behind it) is a parameter: a function argument or a record of functions. What a
  theorem needs of it is a named hypothesis on that argument and has a concrete instance
  among the witnesses. No definition needs fuel: every loop of the code is a recursion that
  terminates on its input, and \<open>Der_Loops\<close> shows that the three \<open>while\<close> loops, written as such,
  end with the values of these recursions.

  \<^bold>\<open>Theories.\<close>
  \<^item> \<open>Prelude\<close>, \<open>Rust_Str\<close>: results, outcomes, byte order of words, splitting and joining,
    UTF-8, ASCII case, lexicographic comparison; collections of simplification rules.
  \<^item> \<open>Utf8_Text\<close>: valid UTF-8 joined, and cut at ASCII bytes.
  \<^item> \<open>Hex_Id\<close>: the hex form and the truncated hash that three identifier types share. The
    locales \<open>hex_id\<close> and \<open>content_id\<close> state what such a type has to offer and prove the
    round trip and the separation of contents once; they are interpreted in \<open>Attest_Core\<close>,
    \<open>Policy_Sag\<close>, \<open>Operator_Grant\<close> and \<open>Identity_Hash\<close>.
  \<^item> \<open>Primitives\<close>: \<open>tenant.rs\<close>, \<open>version.rs\<close>, \<open>time.rs\<close>, \<open>nonce.rs\<close>.
  \<^item> \<open>Spiffe_Id\<close> (first part of \<open>spiffe.rs\<close>, \<open>mesh.rs\<close>): the parser accepts exactly what the
    printer writes for well-formed identities; the order is total.
  \<^item> \<open>Der_Ext\<close>: writers of the role, degraded and ordinal extensions and the readers that scan
    raw certificate bytes. The locale \<open>ext_codec\<close> carries the common round trip, with three
    interpretations; the scan's first hit decides, which is a finding.
  \<^item> \<open>Ext_Layout\<close>: the extensions as a certificate lays them out, and what the raw scan finds in
    a row of them when their identifiers do not occur elsewhere.
  \<^item> \<open>Svid_Ca\<close>: extraction, validation against a trust bundle, certificate requests,
    delegated renewal. Validation accepts exactly what an independent description of the chain
    and of the shown identity says, with each error in its own case; a renewed certificate
    stays inside the delegation, and a request the crate builds is renewed.
  \<^item> \<open>Attest_Core\<close>, \<open>Quote_Verify\<close>: \<open>attestation.rs\<close> and \<open>attestation/quote.rs\<close>. The walks over
    TPM structures are proved against reference layouts in both directions through the
    locale \<open>reader\<close>, so acceptance is characterised exactly; then what a quote commits to
    and what it leaves open (unselected registers, and the nonce, which is compared with an
    unsigned field only).
  \<^item> \<open>Identity_Hash\<close>, \<open>Policy_Sag\<close>, \<open>Operator_Grant\<close>: the hash inputs determine the content,
    or a collision is exhibited; a created rule is identified up to the tenants of its ends.
  \<^item> \<open>Secret_Seal\<close>, \<open>Id_Header\<close>, \<open>Vsock_Frame\<close>, \<open>Naming\<close>: \<open>crypto.rs\<close>, the header of \<open>proto.rs\<close>,
    \<open>vsock_proto.rs\<close>, \<open>naming.rs\<close>: round trips, and exactly when the header reader panics.
  \<^item> \<open>Tpm_Pure\<close>: encodings, templates and names of \<open>attestation/tpm.rs\<close>.
  \<^item> \<open>Tpm_Session\<close>: its stateful functions over a record of device operations, with every \<open>?\<close>
    as an early return that keeps the context it leaves.
  \<^item> \<open>Tpm_Handles\<close>: a calculus for the handles loaded in the device; calls release what they
    allocate, a failed call loses a bounded number, a refused unseal loses exactly three.
  \<^item> \<open>Tpm_Manager\<close>: interleaved runs of \<open>TpmContextManager\<close> as a step relation, with the
    ownership invariant by rule induction.
  \<^item> \<open>Attest_Flow\<close> and this theory: node and server together on one quote.
  \<^item> \<open>Tpm_Secrets\<close>: sealing and unsealing together, and credential activation from the
    server's call to the node's proof. The device contracts follow the TPM specification: a
    policy digest grows from zero by selection and register values, a key's name is its name
    algorithm and the digest of its public area.
  \<^item> \<open>Tpm_Slots\<close>: devices with few slots. Where objects and sessions share three free slots, the
    manager does exactly what it does without the limit. Where only transient objects are
    counted, an unmanaged session leaves no room for sealing, and after one refused unseal
    the manager can never again begin, seal, unseal or activate.
  \<^item> \<open>Tpm_Keys\<close>: which key stands behind a handle or a saved context. Interleaved sessions keep
    the keys they began with, and the manager refines a ledger of sessions and key pairs.
  \<^item> \<open>Der_Loops\<close>: the \<open>while\<close> loops of the DER writers over \<open>while_option\<close>.
  \<^item> \<open>Str_Types\<close>: a check of the model: every \<open>String\<close> the crate makes of valid strings is valid
    UTF-8, as its type in the code promises.
  \<^item> \<open>Renewal_Certificate\<close>: a renewal from \<open>build_csr\<close> to the relying party. The certificate is
    accepted as the target and carries the stamps of the key, and every reader of the crate finds
    what was delegated unless the rest of the certificate holds the bytes of an identifier; and
    exactly when a renewal panics.
  \<^item> \<open>Renewal_Subject\<close>: delegated renewal and the role reader together: a request whose subject
    holds the bytes of a role extension is renewed, and the role read is the subject's.
  \<^item> \<open>Pem_Text\<close>: the PEM text \<open>der_to_pem\<close> writes, read back by the base64 reader of the tests.
  \<^item> \<open>Quote_Tests\<close>, \<open>Id_Tests\<close>, \<open>Svid_Tests\<close>, \<open>Cert_Tests\<close>, \<open>Ek_Tests\<close>: the unit tests of the crate
    as definitions, with proofs that they pass for every hash, certificate generator, parser and
    verifier with the stated contract.

  \<^bold>\<open>Not modelled.\<close> The protobuf modules of \<open>proto.rs\<close> re-export code the build generates from
  the \<open>.proto\<close> files, and \<open>build.rs\<close> generates it. The traits \<open>HardwareAttestor\<close> and
  \<open>QuoteVerifier\<close> have no implementation in the crate and are records of their methods.
  Derived serde implementations, logging (\<open>warn!\<close>), zeroizing of memory and the installation
  of a process-wide crypto provider in \<open>validate_svid\<close> are left out, and so are the
  integration tests under \<open>tests/\<close>, which need a TPM simulator or the generated code. Of a TPM
  command the session slots matter only where the code sets them, in activation and
  unsealing; a command the code wraps in \<open>execute_with_nullauth_session\<close> is one operation of
  the device record. The clean-up that the library performs when a context is dropped is
  outside the model: the theorems speak about the device when a call returns.
\<close>

section \<open>Properties that span components\<close>

text \<open>C9. An honest quote is accepted, and the policy decides on the registers of the device. Let
  the device attest (its quotes carry the nonce and the digest of the selected registers,
  its PCR reads return them in order). A node that asks for at most eight registers in
  ascending order submits the device's registers; the server's binding check accepts them,
  the structural check accepts the quote for the nonce it was made for, the signed bytes
  carry that nonce, and the policy check passes exactly when every mandated register is of
  the SHA-256 bank, was asked for and holds the mandated digest.\<close>

theorem honest_quote_is_accepted:
  assumes "attests sha2 T reg" "sorted_wrt (<) indices" "length indices \<le> 8" "small nonce"
    and "quote_with Y T ak nonce indices s = (TOk out, s')" "qo_signature out \<noteq> []"
  shows "verify_pcr_binding sha2 (qo_quote out) (qo_pcr_values out) = Inr () \<and>
    verify_quote_structure \<lparr>tq_quote_bytes = qo_quote out, tq_signature = qo_signature out, tq_nonce = nonce,
      tq_pcr_selection = qo_pcr_values out, tq_attestation_key_pub = ak_pub\<rparr> nonce = Inr () \<and>
    (\<exists>signer clock firmware bm dg. qo_quote out = attest_bytes signer nonce clock firmware TPM_ALG_SHA256 bm dg) \<and>
    (verify_pcr_policy (qo_pcr_values out) policy = Inr () \<longleftrightarrow>
      (\<forall>e \<in> set (expected_pcrs policy). pcr_hash_algorithm e = 0x000B \<and> pcr_index e \<in> set indices \<and>
         pcr_digest e = reg (cx_dev s) (unat (pcr_index e))))"
proof -
  note h = honest_quote_binds [OF assms(1-5)]
  obtain signer clock firmware bm dg where
    q: "qo_quote out = attest_bytes signer nonce clock firmware TPM_ALG_SHA256 bm dg" using h(3) by blast
  have "verify_quote_structure \<lparr>tq_quote_bytes = qo_quote out, tq_signature = qo_signature out, tq_nonce = nonce,
      tq_pcr_selection = qo_pcr_values out, tq_attestation_key_pub = ak_pub\<rparr> nonce = Inr ()"
    using assms(6) by (simp add: verify_quote_structure_def q attest_bytes_def TPM_GENERATED_MAGIC_def)
  moreover have "verify_pcr_policy (qo_pcr_values out) policy = Inr () \<longleftrightarrow>
      (\<forall>e \<in> set (expected_pcrs policy). pcr_hash_algorithm e = 0x000B \<and> pcr_index e \<in> set indices \<and>
         pcr_digest e = reg (cx_dev s) (unat (pcr_index e)))"
    unfolding h(1) verify_pcr_policy_def verify_pcrs_result by (simp add: list_all_iff register_ok_map)
  ultimately show ?thesis using h(2,3) by blast
qed

theorem honest_quote_is_accepted_witness:
  "\<exists>out s'. quote_with plain_types attesting_sim 6 [9] [0, 7] sim_context = (TOk out, s') \<and>
     verify_pcr_binding sim_hash (qo_quote out) (qo_pcr_values out) = Inr () \<and>
     verify_pcr_policy (qo_pcr_values out) \<lparr>expected_pcrs = [register (sim_reg ()) 7]\<rparr> = Inr ()"
proof -
  obtain out s' where run: "quote_with plain_types attesting_sim 6 [9] [0, 7] sim_context = (TOk out, s')"
    using sim_quote by blast
  then have "qo_signature out \<noteq> []" by (auto elim!: quote_with_run simp: attesting_sim_def pad32_def)
  from honest_quote_is_accepted [OF sim_attests _ _ _ run this, where policy = "\<lparr>expected_pcrs = [register (sim_reg ()) 7]\<rparr>"]
  have "verify_pcr_binding sim_hash (qo_quote out) (qo_pcr_values out) = Inr ()"
    "verify_pcr_policy (qo_pcr_values out) \<lparr>expected_pcrs = [register (sim_reg ()) 7]\<rparr> = Inr ()"
    by (simp_all add: small_def register_def sim_reg_def)
  with run show ?thesis by blast
qed

text \<open>C30. PCR values are labelled by their position in the caller's list, while the device
  returns them in ascending order. Two indices in descending order get each other's
  digests, so a quote over them is submitted with swapped registers.\<close>

theorem descending_indices_swap_registers:
  assumes "reads T reg" "b < a" "read_pcr_values Y T [a, b] s = (TOk vs, s')"
  shows "vs = [\<lparr>pcr_index = a, pcr_hash_algorithm = 0x000B, pcr_digest = reg (cx_dev s) (unat b)\<rparr>,
    \<lparr>pcr_index = b, pcr_hash_algorithm = 0x000B, pcr_digest = reg (cx_dev s) (unat a)\<rparr>]"
proof -
  have "ascending (map unat [a, b]) = ascending (map unat [b, a])" by (simp add: ascending_def insert_commute)
  also have "\<dots> = [unat b, unat a]" using ascending_sorted [of "[b, a]"] assms(2) by simp
  finally show ?thesis using read_pcr_values_labels [OF assms(1,3)] by simp
qed

theorem descending_indices_swap_registers_witness:
  "\<exists>vs s'. read_pcr_values plain_types attesting_sim [7, 0] sim_context = (TOk vs, s') \<and>
     vs = [\<lparr>pcr_index = 7, pcr_hash_algorithm = 0x000B, pcr_digest = replicate 32 0\<rparr>,
       \<lparr>pcr_index = 0, pcr_hash_algorithm = 0x000B, pcr_digest = replicate 32 7\<rparr>]"
proof -
  obtain vs s' where run: "read_pcr_values plain_types attesting_sim [7, 0] sim_context = (TOk vs, s')"
    using sim_read by blast
  have "reads attesting_sim sim_reg" using sim_attests by (simp add: attests_def)
  from descending_indices_swap_registers [OF this _ run] run show ?thesis by (simp add: sim_reg_def)
qed

end
